(* ===== verification/Os.thy ===== *)
theory Os
  imports Rust_Str
begin

text \<open>
  The operating system as the sources see it: file contents, directory listings and
  environment variables. It is an argument of every definition that reads the host, so a
  theorem about such a definition holds for every host. Writes, signals and messages are
  not part of this record: the components return them as lists of effects.
\<close>

record os =
  os_exists :: "string \<Rightarrow> bool"
  os_is_dir :: "string \<Rightarrow> bool"
  os_read_to_string :: "string \<Rightarrow> string option"
  os_read_lines :: "string \<Rightarrow> string list option" \<comment> \<open>lines up to the first undecodable one\<close>
  os_read_dir :: "string \<Rightarrow> string list option" \<comment> \<open>names of the readable entries\<close>
  os_env_var :: "string \<Rightarrow> string option"

text \<open>\<open>Path::join\<close>: an absolute second path replaces the first.\<close>

definition path_is_absolute :: "string \<Rightarrow> bool" where
  "path_is_absolute p \<longleftrightarrow> starts_with ''/'' p"

definition path_join :: "string \<Rightarrow> string \<Rightarrow> string" where
  "path_join p q =
     (if path_is_absolute q then q
      else if p = [] \<or> ends_with ''/'' p then p @ q else p @ ''/'' @ q)"

text \<open>\<open>Path::file_name\<close>: the last normal component, ignoring trailing separators.\<close>

definition path_components :: "string \<Rightarrow> string list" where
  "path_components p = filter (\<lambda>c. c \<noteq> [] \<and> c \<noteq> ''.'') (split_on (CHR ''/'') p)"

definition path_file_name :: "string \<Rightarrow> string option" where
  "path_file_name p =
     (case rev (path_components p) of
        [] \<Rightarrow> None
      | c # _ \<Rightarrow> if c = ''..'' then None else Some c)"

text \<open>A host with no files and no environment.\<close>

definition empty_os :: os where
  "empty_os = \<lparr>os_exists = (\<lambda>_. False), os_is_dir = (\<lambda>_. False), os_read_to_string = (\<lambda>_. None),
     os_read_lines = (\<lambda>_. None), os_read_dir = (\<lambda>_. None), os_env_var = (\<lambda>_. None)\<rparr>"

lemma path_join_relative: "\<not> path_is_absolute q \<Longrightarrow> \<exists>r. path_join p q = p @ r \<and> ends_with q r"
  by (auto simp: path_join_def ends_with_def)

end
