(* ===== verification/Floats.thy ===== *)
theory Floats
  imports Complex_Main Rust_Str
begin

text \<open>
  The part of Rust's \<open>f32\<close> and \<open>f64\<close> that the sources use: rounding to nearest with ties
  to even, decimal parsing, comparison with constants, formatting with a fixed number of
  decimals and the conversions from and to \<open>u64\<close>. Finite values are rationals, so every
  operation computes. The lemmas bound how far rounding to nearest can exceed a value.
\<close>

section \<open>Rounding\<close>

datatype float_value = Fin rat | NegZero | Inf | NegInf | NaN

definition pow2 :: "int \<Rightarrow> rat" where
  "pow2 e = (if 0 \<le> e then 2 ^ nat e else 1 / 2 ^ nat (- e))"

definition pow10 :: "int \<Rightarrow> rat" where
  "pow10 e = (if 0 \<le> e then 10 ^ nat e else 1 / 10 ^ nat (- e))"

fun bit_len :: "nat \<Rightarrow> nat" where
  "bit_len n = (if n = 0 then 0 else Suc (bit_len (n div 2)))"

declare bit_len.simps [simp del]

text \<open>The exponent \<open>e\<close> of a positive rational: \<open>2\<^sup>e \<le> x < 2\<^sup>e\<^sup>+\<^sup>1\<close>.\<close>

definition exponent_of :: "rat \<Rightarrow> int" where
  "exponent_of x =
     (let (n, d) = quotient_of x;
          e = int (bit_len (nat n)) - int (bit_len (nat d))
      in if pow2 e \<le> x then e else e - 1)"

definition round_half_even :: "rat \<Rightarrow> int" where
  "round_half_even x =
     (let f = \<lfloor>x\<rfloor>; r = x - of_int f in
      if r < 1 / 2 then f else if 1 / 2 < r then f + 1 else if even f then f else f + 1)"

text \<open>Rounding of a non-negative rational to \<open>p\<close> bits, with exponents at least \<open>emin\<close>.\<close>

definition round_bits :: "nat \<Rightarrow> int \<Rightarrow> rat \<Rightarrow> rat" where
  "round_bits p emin x =
     (if x = 0 then 0
      else let u = pow2 (max (exponent_of x) emin - int p + 1) in
           of_int (round_half_even (x / u)) * u)"

definition float_of_rat :: "nat \<Rightarrow> int \<Rightarrow> int \<Rightarrow> bool \<Rightarrow> rat \<Rightarrow> float_value" where
  "float_of_rat p emin emax neg x =
     (let m = round_bits p emin x in
      if pow2 (emax + 1) \<le> m then (if neg then NegInf else Inf)
      else if m = 0 \<and> neg then NegZero
      else Fin (if neg then - m else m))"

definition f32_of :: "bool \<Rightarrow> rat \<Rightarrow> float_value" where
  "f32_of neg x = float_of_rat 24 (-126) 127 neg x"

definition f64_round :: "rat \<Rightarrow> rat" where
  "f64_round x = round_bits 53 (-1022) x"

section \<open>Parsing, comparing and printing\<close>

definition parse_exponent :: "string \<Rightarrow> int option" where
  "parse_exponent s =
     (let (neg, d) = (case s of
          c # cs \<Rightarrow> if c = CHR ''-'' then (True, cs) else if c = CHR ''+'' then (False, cs) else (False, s)
        | [] \<Rightarrow> (False, []))
      in if d \<noteq> [] \<and> list_all is_ascii_digit d
         then Some (if neg then - int (digits_value d) else int (digits_value d)) else None)"

definition parse_f32 :: "string \<Rightarrow> float_value option" where
  "parse_f32 s =
     (let (neg, t) = (case s of
          c # cs \<Rightarrow> if c = CHR ''-'' then (True, cs) else if c = CHR ''+'' then (False, cs) else (False, s)
        | [] \<Rightarrow> (False, []));
          low = to_ascii_lowercase t
      in if low = ''inf'' \<or> low = ''infinity'' then Some (if neg then NegInf else Inf)
         else if low = ''nan'' then Some NaN
         else
           let ip = takeWhile is_ascii_digit t;
               r1 = dropWhile is_ascii_digit t;
               (fp, r2) = (case r1 of
                   c # cs \<Rightarrow> if c = CHR ''.'' then (takeWhile is_ascii_digit cs, dropWhile is_ascii_digit cs)
                             else ([], r1)
                 | [] \<Rightarrow> ([], []));
               ex = (case r2 of
                   c # cs \<Rightarrow> if c = CHR ''e'' \<or> c = CHR ''E'' then parse_exponent cs else None
                 | [] \<Rightarrow> Some 0)
           in if ip = [] \<and> fp = [] then None
              else map_option
                (\<lambda>e. f32_of neg (of_nat (digits_value (ip @ fp)) * pow10 (e - int (length fp)))) ex)"

fun float_gt :: "float_value \<Rightarrow> rat \<Rightarrow> bool" where
  "float_gt (Fin x) c \<longleftrightarrow> c < x"
| "float_gt NegZero c \<longleftrightarrow> c < 0"
| "float_gt Inf c \<longleftrightarrow> True"
| "float_gt NegInf c \<longleftrightarrow> False"
| "float_gt NaN c \<longleftrightarrow> False"

definition pad_left :: "nat \<Rightarrow> string \<Rightarrow> string" where
  "pad_left n s = replicate (n - length s) (CHR ''0'') @ s"

text \<open>\<open>format!("{:.d}", x)\<close> of a non-negative rational.\<close>

definition fmt_fixed :: "nat \<Rightarrow> rat \<Rightarrow> string" where
  "fmt_fixed d x =
     (let n = nat (round_half_even (x * 10 ^ d)); ip = show_nat (n div 10 ^ d) in
      if d = 0 then ip else ip @ ''.'' @ pad_left d (show_nat (n mod 10 ^ d)))"

fun fmt_float :: "nat \<Rightarrow> float_value \<Rightarrow> string" where
  "fmt_float d (Fin x) = (if x < 0 then ''-'' @ fmt_fixed d (- x) else fmt_fixed d x)"
| "fmt_float d NegZero = ''-'' @ fmt_fixed d 0"
| "fmt_float d Inf = ''inf''"
| "fmt_float d NegInf = ''-inf''"
| "fmt_float d NaN = ''NaN''"

section \<open>Conversions with \<open>u64\<close>\<close>

definition f64_of_u64 :: "u64 \<Rightarrow> rat" where
  "f64_of_u64 w = f64_round (of_nat (unat w))"

text \<open>\<open>x as u64\<close> truncates towards zero and saturates.\<close>

definition u64_of_f64 :: "rat \<Rightarrow> u64" where
  "u64_of_f64 x = (if 2 ^ 64 \<le> x then - 1 else word_of_nat (nat \<lfloor>x\<rfloor>))"

section \<open>Error of rounding\<close>

lemma pow2_powi: "pow2 e = 2 powi e"
  by (simp add: pow2_def power_int_def inverse_eq_divide power_one_over)

lemma pow2_pos [simp]: "0 < pow2 e"
  by (simp add: pow2_powi)

lemma pow2_mono: "a \<le> b \<Longrightarrow> pow2 a \<le> pow2 b"
  unfolding pow2_powi by (rule power_int_increasing) simp_all

lemma pow2_nat: "pow2 (int n) = of_nat (2 ^ n)"
  by (simp add: pow2_def)

lemma pow2_add: "pow2 (a + b) = pow2 a * pow2 b"
  unfolding pow2_powi by (rule power_int_add) simp

lemma bit_len_bounds: "n \<noteq> 0 \<Longrightarrow> 2 ^ (bit_len n - 1) \<le> n \<and> n < 2 ^ bit_len n"
proof (induction n rule: bit_len.induct)
  case (1 n)
  show ?case
  proof (cases "n div 2 = 0")
    case True
    with 1 have "n = 1" by simp
    then show ?thesis by (simp add: bit_len.simps)
  next
    case False
    have "bit_len n = Suc (bit_len (n div 2))" "bit_len (n div 2) = Suc (bit_len (n div 2) - 1)"
      using False 1 by (simp_all add: bit_len.simps)
    then show ?thesis using 1(1) [OF 1(2) False]
      by (metis diff_Suc_1 div_less_iff_less_mult less_eq_div_iff_mult_less_eq pos2 power_Suc2)
  qed
qed

lemma exponent_of_bounds:
  assumes "0 < x"
  shows "pow2 (exponent_of x) \<le> x" and "x < pow2 (exponent_of x + 1)"
proof -
  obtain n d where q: "quotient_of x = (n, d)" by (cases "quotient_of x")
  have d: "0 < d" by (rule quotient_of_denom_pos [OF q])
  have x: "x = of_int n / of_int d" by (rule quotient_of_div [OF q])
  have n: "0 < n" using assms d by (simp add: x zero_less_divide_iff)
  define a b where "a = bit_len (nat n)" and "b = bit_len (nat d)"
  have an: "2 ^ (a - 1) \<le> nat n" "nat n < 2 ^ a" and bd: "2 ^ (b - 1) \<le> nat d" "nat d < 2 ^ b"
    using bit_len_bounds [of "nat n"] bit_len_bounds [of "nat d"] n d by (simp_all add: a_def b_def)
  have pos: "0 < a" "0 < b" using n d by (simp_all add: a_def b_def bit_len.simps)
  have rn: "of_nat (nat n) = (of_int n :: rat)" and rd: "of_nat (nat d) = (of_int d :: rat)" using n d by simp_all
  have "int a - 1 = int (a - 1)" "int b - 1 = int (b - 1)" using pos by simp_all
  then have lo: "pow2 (int a - 1) \<le> of_int n" "pow2 (int b - 1) \<le> of_int d"
    unfolding rn [symmetric] rd [symmetric] using an(1) bd(1) by (simp_all only: pow2_nat of_nat_le_iff)
  have hi: "of_int n < pow2 (int a)" "of_int d < pow2 (int b)"
    unfolding rn [symmetric] rd [symmetric] using an(2) bd(2) by (simp_all only: pow2_nat of_nat_less_iff)
  have e: "exponent_of x = (if pow2 (int a - int b) \<le> x then int a - int b else int a - int b - 1)"
    by (simp add: exponent_of_def q a_def b_def)
  have "pow2 (int a - int b - 1) * of_int d \<le> pow2 (int a - int b - 1) * pow2 (int b)"
    using hi(2) by (intro mult_left_mono) (simp_all add: less_imp_le)
  also have "\<dots> = pow2 (int a - 1)" by (simp flip: pow2_add)
  also have "\<dots> \<le> of_int n" by (rule lo)
  finally have low: "pow2 (int a - int b - 1) \<le> x" using d by (simp add: x field_simps)
  have "of_int n < pow2 (int a - int b + 1) * pow2 (int b - 1)" using hi(1) by (simp flip: pow2_add)
  also have "\<dots> \<le> pow2 (int a - int b + 1) * of_int d" using lo(2) by (intro mult_left_mono) (simp_all add: less_imp_le)
  finally have "x < pow2 (int a - int b + 1)" using d by (simp add: x field_simps)
  with low show "pow2 (exponent_of x) \<le> x" and "x < pow2 (exponent_of x + 1)" by (auto simp: e)
qed

lemma round_half_even_error: "of_int (round_half_even x) \<le> x + 1 / 2"
proof -
  have "of_int \<lfloor>x\<rfloor> \<le> x" by simp
  then have "of_int \<lfloor>x\<rfloor> \<le> x + 1 / 2" by linarith
  then show ?thesis by (auto simp: round_half_even_def Let_def)
qed

lemma round_half_even_nonneg: "0 \<le> x \<Longrightarrow> 0 \<le> round_half_even x"
  by (simp add: round_half_even_def Let_def)

text \<open>
  Rounding adds at most one part in \<open>2\<^sup>p\<close> of the value, or of the smallest normal number.
\<close>

lemma round_bits_upper:
  assumes "0 \<le> x"
  shows "round_bits p emin x \<le> x + (x + pow2 emin) * pow2 (- int p)"
proof (cases "x = 0")
  case False
  then have x: "0 < x" using assms by simp
  define e where "e = max (exponent_of x) emin"
  have "pow2 e \<le> x + pow2 emin"
    using exponent_of_bounds(1) [OF x] pow2_pos [of emin] assms
    by (cases "exponent_of x \<le> emin") (simp_all add: e_def max_def add_increasing2 less_imp_le)
  define u where "u = pow2 (e - int p + 1)"
  have u: "0 < u" by (simp add: u_def)
  have half: "u / 2 = pow2 e * pow2 (- int p)"
  proof -
    have "u = pow2 (e + - int p) * pow2 1" unfolding u_def by (subst pow2_add [symmetric]) simp
    moreover have "pow2 1 = 2" by (simp add: pow2_def)
    ultimately show ?thesis by (simp only: pow2_add)
  qed
  have "round_bits p emin x = of_int (round_half_even (x / u)) * u"
    using False by (simp add: round_bits_def u_def e_def Let_def)
  also have "\<dots> \<le> (x / u + 1 / 2) * u" using u by (intro mult_right_mono round_half_even_error) simp
  also have "\<dots> = x + pow2 e * pow2 (- int p)" using u unfolding half [symmetric] by (simp add: field_simps)
  also have "\<dots> \<le> x + (x + pow2 emin) * pow2 (- int p)"
    using \<open>pow2 e \<le> x + pow2 emin\<close> by (intro add_left_mono mult_right_mono) (simp_all add: less_imp_le)
  finally show ?thesis .
qed (simp add: round_bits_def less_imp_le)

lemma round_bits_nonneg: "0 \<le> x \<Longrightarrow> 0 \<le> round_bits p emin x"
  by (simp add: round_bits_def Let_def round_half_even_nonneg less_imp_le)


lemma f64_round_upper: "0 \<le> x \<Longrightarrow> f64_round x \<le> x + (x + 1) / 1000000"
proof -
  assume x: "0 \<le> x"
  have "pow2 (- 1022) \<le> 1" using pow2_mono [of "- 1022" 0] by (simp add: pow2_def)
  moreover have "pow2 (- int 53) \<le> 1 / 1000000" by (simp add: pow2_def)
  ultimately have "(x + pow2 (- 1022)) * pow2 (- int 53) \<le> (x + 1) * (1 / 1000000)"
    using x by (intro mult_mono) (simp_all add: less_imp_le)
  then show ?thesis using round_bits_upper [OF x, of 53 "- 1022"] unfolding f64_round_def by linarith
qed

lemma f64_round_nonneg: "0 \<le> x \<Longrightarrow> 0 \<le> f64_round x"
  by (simp add: f64_round_def round_bits_nonneg)

lemma f64_round_0 [simp]: "f64_round 0 = 0"
  by (simp add: f64_round_def round_bits_def)

lemma u64_of_f64_le:
  assumes "0 \<le> x" and "x \<le> of_nat (unat a)"
  shows "u64_of_f64 x \<le> a"
proof -
  have "unat a < 2 ^ LENGTH(64)" by (rule unsigned_less)
  then have "(of_nat (unat a) :: rat) < of_nat (2 ^ 64)" by (simp only: of_nat_less_iff) simp
  then have "x < 2 ^ 64" using assms(2) by simp
  moreover have "nat \<lfloor>x\<rfloor> \<le> unat a" using assms by (simp add: floor_le_iff nat_le_iff)
  ultimately show ?thesis
    using \<open>unat a < 2 ^ LENGTH(64)\<close> by (simp add: u64_of_f64_def word_le_nat_alt unat_of_nat)
qed

end
