(* ===== verification/Psi.thy ===== *)
theory Psi
  imports Os Floats
begin

text \<open>
  Pressure stall information (\<^verbatim>\<open>crates/inferenced-core/src/psi.rs\<close>): parsing of
  \<^verbatim>\<open>/proc/pressure/*\<close>, the simulated levels and the classification that the arbiter uses
  to throttle admissions.
\<close>

section \<open>Model\<close>

datatype pressure_level = Normal | Elevated | Critical

record pressure_metrics =
  memory_some_avg10 :: float_value
  memory_full_avg10 :: float_value
  cpu_some_avg10 :: float_value
  io_some_avg10 :: float_value
  level :: pressure_level

definition default_metrics :: pressure_metrics where
  "default_metrics = \<lparr>memory_some_avg10 = Fin 0, memory_full_avg10 = Fin 0,
     cpu_some_avg10 = Fin 0, io_some_avg10 = Fin 0, level = Normal\<rparr>"

fun from_level :: "pressure_level \<Rightarrow> pressure_metrics" where
  "from_level Critical = \<lparr>memory_some_avg10 = Fin 60, memory_full_avg10 = Fin 25,
     cpu_some_avg10 = Fin 10, io_some_avg10 = Fin 5, level = Critical\<rparr>"
| "from_level Elevated = \<lparr>memory_some_avg10 = Fin 20, memory_full_avg10 = Fin 0,
     cpu_some_avg10 = Fin 10, io_some_avg10 = Fin 5, level = Elevated\<rparr>"
| "from_level Normal = \<lparr>memory_some_avg10 = Fin 0, memory_full_avg10 = Fin 0,
     cpu_some_avg10 = Fin 0, io_some_avg10 = Fin 0, level = Normal\<rparr>"

text \<open>The two nested loops of \<open>parse_psi_avg10\<close>: the first \<open>avg10=\<close> field of a matching line.\<close>

fun psi_field :: "string list \<Rightarrow> string option" where
  "psi_field [] = None"
| "psi_field (w # ws) =
     (case strip_prefix ''avg10='' w of Some v \<Rightarrow> Some v | None \<Rightarrow> psi_field ws)"

fun psi_scan :: "string \<Rightarrow> string list \<Rightarrow> float_value option" where
  "psi_scan pre [] = None"
| "psi_scan pre (l # ls) =
     (if starts_with pre l
      then (case psi_field (split_whitespace l) of
              Some v \<Rightarrow> parse_f32 v
            | None \<Rightarrow> psi_scan pre ls)
      else psi_scan pre ls)"

definition parse_psi_avg10 :: "os \<Rightarrow> string \<Rightarrow> string \<Rightarrow> float_value option" where
  "parse_psi_avg10 h path line_prefix =
     (if \<not> os_exists h path then None
      else (case os_read_to_string h path of
              None \<Rightarrow> None
            | Some content \<Rightarrow> psi_scan line_prefix (str_lines content)))"

definition classify :: "float_value \<Rightarrow> float_value \<Rightarrow> float_value \<Rightarrow> float_value \<Rightarrow> pressure_level" where
  "classify mem_some mem_full cpu_some io_some =
     (if float_gt mem_full 10 \<or> float_gt mem_some 40 \<or> float_gt io_some 50 then Critical
      else if float_gt mem_some 15 \<or> float_gt io_some 20 \<or> float_gt cpu_some 60 then Elevated
      else Normal)"

definition measured :: "os \<Rightarrow> pressure_metrics" where
  "measured h =
     (let get = (\<lambda>path pre. case parse_psi_avg10 h path pre of Some v \<Rightarrow> v | None \<Rightarrow> Fin 0);
          mem_some = get ''/proc/pressure/memory'' ''some'';
          mem_full = get ''/proc/pressure/memory'' ''full'';
          cpu_some = get ''/proc/pressure/cpu'' ''some'';
          io_some = get ''/proc/pressure/io'' ''some''
      in \<lparr>memory_some_avg10 = mem_some, memory_full_avg10 = mem_full, cpu_some_avg10 = cpu_some,
          io_some_avg10 = io_some, level = classify mem_some mem_full cpu_some io_some\<rparr>)"

text \<open>\<open>sim\<close> is the task-local \<open>SIMULATED_PSI\<close>, absent outside the tests' scopes.\<close>

definition read_current :: "pressure_level option \<Rightarrow> os \<Rightarrow> pressure_metrics" where
  "read_current sim h =
     (case sim of
        Some l \<Rightarrow> from_level l
      | None \<Rightarrow>
          (case os_env_var h ''INFERENCED_SIMULATE_PSI'' of
             Some v \<Rightarrow>
               (let s = to_ascii_lowercase v in
                if s = ''critical'' then from_level Critical
                else if s = ''elevated'' then from_level Elevated
                else if s = ''normal'' then from_level Normal
                else measured h)
           | None \<Rightarrow> measured h))"

definition level_debug :: "pressure_level \<Rightarrow> string" where
  "level_debug l = (case l of Normal \<Rightarrow> ''Normal'' | Elevated \<Rightarrow> ''Elevated'' | Critical \<Rightarrow> ''Critical'')"

section \<open>Classification\<close>

lemma from_level_level [simp]: "level (from_level l) = l"
  by (cases l) simp_all

lemma from_level_classify:
  "classify (memory_some_avg10 (from_level l)) (memory_full_avg10 (from_level l))
     (cpu_some_avg10 (from_level l)) (io_some_avg10 (from_level l)) = l"
  by (cases l) (simp_all add: classify_def)

lemma read_current_sim [simp]: "read_current (Some l) h = from_level l"
  by (simp add: read_current_def)

section \<open>The kernel's pressure files\<close>

lemma words_acc_word:
  "\<forall>c \<in> set w. \<not> is_ws c \<Longrightarrow> words_acc acc (w @ s) = words_acc (rev w @ acc) s"
  by (induction w arbitrary: acc) simp_all

lemma split_whitespace_word:
  assumes "w \<noteq> []" and "\<forall>c \<in> set w. \<not> is_ws c"
  shows "split_whitespace (w @ CHR '' '' # s) = w # split_whitespace s"
  using assms words_acc_word [OF assms(2), of "[]" "CHR '' '' # s"] by (simp add: split_whitespace_def is_ws_def)

lemma str_lines_Cons: "nl \<notin> set l \<Longrightarrow> str_lines (l @ nl # s) = strip_cr l # str_lines s"
  by (simp add: str_lines_def split_on_append Let_def)

definition psi_file :: "string \<Rightarrow> string \<Rightarrow> string \<Rightarrow> string \<Rightarrow> string" where
  "psi_file a r b s = ''some avg10='' @ a @ '' '' @ r @ [nl] @ ''full avg10='' @ b @ '' '' @ s @ [nl]"

lemma psi_field_line:
  assumes "kind \<noteq> []" "\<forall>c \<in> set kind. \<not> is_ws c" "strip_prefix ''avg10='' kind = None" "\<forall>c \<in> set a. \<not> is_ws c"
  shows "psi_field (split_whitespace (kind @ '' avg10='' @ a @ '' '' @ r)) = Some a"
proof -
  have w: "\<forall>c \<in> set (''avg10='' @ a). \<not> is_ws c" using assms(4) by (auto simp: is_ws_def)
  have "split_whitespace (kind @ CHR '' '' # (''avg10='' @ a) @ CHR '' '' # r) = kind # (''avg10='' @ a) # split_whitespace r"
    using split_whitespace_word [OF assms(1,2)] split_whitespace_word [OF _ w] by simp
  moreover have "strip_prefix ''avg10='' (''avg10='' @ a) = Some a" by (rule strip_prefix_append)
  ultimately show ?thesis using assms(3) by simp
qed

lemma strip_cr_id: "cr \<notin> set l \<Longrightarrow> strip_cr l = l"
  using last_in_set by (fastforce simp: strip_cr_def)

text \<open>C36: a pressure file in the kernel's format, two lines that start with \<open>some avg10=\<close> and
  \<open>full avg10=\<close>, is read as the two numbers in it, whatever follows on the lines.\<close>

theorem psi_file_parsed:
  assumes src: "os_exists h path" "os_read_to_string h path = Some (psi_file a r b s)"
    and num: "\<forall>c \<in> set (a @ b). \<not> is_ws c" and rest: "\<forall>c \<in> set (r @ s). c \<noteq> nl \<and> c \<noteq> cr"
  shows "parse_psi_avg10 h path ''some'' = parse_f32 a \<and> parse_psi_avg10 h path ''full'' = parse_f32 b"
proof -
  let ?l1 = "''some'' @ '' avg10='' @ a @ '' '' @ r" and ?l2 = "''full'' @ '' avg10='' @ b @ '' '' @ s"
  have ws: "is_ws nl" "is_ws cr" by (simp_all add: is_ws_def)
  have fin: "nl \<notin> set ?l1" "nl \<notin> set ?l2" "cr \<notin> set ?l1" "cr \<notin> set ?l2" using num rest ws by auto
  have file_eq: "psi_file a r b s = ?l1 @ nl # ?l2 @ nl # []" by (simp add: psi_file_def)
  have nil: "str_lines [] = []" by (simp add: str_lines_def)
  have lines: "str_lines (psi_file a r b s) = [?l1, ?l2]"
    unfolding file_eq by (simp only: str_lines_Cons [OF fin(1)] str_lines_Cons [OF fin(2)] strip_cr_id [OF fin(3)] strip_cr_id [OF fin(4)] nil)
  have "psi_field (split_whitespace ?l1) = Some a"
    by (rule psi_field_line) (use num in \<open>auto simp: is_ws_def strip_prefix_def starts_with_def\<close>)
  moreover have "psi_field (split_whitespace ?l2) = Some b"
    by (rule psi_field_line) (use num in \<open>auto simp: is_ws_def strip_prefix_def starts_with_def\<close>)
  moreover have "starts_with ''some'' ?l1" "starts_with ''full'' ?l2" "\<not> starts_with ''full'' ?l1" by (simp_all add: starts_with_def)
  ultimately show ?thesis using src by (simp only: parse_psi_avg10_def lines option.case psi_scan.simps) simp
qed

definition ex_psi :: os where
  "ex_psi = empty_os\<lparr>os_exists := (\<lambda>p. p = ''/proc/pressure/memory''),
     os_read_to_string := (\<lambda>p. if p = ''/proc/pressure/memory'' then Some (psi_file ''41.5'' ''avg60=0.00'' ''3'' ''total=7'') else None)\<rparr>"

theorem psi_file_parsed_witness:
  "parse_psi_avg10 ex_psi ''/proc/pressure/memory'' ''some'' = parse_f32 ''41.5''"
proof -
  have "os_exists ex_psi ''/proc/pressure/memory''"
    "os_read_to_string ex_psi ''/proc/pressure/memory'' = Some (psi_file ''41.5'' ''avg60=0.00'' ''3'' ''total=7'')"
    "\<forall>c \<in> set (''41.5'' @ ''3''). \<not> is_ws c" "\<forall>c \<in> set (''avg60=0.00'' @ ''total=7''). c \<noteq> nl \<and> c \<noteq> cr"
    by (simp_all add: ex_psi_def is_ws_def)
  from psi_file_parsed [OF this] show ?thesis by simp
qed

text \<open>Without an override the pressure level is critical exactly when the ten-second averages
  exceed 10 (all tasks stalled on memory), 40 (some stalled on memory) or 50 (some stalled on
  input and output), and normal exactly when in addition none exceeds 15, 20 and, for the
  processor, 60. Values that are absent or unreadable count as zero, and not-a-number as low.\<close>

theorem pressure_thresholds:
  assumes "os_env_var h ''INFERENCED_SIMULATE_PSI'' = None"
  shows "let m = read_current None h;
      val = (\<lambda>path pre. case parse_psi_avg10 h path pre of Some v \<Rightarrow> v | None \<Rightarrow> Fin 0) in
    memory_some_avg10 m = val ''/proc/pressure/memory'' ''some'' \<and> memory_full_avg10 m = val ''/proc/pressure/memory'' ''full''
    \<and> cpu_some_avg10 m = val ''/proc/pressure/cpu'' ''some'' \<and> io_some_avg10 m = val ''/proc/pressure/io'' ''some''
    \<and> (level m = Critical \<longleftrightarrow> float_gt (memory_full_avg10 m) 10 \<or> float_gt (memory_some_avg10 m) 40 \<or> float_gt (io_some_avg10 m) 50)
    \<and> (level m = Normal \<longleftrightarrow> \<not> float_gt (memory_full_avg10 m) 10 \<and> \<not> float_gt (memory_some_avg10 m) 15
         \<and> \<not> float_gt (io_some_avg10 m) 20 \<and> \<not> float_gt (cpu_some_avg10 m) 60)"
proof -
  have mono: "float_gt v c \<Longrightarrow> d \<le> c \<Longrightarrow> float_gt v d" for v c d by (cases v) auto
  show ?thesis using assms mono [of _ 40 15] mono [of _ 50 20] by (auto simp: read_current_def measured_def classify_def Let_def)
qed

theorem pressure_thresholds_witness: "level (read_current None ex_psi) = Critical"
proof -
  have "os_env_var ex_psi ''INFERENCED_SIMULATE_PSI'' = None" by (simp add: ex_psi_def empty_os_def)
  moreover have "float_gt (case parse_psi_avg10 ex_psi ''/proc/pressure/memory'' ''some'' of Some v \<Rightarrow> v | None \<Rightarrow> Fin 0) 40" by code_simp
  ultimately show ?thesis using pressure_thresholds [of ex_psi] by (simp add: Let_def)
qed

end
