(* ===== verification/Lease.thy ===== *)
theory Lease
  imports Psi "HOL-Library.Option_ord"
begin

text \<open>
  Leases and errors (\<^verbatim>\<open>crates/inferenced-core/src/lease.rs\<close> and \<^verbatim>\<open>error.rs\<close>): the
  priorities with their order, the life cycle of a lease as a step relation, and the
  errors of the core library with their messages.

  Identifiers are the 128 bits of a UUID. Their text form and the system's error texts
  come from libraries, so they are the functions of \<open>text_lib\<close>, an argument of the
  definitions that print or parse.
\<close>

section \<open>Errors\<close>

type_synonym uuid = "128 word"
type_synonym lease_id = uuid
type_synonym timestamp = int
type_synonym errno = nat

record text_lib =
  uuid_show :: "uuid \<Rightarrow> string"
  uuid_parse :: "string \<Rightarrow> uuid option"
  errno_show :: "errno \<Rightarrow> string"

datatype error =
    TopologyDiscovery string
  | PlaneNotFound string
  | ResourceExhaustion string u64 u64
  | BusSaturation string
  | LeaseNotFound string
  | PreemptionFailed string
  | ModelNotFound string
  | EngineCommunication string
  | FdError string
  | FreezerError string
  | MadviseError string
  | SystemdError string
  | SystemCall errno
  | IoError string
  | SerializationError string

fun error_to_string :: "text_lib \<Rightarrow> error \<Rightarrow> string" where
  "error_to_string L (TopologyDiscovery m) = ''Hardware topology discovery failed: '' @ m"
| "error_to_string L (PlaneNotFound m) = ''Compute plane not found: '' @ m"
| "error_to_string L (ResourceExhaustion p r a) =
     ''Resource exhaustion: insufficient memory on plane '' @ p @ '' (requested '' @ show_nat (unat r)
      @ '' bytes, available '' @ show_nat (unat a) @ '' bytes)''"
| "error_to_string L (BusSaturation m) = ''Memory bus saturation / Pressure stall critical: '' @ m"
| "error_to_string L (LeaseNotFound m) = ''Lease not found: '' @ m"
| "error_to_string L (PreemptionFailed m) = ''Lease preemption failed: '' @ m"
| "error_to_string L (ModelNotFound m) = ''Model not found: '' @ m"
| "error_to_string L (EngineCommunication m) = ''Engine communication error: '' @ m"
| "error_to_string L (FdError m) = ''Zero-copy FD error: '' @ m"
| "error_to_string L (FreezerError m) = ''Cgroup freezer error: '' @ m"
| "error_to_string L (MadviseError m) = ''Madvise page management error: '' @ m"
| "error_to_string L (SystemdError m) = ''Systemd interface error: '' @ m"
| "error_to_string L (SystemCall e) = ''System call error: '' @ errno_show L e"
| "error_to_string L (IoError m) = ''I/O error: '' @ m"
| "error_to_string L (SerializationError m) = ''Serialization error: '' @ m"

section \<open>Leases\<close>

datatype lease_priority = Batch | Interactive | EmergencyTriage

fun priority_value :: "lease_priority \<Rightarrow> nat" where
  "priority_value Batch = 0"
| "priority_value Interactive = 10"
| "priority_value EmergencyTriage = 100"

instantiation lease_priority :: linorder
begin

definition less_eq_lease_priority :: "lease_priority \<Rightarrow> lease_priority \<Rightarrow> bool" where
  "p \<le> q \<longleftrightarrow> priority_value p \<le> priority_value q"

definition less_lease_priority :: "lease_priority \<Rightarrow> lease_priority \<Rightarrow> bool" where
  "p < q \<longleftrightarrow> priority_value p < priority_value q"

instance
proof
  fix p q :: lease_priority
  show "p \<le> q \<Longrightarrow> q \<le> p \<Longrightarrow> p = q"
    by (cases p; cases q) (simp_all add: less_eq_lease_priority_def)
qed (auto simp: less_eq_lease_priority_def less_lease_priority_def)

end

datatype lease_state = Active | Preempting | Frozen | Preempted | Revoked | Expired

record compute_lease =
  l_id :: lease_id
  l_client_pid :: "u32 option"
  l_client_unit :: "string option"
  l_plane_id :: string
  l_allocated :: u64
  l_priority :: lease_priority
  l_state :: lease_state
  l_created_at :: timestamp
  l_expires_at :: "timestamp option"

text \<open>\<open>i\<close> is the identifier \<open>Uuid::new_v4\<close> returned and \<open>now\<close> the time \<open>Utc::now\<close> returned.\<close>

definition new_lease ::
  "lease_id \<Rightarrow> timestamp \<Rightarrow> string \<Rightarrow> u64 \<Rightarrow> lease_priority \<Rightarrow> string option \<Rightarrow> u32 option \<Rightarrow> compute_lease" where
  "new_lease i now plane_id allocated priority client_unit client_pid =
     \<lparr>l_id = i, l_client_pid = client_pid, l_client_unit = client_unit, l_plane_id = plane_id,
      l_allocated = allocated, l_priority = priority, l_state = Active, l_created_at = now,
      l_expires_at = None\<rparr>"

fun active_state :: "lease_state \<Rightarrow> bool" where
  "active_state Active = True"
| "active_state Preempting = True"
| "active_state Frozen = True"
| "active_state s = False"

definition is_active :: "compute_lease \<Rightarrow> bool" where
  "is_active l = active_state (l_state l)"

record lease_request =
  r_priority :: lease_priority
  r_required_bytes :: u64
  r_preferred_plane :: "string option"
  r_client_unit :: "string option"
  r_client_pid :: "u32 option"

definition priority_debug :: "lease_priority \<Rightarrow> string" where
  "priority_debug p = (case p of Batch \<Rightarrow> ''Batch'' | Interactive \<Rightarrow> ''Interactive''
     | EmergencyTriage \<Rightarrow> ''EmergencyTriage'')"

definition state_debug :: "lease_state \<Rightarrow> string" where
  "state_debug s = (case s of Active \<Rightarrow> ''Active'' | Preempting \<Rightarrow> ''Preempting'' | Frozen \<Rightarrow> ''Frozen''
     | Preempted \<Rightarrow> ''Preempted'' | Revoked \<Rightarrow> ''Revoked'' | Expired \<Rightarrow> ''Expired'')"

section \<open>The life cycle of a lease\<close>

text \<open>
  The transitions the arbiter may make on one lease. \<open>Revoked\<close> and \<open>Expired\<close> are final;
  a preempted lease has given its memory back and returns only through \<open>resume\<close>.
\<close>

inductive lease_step :: "lease_state \<Rightarrow> lease_state \<Rightarrow> bool" where
  yield: "active_state s \<Longrightarrow> lease_step s Preempting"
| freeze: "active_state s \<Longrightarrow> lease_step s Frozen"
| preempt: "active_state s \<Longrightarrow> lease_step s Preempted"
| wake: "s = Frozen \<or> s = Preempting \<Longrightarrow> lease_step s Active"
| resume: "lease_step Preempted Active"
| expire: "active_state s \<or> s = Preempted \<Longrightarrow> lease_step s Expired"
| revoke: "active_state s \<or> s = Preempted \<Longrightarrow> lease_step s Revoked"

inductive_cases lease_step_from_Expired [elim!]: "lease_step Expired s"
inductive_cases lease_step_from_Revoked [elim!]: "lease_step Revoked s"
inductive_cases lease_step_from_Preempted [elim]: "lease_step Preempted s"

definition live_state :: "lease_state \<Rightarrow> bool" where
  "live_state s \<longleftrightarrow> active_state s \<or> s = Preempted"

lemma live_state_simps [simp]:
  "live_state Active" "live_state Preempting" "live_state Frozen" "live_state Preempted"
  "\<not> live_state Revoked" "\<not> live_state Expired"
  by (simp_all add: live_state_def)

lemma active_live [simp]: "active_state s \<Longrightarrow> live_state s"
  by (simp add: live_state_def)

lemma priority_order: "Batch < Interactive" "Interactive < EmergencyTriage" "Batch < EmergencyTriage"
  by (simp_all add: less_lease_priority_def)

lemma not_below_EmergencyTriage [simp]: "p \<le> EmergencyTriage"
  by (cases p) (simp_all add: less_eq_lease_priority_def)

lemma final_states: "lease_step\<^sup>*\<^sup>* s t \<Longrightarrow> \<not> live_state s \<Longrightarrow> t = s"
proof (induction rule: rtranclp_induct)
  case (step u v)
  then show ?case by (cases s) auto
qed simp

end
