(* ===== verification/Topology.thy ===== *)
theory Topology
  imports Os Floats "HOL-Library.List_Lexorder" "HOL-Library.Char_ord"
begin

text \<open>
  Hardware discovery (\<^verbatim>\<open>crates/inferenced-core/src/topology/\<close>): the compute planes, the
  probes for NPUs, DRM devices and the host CPU, the crash-log audit that quarantines
  unstable drivers, and the choice of the emergency triage enclave.
\<close>

section \<open>Data\<close>

datatype compute_plane_kind = DiscreteGpu | IntegratedUma | NpuAccelerator | CpuMatrixExtension

record compute_plane =
  p_id :: string
  p_name :: string
  p_kind :: compute_plane_kind
  p_device_path :: "string option"
  p_total :: u64
  p_available :: u64
  p_numa_node :: "u32 option"
  p_supported_formats :: "string list"
  p_triage_reserved :: bool
  p_quarantined :: bool
  p_features :: "string list"

record hardware_topology =
  planes :: "compute_plane list"
  total_ram :: u64
  available_ram :: u64
  cpu_cores_total :: nat
  numa_nodes :: nat

definition kind_debug :: "compute_plane_kind \<Rightarrow> string" where
  "kind_debug k = (case k of DiscreteGpu \<Rightarrow> ''DiscreteGpu'' | IntegratedUma \<Rightarrow> ''IntegratedUma''
     | NpuAccelerator \<Rightarrow> ''NpuAccelerator'' | CpuMatrixExtension \<Rightarrow> ''CpuMatrixExtension'')"

section \<open>Host CPU and memory\<close>

definition parse_kb :: "string \<Rightarrow> u64" where
  "parse_kb rest =
     (case split_whitespace (trim rest) of
        [] \<Rightarrow> 0
      | v # _ \<Rightarrow> (case parse_u64 v of Some kb \<Rightarrow> kb * 1024 | None \<Rightarrow> 0))"

definition meminfo_line :: "u64 \<times> u64 \<Rightarrow> string \<Rightarrow> u64 \<times> u64" where
  "meminfo_line acc l =
     (case strip_prefix ''MemTotal:'' l of
        Some rest \<Rightarrow> (parse_kb rest, snd acc)
      | None \<Rightarrow> (case strip_prefix ''MemAvailable:'' l of
                   Some rest \<Rightarrow> (fst acc, parse_kb rest)
                 | None \<Rightarrow> acc))"

definition read_meminfo_from :: "os \<Rightarrow> string \<Rightarrow> u64 \<times> u64" where
  "read_meminfo_from h path =
     (case os_read_to_string h path of
        None \<Rightarrow> (0, 0)
      | Some content \<Rightarrow> foldl meminfo_line (0, 0) (str_lines content))"

definition count_numa_nodes :: "os \<Rightarrow> string \<Rightarrow> nat" where
  "count_numa_nodes h path =
     (if \<not> os_exists h path then 1
      else (case os_read_dir h path of
              None \<Rightarrow> 1
            | Some names \<Rightarrow>
                (let count = length (filter (\<lambda>s. starts_with ''node'' s
                       \<and> list_all is_ascii_digit (drop 4 s)) names)
                 in if count = 0 then 1 else count)))"

fun cpu_feature_scan :: "string list \<Rightarrow> bool \<times> bool \<times> bool" where
  "cpu_feature_scan [] = (False, False, False)"
| "cpu_feature_scan (l # ls) =
     (if starts_with ''flags'' l \<or> starts_with ''Features'' l
      then (contains ''amx'' l,
            contains ''avx512_vnni'' l \<or> contains ''avx512vnni'' l,
            contains ''avx2'' l)
      else cpu_feature_scan ls)"

definition detect_cpu_features :: "os \<Rightarrow> string \<Rightarrow> bool \<times> bool \<times> bool" where
  "detect_cpu_features h path =
     (case os_read_to_string h path of
        None \<Rightarrow> (False, False, False)
      | Some content \<Rightarrow> cpu_feature_scan (str_lines content))"

definition count_cpu_cores :: "os \<Rightarrow> string \<Rightarrow> nat" where
  "count_cpu_cores h path =
     (case os_read_to_string h path of
        None \<Rightarrow> 1
      | Some content \<Rightarrow>
          (let count = length (filter (starts_with ''processor'') (str_lines content))
           in if count = 0 then 1 else count))"

definition three_quarters :: "u64 \<Rightarrow> u64" where
  "three_quarters a = u64_of_f64 (f64_round (f64_of_u64 a * (3 / 4)))"

definition build_cpu_plane :: "os \<Rightarrow> string \<Rightarrow> u64 \<Rightarrow> compute_plane" where
  "build_cpu_plane h cpuinfo_path avail_ram =
     (let cores = count_cpu_cores h cpuinfo_path;
          (has_amx, has_vnni, has_avx2) = detect_cpu_features h cpuinfo_path;
          features = (if has_amx then [''Intel-AMX''] else [])
                   @ (if has_vnni then [''AVX512-VNNI''] else [])
                   @ (if has_avx2 then [''AVX2-FMA''] else [])
                   @ [show_nat cores @ ''-cores'']
      in \<lparr>p_id = ''cpu-host'', p_name = ''Host CPU SIMD/Matrix Plane'', p_kind = CpuMatrixExtension,
          p_device_path = None, p_total = avail_ram, p_available = three_quarters avail_ram,
          p_numa_node = Some 0,
          p_supported_formats = [''GGUF'', ''INT4'', ''INT8'', ''FP32''],
          p_triage_reserved = False, p_quarantined = False, p_features = features\<rparr>)"

section \<open>DRM devices\<close>

definition vendor_label :: "string \<Rightarrow> string" where
  "vendor_label vendor =
     (if vendor = ''0x10de'' then ''NVIDIA Corporation''
      else if vendor = ''0x1002'' then ''Advanced Micro Devices [AMD/ATI]''
      else if vendor = ''0x8086'' then ''Intel Corporation''
      else if vendor = ''0x17cb'' then ''Qualcomm Technologies''
      else ''Direct Rendering Accelerator'')"

definition inspect_drm_sysfs :: "os \<Rightarrow> string \<Rightarrow> u64 \<Rightarrow> string \<times> bool \<times> u64" where
  "inspect_drm_sysfs h sysfs_card total_system_ram =
     (let device_dir = path_join sysfs_card ''device'';
          vendor = (case os_read_to_string h (path_join device_dir ''vendor'') of
                      Some v \<Rightarrow> to_ascii_lowercase (trim v)
                    | None \<Rightarrow> []);
          vendor_name = vendor_label vendor;
          vram = (case os_read_to_string h (path_join device_dir ''mem_info_vram_total'') of
                    Some s \<Rightarrow> parse_u64 (trim s)
                  | None \<Rightarrow> None);
          is_integrated = (vendor = ''0x8086'' \<or> vendor = []);
          uma_slice = max (total_system_ram div 2) (1024 * 1024 * 1024)
      in case vram of
           Some vram_bytes \<Rightarrow>
             if 0 < vram_bytes then (vendor_name, False, vram_bytes)
             else (vendor_name, is_integrated, uma_slice)
         | None \<Rightarrow> (vendor_name, is_integrated, uma_slice))"

definition drm_plane :: "os \<Rightarrow> string \<Rightarrow> string \<Rightarrow> u64 \<Rightarrow> u64 \<Rightarrow> string \<Rightarrow> compute_plane" where
  "drm_plane h dri_dir sysfs_drm_dir ram_total ram_avail fname =
     (let (vendor_name, is_integrated, vram_total) =
            inspect_drm_sysfs h (path_join sysfs_drm_dir fname) ram_total
      in \<lparr>p_id = ''drm-'' @ fname, p_name = vendor_name @ '' ('' @ fname @ '')'',
          p_kind = (if is_integrated then IntegratedUma else DiscreteGpu),
          p_device_path = Some (path_join dri_dir fname),
          p_total = vram_total,
          p_available = (if is_integrated then min ram_avail vram_total else vram_total),
          p_numa_node = None,
          p_supported_formats = [''FP16'', ''BF16'', ''FP8'', ''INT4'', ''GGUF''],
          p_triage_reserved = False, p_quarantined = False,
          p_features = [''drm-gem'', ''vram-managed'']\<rparr>)"

definition discover_drm_planes :: "os \<Rightarrow> string \<Rightarrow> string \<Rightarrow> u64 \<Rightarrow> u64 \<Rightarrow> compute_plane list" where
  "discover_drm_planes h dri_dir sysfs_drm_dir ram_total ram_avail =
     (if \<not> os_exists h dri_dir then []
      else (case os_read_dir h dri_dir of
              None \<Rightarrow> []
            | Some names \<Rightarrow>
                map (drm_plane h dri_dir sysfs_drm_dir ram_total ram_avail)
                  (filter (starts_with ''renderD'') names)))"

section \<open>NPUs\<close>

definition accel_plane :: "string \<Rightarrow> string \<Rightarrow> compute_plane" where
  "accel_plane accel_dir n =
     \<lparr>p_id = ''npu-'' @ n, p_name = ''Linux Compute Accelerator ('' @ n @ '')'',
      p_kind = NpuAccelerator, p_device_path = Some (path_join accel_dir n),
      p_total = 4 * 1024 * 1024 * 1024, p_available = 4 * 1024 * 1024 * 1024, p_numa_node = None,
      p_supported_formats = [''INT8'', ''FP8'', ''INT4'', ''ONNX''],
      p_triage_reserved = False, p_quarantined = False,
      p_features = [''low-power'', ''sram-scratchpad'', ''accel-subsystem'']\<rparr>"

definition hailo_plane :: "string \<Rightarrow> compute_plane" where
  "hailo_plane hailo_dev =
     \<lparr>p_id = ''npu-hailo0'', p_name = ''Hailo AI Accelerator'', p_kind = NpuAccelerator,
      p_device_path = Some hailo_dev,
      p_total = 2 * 1024 * 1024 * 1024, p_available = 2 * 1024 * 1024 * 1024, p_numa_node = None,
      p_supported_formats = [''HEF'', ''INT8''], p_triage_reserved = False, p_quarantined = False,
      p_features = [''26-tops'', ''pcie-edge'']\<rparr>"

definition discover_npu_planes :: "os \<Rightarrow> string \<Rightarrow> string \<Rightarrow> compute_plane list" where
  "discover_npu_planes h accel_dir hailo_dev =
     (if os_exists h accel_dir
      then (case os_read_dir h accel_dir of
              Some names \<Rightarrow> map (accel_plane accel_dir) (filter (starts_with ''accel'') names)
            | None \<Rightarrow> [])
      else [])
     @ (if os_exists h hailo_dev then [hailo_plane hailo_dev] else [])"

section \<open>Crash-log audit\<close>

record pstore_audit =
  quarantined_drivers :: "string list"
  panic_count :: nat
  has_unarchived_pstore :: bool

definition hang_driver :: "string \<Rightarrow> string option" where
  "hang_driver l =
     (if contains ''amdgpu_job_timedout'' l \<or> contains ''amdgpu: GPU reset'' l then Some ''amdgpu''
      else if contains ''xe: GPU reset'' l \<or> contains ''xe 0000:'' l then Some ''xe''
      else if contains ''drm/i915: GPU HANG'' l \<or> contains ''i915: Resetting chip'' l then Some ''i915''
      else if contains ''NVRM: Xid'' l \<or> contains ''fallen off the bus'' l then Some ''nvidia''
      else if contains ''hailo: device reset failed'' l \<or> contains ''hailo0: timeout'' l then Some ''hailo''
      else None)"

definition scan_file_for_gpu_hangs :: "string list \<Rightarrow> string list \<Rightarrow> string list" where
  "scan_file_for_gpu_hangs ls quarantined =
     foldl (\<lambda>q l. case hang_driver l of Some d \<Rightarrow> List.insert d q | None \<Rightarrow> q) quarantined ls"

definition audit_entry :: "os \<Rightarrow> string \<Rightarrow> pstore_audit \<Rightarrow> string \<Rightarrow> pstore_audit" where
  "audit_entry h path a file_name =
     (if starts_with ''dmesg-'' file_name \<or> starts_with ''console-'' file_name
      then let a1 = (if contains ''/sys/fs/pstore'' path then a\<lparr>has_unarchived_pstore := True\<rparr> else a)
           in (case os_read_lines h (path_join path file_name) of
                 Some ls \<Rightarrow> a1\<lparr>panic_count := panic_count a1 + 1,
                    quarantined_drivers := scan_file_for_gpu_hangs ls (quarantined_drivers a1)\<rparr>
               | None \<Rightarrow> a1)
      else a)"

definition audit_directory :: "os \<Rightarrow> pstore_audit \<Rightarrow> string \<Rightarrow> pstore_audit" where
  "audit_directory h a path =
     (if \<not> os_exists h path \<or> \<not> os_is_dir h path then a
      else (case os_read_dir h path of
              None \<Rightarrow> a
            | Some names \<Rightarrow> foldl (audit_entry h path) a names))"

definition analyze_directories :: "os \<Rightarrow> string list \<Rightarrow> pstore_audit" where
  "analyze_directories h paths =
     (let a = foldl (audit_directory h)
                \<lparr>quarantined_drivers = [], panic_count = 0, has_unarchived_pstore = False\<rparr> paths
      in a\<lparr>quarantined_drivers := sort (quarantined_drivers a)\<rparr>)"

definition read_default :: "os \<Rightarrow> pstore_audit" where
  "read_default h = analyze_directories h [''/sys/fs/pstore'', ''/var/lib/systemd/pstore'']"

section \<open>Triage enclave and discovery\<close>

definition CPU_TRIAGE_RESERVED_BYTES :: u64 where
  "CPU_TRIAGE_RESERVED_BYTES = 2 * 1024 * 1024 * 1024"

definition reserve_cpu_quota :: "compute_plane \<Rightarrow> compute_plane" where
  "reserve_cpu_quota p =
     (let quota = min CPU_TRIAGE_RESERVED_BYTES (p_available p div 4) in
      p\<lparr>p_triage_reserved := False,
        p_available := saturating_sub (p_available p) quota,
        p_total := saturating_sub (p_total p) quota\<rparr>)"

definition triage_npu :: "compute_plane \<Rightarrow> bool" where
  "triage_npu p \<longleftrightarrow> p_kind p = NpuAccelerator \<and> \<not> p_quarantined p"

definition triage_cpu :: "compute_plane \<Rightarrow> bool" where
  "triage_cpu p \<longleftrightarrow> p_kind p = CpuMatrixExtension \<and> \<not> p_quarantined p"

definition assign_triage_enclave :: "compute_plane list \<Rightarrow> compute_plane list \<times> string option" where
  "assign_triage_enclave ps =
     (case find triage_npu ps of
        Some npu \<Rightarrow> (modify_first triage_npu (\<lambda>p. p\<lparr>p_triage_reserved := True\<rparr>) ps, Some (p_id npu))
      | None \<Rightarrow>
          (case find triage_cpu ps of
             Some cpu \<Rightarrow> (modify_first triage_cpu reserve_cpu_quota ps, Some (p_id cpu))
           | None \<Rightarrow> (ps, None)))"

definition quarantine :: "string list \<Rightarrow> compute_plane \<Rightarrow> compute_plane" where
  "quarantine drivers p =
     (if list_ex (\<lambda>d. contains d (to_ascii_lowercase (p_id p))
                    \<or> contains d (to_ascii_lowercase (p_name p))) drivers
      then p\<lparr>p_quarantined := True\<rparr> else p)"

definition discover :: "os \<Rightarrow> hardware_topology" where
  "discover h =
     (let (ram_total, ram_avail) = read_meminfo_from h ''/proc/meminfo'';
          cores = count_cpu_cores h ''/proc/cpuinfo'';
          nodes = count_numa_nodes h ''/sys/devices/system/node'';
          npus = discover_npu_planes h ''/dev/accel'' ''/dev/hailo0'';
          drms = discover_drm_planes h ''/dev/dri'' ''/sys/class/drm'' ram_total ram_avail;
          cpu = build_cpu_plane h ''/proc/cpuinfo'' ram_avail;
          audit = read_default h;
          ps = map (quarantine (quarantined_drivers audit)) (npus @ drms @ [cpu])
      in \<lparr>planes = fst (assign_triage_enclave ps), total_ram = ram_total, available_ram = ram_avail,
          cpu_cores_total = cores, numa_nodes = nodes\<rparr>)"

end
