(* ===== verification/Model_Registry.thy ===== *)
theory Model_Registry
  imports Lease "HOL-Library.Product_Lexorder"
begin

text \<open>
  The model registry (\<^verbatim>\<open>crates/inferenced-core/src/model.rs\<close>): descriptors by id, with
  at most 256 entries kept by evicting the least used unpinned model on registration.
\<close>

section \<open>Model\<close>

datatype model_placement_state = Dormant | Staged | Resident | PinnedTriage

record model_descriptor =
  m_id :: string
  m_format :: string
  m_path :: string
  m_estimated :: u64
  m_placement :: model_placement_state
  m_resident_plane :: "string option"
  m_last_accessed :: timestamp
  m_access_count :: u64
  m_preferred_plane :: "string option"

type_synonym model_registry = "(string, model_descriptor) hashmap"

definition new_registry :: model_registry where
  "new_registry = hm_new"

definition evict_candidate :: "model_registry \<Rightarrow> string option" where
  "evict_candidate r =
     map_option fst
       (min_by_key (\<lambda>(_, m). (m_access_count m, m_last_accessed m))
          (filter (\<lambda>(_, m). m_placement m \<noteq> PinnedTriage) r))"

definition register :: "model_descriptor \<Rightarrow> model_registry \<Rightarrow> model_registry" where
  "register d r =
     (let r1 = (if \<not> hm_contains_key r (m_id d) \<and> 256 \<le> hm_len r
                then (case evict_candidate r of Some k \<Rightarrow> hm_remove k r | None \<Rightarrow> r)
                else r)
      in hm_insert (m_id d) d r1)"

definition get_model_entry :: "model_registry \<Rightarrow> string \<Rightarrow> model_descriptor option" where
  "get_model_entry r i = hm_get r i"

definition list_registry :: "model_registry \<Rightarrow> model_descriptor list" where
  "list_registry r = hm_values r"

definition remove_entry :: "string \<Rightarrow> model_registry \<Rightarrow> model_registry \<times> model_descriptor option" where
  "remove_entry i r = (hm_remove i r, hm_get r i)"

definition pin_for_triage :: "string \<Rightarrow> string \<Rightarrow> model_registry \<Rightarrow> model_registry \<times> bool" where
  "pin_for_triage i plane r =
     (case hm_get r i of
        Some _ \<Rightarrow> (hm_modify i (\<lambda>m. m\<lparr>m_placement := PinnedTriage, m_resident_plane := Some plane\<rparr>) r, True)
      | None \<Rightarrow> (r, False))"

definition placement_debug :: "model_placement_state \<Rightarrow> string" where
  "placement_debug p = (case p of Dormant \<Rightarrow> ''Dormant'' | Staged \<Rightarrow> ''Staged'' | Resident \<Rightarrow> ''Resident''
     | PinnedTriage \<Rightarrow> ''PinnedTriage'')"

section \<open>Invariant\<close>

definition registry_ok :: "model_registry \<Rightarrow> bool" where
  "registry_ok r \<longleftrightarrow> hm_wf r \<and> (\<forall>i m. hm_get r i = Some m \<longrightarrow> m_id m = i)"

lemma registry_ok_register: "registry_ok r \<Longrightarrow> registry_ok (register d r)"
  by (auto simp: registry_ok_def register_def Let_def split: option.splits if_splits)

lemma registry_ok_remove: "registry_ok r \<Longrightarrow> registry_ok (fst (remove_entry i r))"
  by (auto simp: registry_ok_def remove_entry_def split: if_splits)

lemma registry_ok_pin: "registry_ok r \<Longrightarrow> registry_ok (fst (pin_for_triage i p r))"
  by (auto simp: registry_ok_def pin_for_triage_def split: option.splits if_splits)

section \<open>Eviction\<close>

lemma evict_candidate_SomeD:
  assumes "hm_wf r" and "evict_candidate r = Some k"
  obtains m where "hm_get r k = Some m" and "m_placement m \<noteq> PinnedTriage"
    and "\<And>j n. hm_get r j = Some n \<Longrightarrow> m_placement n \<noteq> PinnedTriage \<Longrightarrow>
      (m_access_count m, m_last_accessed m) \<le> (m_access_count n, m_last_accessed n)"
proof -
  from assms(2) obtain m where mk: "min_by_key (\<lambda>(_, m). (m_access_count m, m_last_accessed m))
      (filter (\<lambda>(_, m). m_placement m \<noteq> PinnedTriage) r) = Some (k, m)"
    by (auto simp: evict_candidate_def)
  from min_by_key_SomeD [OF mk] assms(1) show thesis
    by (intro that [of m]) (auto simp: hm_get_Some_iff)
qed

lemma evict_candidate_None:
  "hm_wf r \<Longrightarrow> evict_candidate r = None \<longleftrightarrow> (\<forall>j n. hm_get r j = Some n \<longrightarrow> m_placement n = PinnedTriage)"
  by (auto simp: evict_candidate_def filter_empty_conv hm_get_Some_iff)

lemma hm_len_remove: "hm_wf r \<Longrightarrow> hm_get r k = Some m \<Longrightarrow> Suc (hm_len (hm_remove k r)) = hm_len r"
proof (induction r)
  case (Cons e r)
  obtain j n where e: "e = (j, n)" by (cases e)
  have "j \<notin> fst ` set r" using Cons.prems(1) by (simp add: hm_wf_def e)
  then have "AList.delete j r = r" by (simp add: delete_id)
  with Cons show ?case by (auto simp: hm_len_def hm_remove_def hm_get_def hm_wf_def e split: if_splits)
qed (simp add: hm_get_def)

definition key_of :: "model_descriptor \<Rightarrow> u64 \<times> timestamp" where
  "key_of m = (m_access_count m, m_last_accessed m)"

definition victim :: "model_descriptor \<Rightarrow> model_registry \<Rightarrow> string option" where
  "victim d r = (if hm_get r (m_id d) = None \<and> 256 \<le> hm_len r then evict_candidate r else None)"

lemma register_victim:
  "register d r = hm_insert (m_id d) d (case victim d r of Some k \<Rightarrow> hm_remove k r | None \<Rightarrow> r)"
  by (auto simp: register_def victim_def hm_contains_key_def Let_def split: option.splits)

text \<open>C32: registering a model stores its descriptor, over any previous one of that id. Nothing else
  changes, except that a full registry (256 entries) that meets a new id drops one model: one
  that is not pinned and has the least access count, and among those the oldest access. If every
  model is pinned nothing is dropped, and only then can the registry grow past 256 entries.\<close>

theorem register_evicts_least_used:
  assumes ok: "registry_ok r" and len: "hm_len r \<le> 256"
  shows "hm_get (register d r) (m_id d) = Some d
    \<and> (\<forall>i. i \<noteq> m_id d \<longrightarrow> hm_get (register d r) i = (if victim d r = Some i then None else hm_get r i))
    \<and> (\<forall>k. victim d r = Some k \<longrightarrow> hm_get r (m_id d) = None \<and> hm_len r = 256 \<and> (\<exists>m. hm_get r k = Some m \<and> m_placement m \<noteq> PinnedTriage
         \<and> (\<forall>j n. hm_get r j = Some n \<longrightarrow> m_placement n \<noteq> PinnedTriage \<longrightarrow> key_of m \<le> key_of n)))
    \<and> (hm_len (register d r) \<le> 256 \<or> (\<forall>j n. hm_get r j = Some n \<longrightarrow> m_placement n = PinnedTriage))"
proof (intro conjI allI impI)
  have wf: "hm_wf r" using ok by (simp add: registry_ok_def)
  show "hm_get (register d r) (m_id d) = Some d" by (simp add: register_victim)
  show "hm_get (register d r) i = (if victim d r = Some i then None else hm_get r i)" if "i \<noteq> m_id d" for i
    using that by (auto simp: register_victim split: option.splits)
  fix k assume v: "victim d r = Some k"
  then show "hm_get r (m_id d) = None" "hm_len r = 256" using len by (simp_all add: victim_def split: if_splits)
  have "evict_candidate r = Some k" using v by (simp add: victim_def split: if_splits)
  from evict_candidate_SomeD [OF wf this] show "\<exists>m. hm_get r k = Some m \<and> m_placement m \<noteq> PinnedTriage
      \<and> (\<forall>j n. hm_get r j = Some n \<longrightarrow> m_placement n \<noteq> PinnedTriage \<longrightarrow> key_of m \<le> key_of n)"
    unfolding key_of_def by metis
next
  have wf: "hm_wf r" using ok by (simp add: registry_ok_def)
  show "hm_len (register d r) \<le> 256 \<or> (\<forall>j n. hm_get r j = Some n \<longrightarrow> m_placement n = PinnedTriage)"
  proof (cases "victim d r")
    case None
    then have "hm_get r (m_id d) \<noteq> None \<or> hm_len r < 256 \<or> evict_candidate r = None"
      by (auto simp: victim_def not_le split: if_splits)
    with None wf len show ?thesis by (auto simp: register_victim hm_len_insert hm_contains_key_def evict_candidate_None)
  next
    case (Some k)
    then have "evict_candidate r = Some k" by (simp add: victim_def split: if_splits)
    then obtain m where "hm_get r k = Some m" using evict_candidate_SomeD [OF wf] by metis
    from hm_len_remove [OF wf this] Some len show ?thesis by (simp add: register_victim hm_len_insert)
  qed
qed

definition ex_model :: "string \<Rightarrow> model_placement_state \<Rightarrow> model_descriptor" where
  "ex_model i p = \<lparr>m_id = i, m_format = ''GGUF'', m_path = ''/m'', m_estimated = 1, m_placement = p,
     m_resident_plane = None, m_last_accessed = 0, m_access_count = 0, m_preferred_plane = None\<rparr>"

theorem register_evicts_least_used_witness:
  "hm_get (register (ex_model ''a'' Dormant) [(''a'', ex_model ''a'' PinnedTriage)]) ''a'' = Some (ex_model ''a'' Dormant)"
proof -
  have "registry_ok [(''a'', ex_model ''a'' PinnedTriage)]" "hm_len [(''a'', ex_model ''a'' PinnedTriage)] \<le> 256"
    by (auto simp: registry_ok_def hm_wf_def hm_get_def hm_len_def ex_model_def split: if_splits)
  from register_evicts_least_used [OF this, of "ex_model ''a'' Dormant"] show ?thesis by (simp add: ex_model_def)
qed

end
