(* ===== verification/Arbiter.thy ===== *)
theory Arbiter
  imports Lease Topology Model_Registry
begin

text \<open>
  The arbiter (\<^verbatim>\<open>crates/inferenced-core/src/arbiter.rs\<close>): admission of leases with
  preemption, release, revocation, the freeze cycle and topology changes. Every method of
  the source holds the state lock for its whole body, so each is one atomic operation on
  \<open>arbiter_state\<close>. Operations return the new state also where they fail, because the source
  mutates it in place before some of its early returns. The release profile of the
  workspace wraps unchecked additions, and so does \<open>+\<close> on machine words here.
\<close>

section \<open>State\<close>

type_synonym lease_table = "(lease_id, compute_lease) hashmap"

record arbiter_state =
  topology :: hardware_topology
  leases :: lease_table
  registry :: model_registry

text \<open>Calls into the freezer, in order; the source ignores their results.\<close>

datatype effect = YieldSignal u32 | FreezeCgroup string

definition new_arbiter :: "hardware_topology \<Rightarrow> arbiter_state" where
  "new_arbiter t = \<lparr>topology = t, leases = hm_new, registry = new_registry\<rparr>"

section \<open>Memory of a plane\<close>

definition is_cpu_plane :: "compute_plane \<Rightarrow> bool" where
  "is_cpu_plane p \<longleftrightarrow> p_kind p = CpuMatrixExtension"

definition plane_of :: "hardware_topology \<Rightarrow> string \<Rightarrow> compute_plane option" where
  "plane_of t q = find (\<lambda>p. p_id p = q) (planes t)"

definition is_uma :: "hardware_topology \<Rightarrow> string \<Rightarrow> bool" where
  "is_uma t q = (case plane_of t q of Some p \<Rightarrow> p_kind p = IntegratedUma | None \<Rightarrow> False)"

definition take_bytes :: "u64 \<Rightarrow> compute_plane \<Rightarrow> compute_plane" where
  "take_bytes b p = p\<lparr>p_available := saturating_sub (p_available p) b\<rparr>"

definition give_bytes :: "u64 \<Rightarrow> compute_plane \<Rightarrow> compute_plane" where
  "give_bytes b p = p\<lparr>p_available := min (p_available p + b) (p_total p)\<rparr>"

text \<open>A change to a plane, repeated on the host CPU plane when the plane shares its memory.\<close>

definition on_plane :: "(compute_plane \<Rightarrow> compute_plane) \<Rightarrow> string \<Rightarrow> hardware_topology \<Rightarrow> hardware_topology" where
  "on_plane f q t =
     (let uma = is_uma t q;
          t1 = t\<lparr>planes := modify_first (\<lambda>p. p_id p = q) f (planes t)\<rparr>
      in if uma then t1\<lparr>planes := modify_first is_cpu_plane f (planes t1)\<rparr> else t1)"

definition restore_plane_memory :: "hardware_topology \<Rightarrow> string \<Rightarrow> u64 \<Rightarrow> hardware_topology" where
  "restore_plane_memory t q bytes = on_plane (give_bytes bytes) q t"

text \<open>The subtraction in \<open>acquire_lease\<close>, which addresses the plane by its index.\<close>

definition charge_at :: "nat \<Rightarrow> u64 \<Rightarrow> hardware_topology \<Rightarrow> hardware_topology" where
  "charge_at idx bytes t =
     (let uma = (p_kind (planes t ! idx) = IntegratedUma);
          t1 = t\<lparr>planes := (planes t)[idx := take_bytes bytes (planes t ! idx)]\<rparr>
      in if uma then t1\<lparr>planes := modify_first is_cpu_plane (take_bytes bytes) (planes t1)\<rparr> else t1)"

section \<open>Topology changes\<close>

definition rebind_lease :: "compute_lease \<Rightarrow> hardware_topology \<Rightarrow> compute_lease \<times> hardware_topology" where
  "rebind_lease l t =
     (if is_active l
      then (case plane_of t (l_plane_id l) of
              Some _ \<Rightarrow> (l, on_plane (take_bytes (l_allocated l)) (l_plane_id l) t)
            | None \<Rightarrow> (l\<lparr>l_state := Revoked\<rparr>, t))
      else if l_state l = Preempted \<and> \<not> list_ex (\<lambda>p. p_id p = l_plane_id l) (planes t)
      then (l\<lparr>l_state := Revoked\<rparr>, t)
      else (l, t))"

fun rebind_leases :: "lease_table \<Rightarrow> hardware_topology \<Rightarrow> lease_table \<times> hardware_topology" where
  "rebind_leases [] t = ([], t)"
| "rebind_leases ((i, l) # ls) t =
     (let (l', t1) = rebind_lease l t; (ls', t2) = rebind_leases ls t1 in ((i, l') # ls', t2))"

definition update_topology :: "hardware_topology \<Rightarrow> arbiter_state \<Rightarrow> arbiter_state" where
  "update_topology t st =
     (let (ls, t') = rebind_leases (leases st) t in st\<lparr>leases := ls, topology := t'\<rparr>)"

definition refresh_topology :: "os \<Rightarrow> arbiter_state \<Rightarrow> arbiter_state" where
  "refresh_topology h st = update_topology (discover h) st"

section \<open>Registry access\<close>

definition list_leases :: "arbiter_state \<Rightarrow> compute_lease list" where
  "list_leases st = hm_values (leases st)"

definition get_lease :: "arbiter_state \<Rightarrow> lease_id \<Rightarrow> compute_lease option" where
  "get_lease st i = hm_get (leases st) i"

definition register_model :: "model_descriptor \<Rightarrow> arbiter_state \<Rightarrow> arbiter_state" where
  "register_model d st = st\<lparr>registry := register d (registry st)\<rparr>"

definition list_models :: "arbiter_state \<Rightarrow> model_descriptor list" where
  "list_models st = list_registry (registry st)"

definition get_model :: "arbiter_state \<Rightarrow> string \<Rightarrow> model_descriptor option" where
  "get_model st i = get_model_entry (registry st) i"

definition remove_model :: "string \<Rightarrow> arbiter_state \<Rightarrow> arbiter_state \<times> model_descriptor option" where
  "remove_model i st = (let (r, d) = remove_entry i (registry st) in (st\<lparr>registry := r\<rparr>, d))"

definition pin_model_for_triage :: "string \<Rightarrow> string \<Rightarrow> arbiter_state \<Rightarrow> arbiter_state \<times> bool" where
  "pin_model_for_triage i plane st =
     (let (r, b) = pin_for_triage i plane (registry st) in (st\<lparr>registry := r\<rparr>, b))"

section \<open>Admission\<close>

definition select_plane :: "compute_plane list \<Rightarrow> lease_priority \<Rightarrow> string option \<Rightarrow> (error, nat) result" where
  "select_plane ps priority preferred =
     (case preferred of
        Some pref \<Rightarrow>
          (case position (\<lambda>p. p_id p = pref) ps of Some i \<Rightarrow> Ok i | None \<Rightarrow> Err (PlaneNotFound pref))
      | None \<Rightarrow>
          if priority = EmergencyTriage
          then (case position p_triage_reserved ps of
                  Some i \<Rightarrow> Ok i
                | None \<Rightarrow>
                    (case position is_cpu_plane ps of
                       Some i \<Rightarrow> Ok i
                     | None \<Rightarrow>
                         (case max_by_key (\<lambda>(_, p). p_total p) (enumerate 0 ps) of
                            Some (i, _) \<Rightarrow> Ok i
                          | None \<Rightarrow> Err (PlaneNotFound ''No suitable compute plane for emergency triage''))))
          else (case max_by_key (\<lambda>(_, p). p_available p)
                       (filter (\<lambda>(_, p). \<not> p_quarantined p
                                  \<and> (\<not> p_triage_reserved p \<or> priority = EmergencyTriage))
                          (enumerate 0 ps)) of
                  Some (i, _) \<Rightarrow> Ok i
                | None \<Rightarrow> Err (PlaneNotFound ''No available compute plane found'')))"

definition preemptable :: "lease_table \<Rightarrow> string \<Rightarrow> lease_priority \<Rightarrow> lease_id list" where
  "preemptable ls plane priority =
     sort_key (\<lambda>i. map_option l_priority (hm_get ls i))
       (map l_id (filter (\<lambda>l. l_plane_id l = plane \<and> is_active l \<and> l_priority l < priority) (hm_values ls)))"

type_synonym frozen_clients = "(u32 option \<times> string option) list"

fun preempt_loop ::
  "nat \<Rightarrow> string \<Rightarrow> u64 \<Rightarrow> lease_id list \<Rightarrow> hardware_topology \<Rightarrow> lease_table \<Rightarrow> frozen_clients
   \<Rightarrow> hardware_topology \<times> lease_table \<times> frozen_clients" where
  "preempt_loop idx plane req [] t ls fz = (t, ls, fz)"
| "preempt_loop idx plane req (i # is) t ls fz =
     (if req \<le> p_available (planes t ! idx) then (t, ls, fz)
      else (case hm_get ls i of
              None \<Rightarrow> preempt_loop idx plane req is t ls fz
            | Some l \<Rightarrow>
                preempt_loop idx plane req is
                  (restore_plane_memory t plane (l_allocated l))
                  (hm_modify i (\<lambda>l. l\<lparr>l_state := Preempted\<rparr>) ls)
                  (fz @ [(l_client_pid l, l_client_unit l)])))"

definition freeze_effects :: "frozen_clients \<Rightarrow> effect list" where
  "freeze_effects fz =
     concat (map (\<lambda>(pid, unit).
       (case pid of Some p \<Rightarrow> [YieldSignal p] | None \<Rightarrow> [])
       @ (case unit of Some u \<Rightarrow> [FreezeCgroup u] | None \<Rightarrow> [])) fz)"

definition saturation_message :: "pressure_metrics \<Rightarrow> string" where
  "saturation_message psi =
     ''Memory bus saturated (PSI mem_some: '' @ fmt_float 2 (memory_some_avg10 psi)
     @ ''%, mem_full: '' @ fmt_float 2 (memory_full_avg10 psi) @ ''%). Throttling.''"

definition prune_leases :: "lease_table \<Rightarrow> lease_table" where
  "prune_leases ls =
     (if 128 < hm_len ls then hm_retain (\<lambda>_ l. is_active l \<or> l_state l = Preempted) ls else ls)"

definition acquire_lease ::
  "pressure_metrics \<Rightarrow> lease_id \<Rightarrow> timestamp \<Rightarrow> lease_priority \<Rightarrow> u64 \<Rightarrow> string option \<Rightarrow> string option
   \<Rightarrow> u32 option \<Rightarrow> arbiter_state \<Rightarrow> (error, compute_lease) result \<times> arbiter_state \<times> effect list" where
  "acquire_lease psi new_id now priority required preferred client_unit client_pid st =
     (if level psi = Critical \<and> priority \<noteq> EmergencyTriage
      then (Err (BusSaturation (saturation_message psi)), st, [])
      else (case select_plane (planes (topology st)) priority preferred of
         Err e \<Rightarrow> (Err e, st, [])
       | Ok idx \<Rightarrow>
           let plane = p_id (planes (topology st) ! idx);
               short = (p_available (planes (topology st) ! idx) < required);
               (t1, ls1, fz) =
                 (if short
                  then preempt_loop idx plane required (preemptable (leases st) plane priority)
                         (topology st) (leases st) []
                  else (topology st, leases st, []));
               st1 = st\<lparr>topology := t1, leases := ls1\<rparr>;
               avail1 = p_available (planes t1 ! idx)
           in if short \<and> avail1 < required \<and> priority \<noteq> EmergencyTriage
              then (Err (ResourceExhaustion plane required avail1), st1, [])
              else
                let lease = new_lease new_id now plane required priority client_unit client_pid
                in (Ok lease,
                    st1\<lparr>topology := charge_at idx required t1,
                        leases := hm_insert new_id lease (prune_leases ls1)\<rparr>,
                    freeze_effects fz)))"

definition request_lease ::
  "pressure_metrics \<Rightarrow> lease_id \<Rightarrow> timestamp \<Rightarrow> lease_request \<Rightarrow> arbiter_state
   \<Rightarrow> (error, compute_lease) result \<times> arbiter_state \<times> effect list" where
  "request_lease psi new_id now r st =
     acquire_lease psi new_id now (r_priority r) (r_required_bytes r) (r_preferred_plane r)
       (r_client_unit r) (r_client_pid r) st"

section \<open>Lease life cycle\<close>

definition set_lease_state :: "lease_id \<Rightarrow> lease_state \<Rightarrow> lease_table \<Rightarrow> lease_table" where
  "set_lease_state i s ls = hm_modify i (\<lambda>l. l\<lparr>l_state := s\<rparr>) ls"

text \<open>The shared body of \<open>release_lease\<close> and \<open>revoke_lease\<close>, which differ in the final state.\<close>

definition end_lease ::
  "lease_state \<Rightarrow> text_lib \<Rightarrow> lease_id \<Rightarrow> arbiter_state \<Rightarrow> (error, unit) result \<times> arbiter_state" where
  "end_lease final L i st =
     (case hm_get (leases st) i of
        None \<Rightarrow> (Err (LeaseNotFound (uuid_show L i)), st)
      | Some l \<Rightarrow>
          if \<not> is_active l \<and> l_state l \<noteq> Preempted then (Ok (), st)
          else (Ok (), st\<lparr>leases := set_lease_state i final (leases st),
                  topology := (if is_active l
                               then restore_plane_memory (topology st) (l_plane_id l) (l_allocated l)
                               else topology st)\<rparr>))"

definition release_lease :: "text_lib \<Rightarrow> lease_id \<Rightarrow> arbiter_state \<Rightarrow> (error, unit) result \<times> arbiter_state" where
  "release_lease = end_lease Expired"

definition revoke_lease :: "text_lib \<Rightarrow> lease_id \<Rightarrow> arbiter_state \<Rightarrow> (error, unit) result \<times> arbiter_state" where
  "revoke_lease = end_lease Revoked"

definition mark_active_lease ::
  "lease_state \<Rightarrow> text_lib \<Rightarrow> lease_id \<Rightarrow> arbiter_state \<Rightarrow> (error, unit) result \<times> arbiter_state" where
  "mark_active_lease s L i st =
     (case hm_get (leases st) i of
        None \<Rightarrow> (Err (LeaseNotFound (uuid_show L i)), st)
      | Some l \<Rightarrow>
          if \<not> is_active l then (Ok (), st)
          else (Ok (), st\<lparr>leases := set_lease_state i s (leases st)\<rparr>))"

definition yield_lease :: "text_lib \<Rightarrow> lease_id \<Rightarrow> arbiter_state \<Rightarrow> (error, unit) result \<times> arbiter_state" where
  "yield_lease = mark_active_lease Preempting"

definition freeze_lease :: "text_lib \<Rightarrow> lease_id \<Rightarrow> arbiter_state \<Rightarrow> (error, unit) result \<times> arbiter_state" where
  "freeze_lease = mark_active_lease Frozen"

definition thaw_lease :: "text_lib \<Rightarrow> lease_id \<Rightarrow> arbiter_state \<Rightarrow> (error, unit) result \<times> arbiter_state" where
  "thaw_lease L i st =
     (case hm_get (leases st) i of
        None \<Rightarrow> (Err (LeaseNotFound (uuid_show L i)), st)
      | Some l \<Rightarrow>
          if l_state l = Preempted
          then let req = l_allocated l; t = topology st; uma = is_uma t (l_plane_id l);
                   st' = st\<lparr>topology := on_plane (take_bytes req) (l_plane_id l) t,
                            leases := set_lease_state i Active (leases st)\<rparr>
               in (case plane_of t (l_plane_id l) of
                     None \<Rightarrow> (Err (PlaneNotFound (l_plane_id l)), st)
                   | Some p \<Rightarrow>
                       if p_available p < req
                       then (Err (ResourceExhaustion (l_plane_id l) req (p_available p)), st)
                       else if uma
                       then (case find is_cpu_plane (planes t) of
                               Some cpu \<Rightarrow>
                                 if p_available cpu < req
                                 then (Err (ResourceExhaustion (p_id cpu) req (p_available cpu)), st)
                                 else (Ok (), st')
                             | None \<Rightarrow> (Ok (), st'))
                       else (Ok (), st'))
          else if l_state l = Frozen \<or> l_state l = Preempting
          then (Ok (), st\<lparr>leases := set_lease_state i Active (leases st)\<rparr>)
          else (Ok (), st))"

end
