(* ===== verification/Freezer.thy ===== *)
theory Freezer
  imports Arbiter
begin

text \<open>
  Freezing clients (\<^verbatim>\<open>crates/inferenced-core/src/freezer.rs\<close>): signals and the
  \<^verbatim>\<open>cgroup.freeze\<close> file. System calls are recorded in order, and what they return comes from
  \<open>kernel\<close>, an argument of the definitions; so is \<open>k_pid_from_raw\<close>, the constructor of a
  process id of the \<^verbatim>\<open>rustix\<close> library.
\<close>

section \<open>System calls\<close>

datatype signal = Usr1 | Stop | Cont

datatype syscall =
    OpenWrite string
  | CreateFile string
  | WriteFile string string
  | FlushFile string
  | Kill int signal

record kernel =
  k_open_write :: "string \<Rightarrow> (string, unit) result"
  k_create :: "string \<Rightarrow> (string, unit) result"
  k_write :: "string \<Rightarrow> string \<Rightarrow> (string, unit) result"
  k_flush :: "string \<Rightarrow> (string, unit) result"
  k_pid_from_raw :: "int \<Rightarrow> int option"
  k_kill :: "int \<Rightarrow> signal \<Rightarrow> (errno, unit) result"

text \<open>The documented part of the process id constructor: zero is no process.\<close>

definition pid_zero_invalid :: "kernel \<Rightarrow> bool" where
  "pid_zero_invalid K \<longleftrightarrow> k_pid_from_raw K 0 = None \<and> (\<forall>r. r > 0 \<longrightarrow> k_pid_from_raw K r = Some r)"

section \<open>Paths\<close>

definition CGROUP_ROOT :: string where
  "CGROUP_ROOT = ''/sys/fs/cgroup''"

text \<open>\<open>Path::ends_with\<close> compares whole components.\<close>

definition path_ends_with_component :: "string \<Rightarrow> string \<Rightarrow> bool" where
  "path_ends_with_component c p \<longleftrightarrow> (case rev (path_components p) of [] \<Rightarrow> False | d # _ \<Rightarrow> d = c)"

definition resolve_freeze_path :: "os \<Rightarrow> string \<Rightarrow> string" where
  "resolve_freeze_path h path =
     (if path_is_absolute path
      then (if path_ends_with_component ''cgroup.freeze'' path then path else path_join path ''cgroup.freeze'')
      else
        let direct = path_join (path_join CGROUP_ROOT path) ''cgroup.freeze'' in
        if os_exists h direct then direct
        else (case split_once (CHR ''-'') path of
                Some (parent, _) \<Rightarrow>
                  (let nested = path_join (path_join (path_join CGROUP_ROOT (parent @ ''.slice'')) path) ''cgroup.freeze'' in
                   if os_exists h nested then nested else direct)
              | None \<Rightarrow> direct))"

section \<open>Operations\<close>

definition write_cgroup_freeze :: "kernel \<Rightarrow> os \<Rightarrow> string \<Rightarrow> string \<Rightarrow> (error, unit) result \<times> syscall list" where
  "write_cgroup_freeze K h path val =
     (let f = resolve_freeze_path h path;
          (opened, tr) = (case k_open_write K f of
             Ok _ \<Rightarrow> (Ok (), [OpenWrite f])
           | Err _ \<Rightarrow> (k_create K f, [OpenWrite f, CreateFile f]))
      in case opened of
           Err e \<Rightarrow> (Err (FreezerError (''Failed to open '' @ f @ '': '' @ e)), tr)
         | Ok _ \<Rightarrow>
             (case k_write K f val of
                Err e \<Rightarrow> (Err (FreezerError (''Failed to write to '' @ f @ '': '' @ e)), tr @ [WriteFile f val])
              | Ok _ \<Rightarrow>
                  (case k_flush K f of
                     Err e \<Rightarrow> (Err (FreezerError (''Failed to flush '' @ f @ '': '' @ e)), tr @ [WriteFile f val, FlushFile f])
                   | Ok _ \<Rightarrow> (Ok (), tr @ [WriteFile f val, FlushFile f]))))"

definition freeze_cgroup :: "kernel \<Rightarrow> os \<Rightarrow> string \<Rightarrow> (error, unit) result \<times> syscall list" where
  "freeze_cgroup K h unit = write_cgroup_freeze K h unit ''1''"

definition thaw_cgroup :: "kernel \<Rightarrow> os \<Rightarrow> string \<Rightarrow> (error, unit) result \<times> syscall list" where
  "thaw_cgroup K h unit = write_cgroup_freeze K h unit ''0''"

text \<open>\<open>err\<close> is the text of the read error.\<close>

definition is_cgroup_frozen :: "os \<Rightarrow> (string \<Rightarrow> string) \<Rightarrow> string \<Rightarrow> (error, bool) result" where
  "is_cgroup_frozen h err path =
     (let f = resolve_freeze_path h path in
      case os_read_to_string h f of
        Some content \<Rightarrow> Ok (trim content = ''1'')
      | None \<Rightarrow> Err (FreezerError (''Failed to read '' @ f @ '': '' @ err f)))"

text \<open>\<open>pid as i32\<close> reinterprets the bits, so large ids become negative.\<close>

definition signal_process :: "kernel \<Rightarrow> u32 \<Rightarrow> signal \<Rightarrow> (error, unit) result \<times> syscall list" where
  "signal_process K pid s =
     (case k_pid_from_raw K (sint pid) of
        Some p \<Rightarrow> (map_sum SystemCall id (k_kill K p s), [Kill p s])
      | None \<Rightarrow> (Err (FreezerError (''Invalid PID: '' @ show_nat (unat pid))), []))"

definition send_cooperative_yield_signal :: "kernel \<Rightarrow> u32 \<Rightarrow> (error, unit) result \<times> syscall list" where
  "send_cooperative_yield_signal K pid = signal_process K pid Usr1"

definition freeze_process_signal :: "kernel \<Rightarrow> u32 \<Rightarrow> (error, unit) result \<times> syscall list" where
  "freeze_process_signal K pid = signal_process K pid Stop"

definition thaw_process_signal :: "kernel \<Rightarrow> u32 \<Rightarrow> (error, unit) result \<times> syscall list" where
  "thaw_process_signal K pid = signal_process K pid Cont"

text \<open>The calls behind the effects of an admission.\<close>

fun run_effect :: "kernel \<Rightarrow> os \<Rightarrow> effect \<Rightarrow> syscall list" where
  "run_effect K h (YieldSignal pid) = snd (send_cooperative_yield_signal K pid)"
| "run_effect K h (FreezeCgroup u) = snd (freeze_cgroup K h u)"

section \<open>Properties\<close>

lemma sint_u32: "sint (p :: u32) = (if unat p < 2 ^ 31 then int (unat p) else int (unat p) - 2 ^ 32)"
proof -
  have b: "uint p < 2 ^ 32" using uint_bounded [of p] by simp
  have "sint p = (if uint p < 2 ^ 31 then uint p else uint p - 2 ^ 32)"
  proof -
    have "sint p = take_bit 32 (uint p) - 2 ^ 32 * of_bool (bit (uint p) 31)"
      by (simp add: sint_uint signed_take_bit_eq_take_bit_minus)
    moreover have "take_bit 32 (uint p) = uint p" using b by (simp add: take_bit_int_eq_self)
    moreover have "bit (uint p) 31 \<longleftrightarrow> 2 ^ 31 \<le> uint p"
    proof -
      have "uint p div 2 ^ 31 = 0" if "uint p < 2 ^ 31" using that by simp
      moreover have "uint p div 2 ^ 31 = 1" if "\<not> uint p < 2 ^ 31"
        using that b by (intro int_div_pos_eq [where r = "uint p - 2 ^ 31"]) simp_all
      ultimately have "uint p div 2 ^ 31 = (if uint p < 2 ^ 31 then 0 else 1)" by simp
      then show ?thesis by (simp add: bit_iff_odd)
    qed
    ultimately show ?thesis by simp
  qed
  moreover have "int (unat p) = uint p" by simp
  moreover have "unat p < 2 ^ 31 \<longleftrightarrow> int (unat p) < 2 ^ 31" by (metis of_nat_less_iff of_nat_numeral of_nat_power)
  ultimately show ?thesis by (simp only:)
qed

text \<open>With the documented process id constructor, a signal for a client id below $2^{31}$ goes
  to that process alone, and to nobody for id zero. An id of $2^{31}$ or more turns negative when
  it is reinterpreted, so if the constructor lets it pass the call addresses a process group,
  and id $2^{32}-1$ every process.\<close>

theorem signal_addressee:
  assumes "pid_zero_invalid K"
  shows "(unat pid < 2 ^ 31 \<longrightarrow> snd (signal_process K pid s) = (if pid = 0 then [] else [Kill (int (unat pid)) s]))
    \<and> (2 ^ 31 \<le> unat pid \<longrightarrow> k_pid_from_raw K (int (unat pid) - 2 ^ 32) = Some (int (unat pid) - 2 ^ 32)
         \<longrightarrow> snd (signal_process K pid s) = [Kill (int (unat pid) - 2 ^ 32) s] \<and> int (unat pid) - 2 ^ 32 < 0)"
proof -
  have "unat pid < 2 ^ 32" using unsigned_less [of pid, where ?'a = nat] by simp
  then have "int (unat pid) < 2 ^ 32" by (metis of_nat_less_iff of_nat_numeral of_nat_power)
  moreover have "pid = 0 \<longleftrightarrow> unat pid = 0" by (simp add: unat_eq_zero)
  moreover have "pid \<noteq> 0 \<Longrightarrow> 0 < uint pid" using uint_ge_0 [of pid] by (simp add: less_le uint_0_iff)
  ultimately show ?thesis
    using assms by (auto simp: signal_process_def sint_u32 pid_zero_invalid_def)
qed

definition ex_kernel :: kernel where
  "ex_kernel = \<lparr>k_open_write = (\<lambda>_. Ok ()), k_create = (\<lambda>_. Ok ()), k_write = (\<lambda>_ _. Ok ()), k_flush = (\<lambda>_. Ok ()),
     k_pid_from_raw = (\<lambda>r. if r = 0 then None else Some r), k_kill = (\<lambda>_ _. Ok ())\<rparr>"

theorem signal_addressee_witness:
  "snd (signal_process ex_kernel 4294967295 Usr1) = [Kill (- 1) Usr1] \<and> snd (signal_process ex_kernel 42 Stop) = [Kill 42 Stop]"
  using signal_addressee [of ex_kernel 4294967295 Usr1] signal_addressee [of ex_kernel 42 Stop]
  by (simp add: ex_kernel_def pid_zero_invalid_def)

end
