(* ===== verification/Arbiter_Memory.thy ===== *)
theory Arbiter_Memory
  imports Arbiter
begin

text \<open>
  The memory accounting of the arbiter. A plane is addressed by its id; a charge or a
  refund for a plane touches the plane itself and, when the plane shares the host memory,
  the first CPU plane. \<open>demand\<close> is what the active leases hold of a plane, and the lemmas
  relate it to the plane's available bytes under every elementary change of the state.
\<close>

section \<open>Addressing planes\<close>

definition ids_distinct :: "hardware_topology \<Rightarrow> bool" where
  "ids_distinct t \<longleftrightarrow> distinct (map p_id (planes t))"

definition skeleton :: "hardware_topology \<Rightarrow> (string \<times> compute_plane_kind) list" where
  "skeleton t = map (\<lambda>p. (p_id p, p_kind p)) (planes t)"

definition first_cpu :: "hardware_topology \<Rightarrow> string option" where
  "first_cpu t = map_option p_id (find is_cpu_plane (planes t))"

definition touched :: "hardware_topology \<Rightarrow> string \<Rightarrow> string \<Rightarrow> bool" where
  "touched t r q \<longleftrightarrow> q = r \<or> (is_uma t r \<and> first_cpu t = Some q)"

text \<open>A change that keeps what addresses and sizes a plane.\<close>

definition frame_change :: "(compute_plane \<Rightarrow> compute_plane) \<Rightarrow> bool" where
  "frame_change f \<longleftrightarrow> (\<forall>p. p_id (f p) = p_id p \<and> p_kind (f p) = p_kind p \<and> p_total (f p) = p_total p
     \<and> p_triage_reserved (f p) = p_triage_reserved p \<and> p_quarantined (f p) = p_quarantined p)"

section \<open>Demand\<close>

definition contrib :: "hardware_topology \<Rightarrow> string \<Rightarrow> compute_lease \<Rightarrow> nat" where
  "contrib t q l = (if is_active l \<and> touched t (l_plane_id l) q then unat (l_allocated l) else 0)"

definition demand :: "hardware_topology \<Rightarrow> lease_table \<Rightarrow> string \<Rightarrow> nat" where
  "demand t ls q = sum_list (map (\<lambda>(_, l). contrib t q l) ls)"

section \<open>Lemmas on addressing\<close>

lemma frame_take [simp]: "frame_change (take_bytes b)"
  by (simp add: frame_change_def take_bytes_def)

lemma frame_give [simp]: "frame_change (give_bytes b)"
  by (simp add: frame_change_def give_bytes_def)

lemma frameD:
  assumes "frame_change f"
  shows "p_id (f p) = p_id p" "p_kind (f p) = p_kind p" "p_total (f p) = p_total p"
    "p_triage_reserved (f p) = p_triage_reserved p" "p_quarantined (f p) = p_quarantined p"
  using assms by (simp_all add: frame_change_def)

lemma map_option_find: "map_option g (find (\<lambda>x. Q (g x)) xs) = find Q (map g xs)"
  by (induction xs) auto

lemma is_uma_skeleton:
  "is_uma t q = (case find (\<lambda>(i, k). i = q) (skeleton t) of Some (_, k) \<Rightarrow> k = IntegratedUma | None \<Rightarrow> False)"
proof -
  have "find (\<lambda>(i, k). i = q) (skeleton t) = map_option (\<lambda>p. (p_id p, p_kind p)) (plane_of t q)"
    unfolding skeleton_def plane_of_def by (subst map_option_find [symmetric]) simp
  then show ?thesis by (simp add: is_uma_def split: option.splits)
qed

lemma first_cpu_skeleton:
  "first_cpu t = map_option fst (find (\<lambda>(i, k). k = CpuMatrixExtension) (skeleton t))"
proof -
  have "find (\<lambda>(i, k). k = CpuMatrixExtension) (skeleton t)
      = map_option (\<lambda>p. (p_id p, p_kind p)) (find is_cpu_plane (planes t))"
    unfolding skeleton_def is_cpu_plane_def by (subst map_option_find [symmetric]) simp
  then show ?thesis by (simp add: first_cpu_def option.map_comp comp_def)
qed

lemma touched_skeleton: "skeleton t' = skeleton t \<Longrightarrow> touched t' = touched t"
  by (auto simp: touched_def is_uma_skeleton first_cpu_skeleton fun_eq_iff)

lemma skeleton_modify_first [simp]:
  "frame_change f \<Longrightarrow> map (\<lambda>p. (p_id p, p_kind p)) (modify_first P f ps) = map (\<lambda>p. (p_id p, p_kind p)) ps"
  by (rule map_modify_first) (simp add: frameD)

lemma skeleton_on_plane [simp]: "frame_change f \<Longrightarrow> skeleton (on_plane f r t) = skeleton t"
  by (simp add: on_plane_def skeleton_def Let_def)

lemma length_on_plane [simp]: "length (planes (on_plane f r t)) = length (planes t)"
  by (simp add: on_plane_def Let_def)

lemma ids_skeleton: "map p_id (planes t) = map fst (skeleton t)"
  by (simp add: skeleton_def)

lemma ids_distinct_skeleton: "skeleton t' = skeleton t \<Longrightarrow> ids_distinct t' = ids_distinct t"
  by (simp add: ids_distinct_def ids_skeleton)

lemma find_id_Some_iff:
  "distinct (map p_id ps) \<Longrightarrow> find (\<lambda>p. p_id p = q) ps = Some p \<longleftrightarrow> p \<in> set ps \<and> p_id p = q"
  by (induction ps) (auto simp: image_iff)

lemma plane_of_Some_iff:
  "ids_distinct t \<Longrightarrow> plane_of t q = Some p \<longleftrightarrow> p \<in> set (planes t) \<and> p_id p = q"
  by (simp add: plane_of_def ids_distinct_def find_id_Some_iff)

lemma plane_of_id: "plane_of t q = Some p \<Longrightarrow> p_id p = q"
  by (auto simp: plane_of_def find_Some_iff)

lemma plane_of_None_iff: "plane_of t q = None \<longleftrightarrow> (\<forall>p \<in> set (planes t). p_id p \<noteq> q)"
  by (auto simp: plane_of_def find_None_iff)

lemma plane_of_nth:
  "ids_distinct t \<Longrightarrow> idx < length (planes t) \<Longrightarrow> plane_of t (p_id (planes t ! idx)) = Some (planes t ! idx)"
  by (simp add: plane_of_Some_iff)

lemma find_modify_first:
  assumes "distinct (map p_id ps)" and "\<And>p. p_id (f p) = p_id p"
  shows "find (\<lambda>p. p_id p = q) (modify_first P f ps) =
    (if map_option p_id (find P ps) = Some q then map_option f (find (\<lambda>p. p_id p = q) ps)
     else find (\<lambda>p. p_id p = q) ps)"
  using assms(1)
proof (induction ps)
  case (Cons p ps)
  have "map_option p_id (find P ps) = Some q \<Longrightarrow> p_id p \<noteq> q"
    using Cons.prems by (auto simp: image_iff dest: find_SomeD)
  with Cons show ?case by (auto simp: assms(2))
qed simp

lemma find_modify_first_id:
  "(\<And>p. p_id (f p) = p_id p) \<Longrightarrow> find (\<lambda>p. p_id p = q) (modify_first (\<lambda>p. p_id p = r) f ps) =
    (if q = r then map_option f (find (\<lambda>p. p_id p = q) ps) else find (\<lambda>p. p_id p = q) ps)"
  by (induction ps) auto

lemma first_cpu_not_uma:
  assumes "ids_distinct t" and "is_uma t r"
  shows "first_cpu t \<noteq> Some r"
proof
  assume "first_cpu t = Some r"
  then obtain c where "find is_cpu_plane (planes t) = Some c" "p_id c = r"
    by (auto simp: first_cpu_def)
  then have "plane_of t r = Some c" and "p_kind c = CpuMatrixExtension"
    using assms(1) by (auto simp: plane_of_Some_iff is_cpu_plane_def dest: find_SomeD)
  with assms(2) show False by (simp add: is_uma_def)
qed

lemma plane_of_on_plane:
  assumes d: "ids_distinct t" and f: "frame_change f"
  shows "plane_of (on_plane f r t) q =
    (if touched t r q then map_option f (plane_of t q) else plane_of t q)"
proof -
  let ?ps = "modify_first (\<lambda>p. p_id p = r) f (planes t)"
  have ids: "map p_id ?ps = map p_id (planes t)" by (rule map_modify_first) (simp add: frameD f)
  then have d1: "distinct (map p_id ?ps)" using d by (simp add: ids_distinct_def)
  have find1: "find (\<lambda>p. p_id p = q) ?ps = (if q = r then map_option f (plane_of t q) else plane_of t q)" for q
    by (simp add: find_modify_first_id frameD [OF f] plane_of_def)
  have "skeleton (t\<lparr>planes := ?ps\<rparr>) = skeleton t" by (simp add: skeleton_def f)
  then have "first_cpu (t\<lparr>planes := ?ps\<rparr>) = first_cpu t" by (simp add: first_cpu_skeleton)
  then have cpu: "map_option p_id (find is_cpu_plane ?ps) = first_cpu t" by (simp add: first_cpu_def)
  have find2: "find (\<lambda>p. p_id p = q) (modify_first is_cpu_plane f ?ps) =
      (if first_cpu t = Some q then map_option f (find (\<lambda>p. p_id p = q) ?ps) else find (\<lambda>p. p_id p = q) ?ps)" for q
    using find_modify_first [OF d1, of f q is_cpu_plane] by (simp add: frameD f cpu)
  show ?thesis
    using first_cpu_not_uma [OF d, of r]
    by (auto simp: on_plane_def plane_of_def [of "_\<lparr>planes := _\<rparr>"] touched_def find1 find2 Let_def)
qed

lemma modify_first_nth:
  assumes "distinct (map p_id ps)" and "idx < length ps"
  shows "modify_first (\<lambda>p. p_id p = p_id (ps ! idx)) f ps = ps[idx := f (ps ! idx)]"
  using assms
proof (induction ps arbitrary: idx)
  case (Cons p ps)
  then show ?case by (cases idx) (auto simp: image_iff)
qed simp

lemma charge_at_on_plane:
  assumes "ids_distinct t" and "idx < length (planes t)"
  shows "charge_at idx b t = on_plane (take_bytes b) (p_id (planes t ! idx)) t"
  using assms plane_of_nth [OF assms]
  by (simp add: charge_at_def on_plane_def is_uma_def modify_first_nth ids_distinct_def)

section \<open>Lemmas on demand\<close>

lemma contrib_skeleton: "skeleton t' = skeleton t \<Longrightarrow> contrib t' = contrib t"
  using touched_skeleton [of t' t] by (simp add: contrib_def fun_eq_iff)

lemma demand_skeleton: "skeleton t' = skeleton t \<Longrightarrow> demand t' = demand t"
  using contrib_skeleton [of t' t] by (simp add: demand_def fun_eq_iff)

lemma demand_Nil [simp]: "demand t hm_new q = 0"
  by (simp add: demand_def hm_new_def)

lemma demand_modify:
  "hm_wf ls \<Longrightarrow> hm_get ls i = Some l \<Longrightarrow>
     demand t (hm_modify i f ls) q + contrib t q l = demand t ls q + contrib t q (f l)"
proof (induction ls)
  case (Cons e ls)
  obtain j k where e: "e = (j, k)" by (cases e)
  have wf: "hm_wf ls" "j \<notin> fst ` set ls" using Cons.prems by (auto simp: hm_wf_def e)
  show ?case
  proof (cases "i = j")
    case True
    with wf(2) have "hm_modify i f ls = ls" by (auto simp: hm_modify_def image_iff intro!: map_idI)
    with True Cons.prems(2) show ?thesis by (simp add: demand_def hm_modify_def e hm_get_def)
  next
    case False
    with Cons.IH wf(1) Cons.prems(2) show ?thesis
      by (simp add: demand_def hm_modify_def e hm_get_def)
  qed
qed (simp add: hm_get_def)

lemma contrib_le_demand: "hm_get ls i = Some l \<Longrightarrow> contrib t q l \<le> demand t ls q"
  unfolding demand_def by (rule member_le_sum_list) (force dest: hm_get_SomeD)+

lemma demand_insert_new:
  "hm_get ls i = None \<Longrightarrow> demand t (hm_insert i l ls) q = demand t ls q + contrib t q l"
  by (induction ls) (auto simp: demand_def hm_insert_def hm_get_def split: if_splits)

lemma demand_retain_active:
  "(\<And>i l. is_active l \<Longrightarrow> P i l) \<Longrightarrow> demand t (hm_retain P ls) q = demand t ls q"
  by (induction ls) (auto simp: demand_def hm_retain_def contrib_def)

lemma demand_prune [simp]: "demand t (prune_leases ls) q = demand t ls q"
  by (simp add: prune_leases_def demand_retain_active)

lemma demand_reorder: "hm_reorder ls ls' \<Longrightarrow> demand t ls' q = demand t ls q"
  unfolding hm_reorder_def demand_def by (metis mset_map sum_mset_sum_list)

end
