(* ===== verification/Arbiter_Inv.thy ===== *)
theory Arbiter_Inv
  imports Arbiter_Memory
begin

text \<open>
  Invariants of the arbiter. Every operation is an instance of \<open>arbiter_op\<close>; the step
  relation adds the reordering of the lease table that a rehash may cause. The file shows
  that each operation keeps the well-formedness invariant, moves every lease along the life
  cycle of \<open>Lease\<close>, and how the memory accounting changes.
\<close>

section \<open>Invariant\<close>

definition leases_ok :: "lease_table \<Rightarrow> bool" where
  "leases_ok ls \<longleftrightarrow> hm_wf ls \<and> (\<forall>i l. hm_get ls i = Some l \<longrightarrow> l_id l = i)"

definition bounded_planes :: "compute_plane list \<Rightarrow> bool" where
  "bounded_planes ps \<longleftrightarrow> (\<forall>p \<in> set ps. p_available p \<le> p_total p)"

definition topo_ok :: "hardware_topology \<Rightarrow> bool" where
  "topo_ok t \<longleftrightarrow> ids_distinct t \<and> bounded_planes (planes t)"

definition homed :: "hardware_topology \<Rightarrow> lease_table \<Rightarrow> bool" where
  "homed t ls \<longleftrightarrow> (\<forall>i l. hm_get ls i = Some l \<longrightarrow> live_state (l_state l) \<longrightarrow> plane_of t (l_plane_id l) \<noteq> None)"

definition arbiter_inv :: "arbiter_state \<Rightarrow> bool" where
  "arbiter_inv st \<longleftrightarrow> leases_ok (leases st) \<and> topo_ok (topology st) \<and> homed (topology st) (leases st)
     \<and> registry_ok (registry st)"

text \<open>No lease is left that is not expired.\<close>

definition all_over :: "arbiter_state \<Rightarrow> bool" where
  "all_over st \<longleftrightarrow> (\<forall>i l. hm_get (leases st) i = Some l \<longrightarrow> l_state l = Expired)"

section \<open>Operations as steps\<close>

datatype arbiter_op =
    OpAcquire pressure_metrics lease_id timestamp lease_priority u64 "string option" "string option" "u32 option"
  | OpRelease lease_id
  | OpRevoke lease_id
  | OpYield lease_id
  | OpFreeze lease_id
  | OpThaw lease_id
  | OpUpdateTopology hardware_topology
  | OpRegister model_descriptor
  | OpRemove string
  | OpPin string string

fun exec_op :: "text_lib \<Rightarrow> arbiter_op \<Rightarrow> arbiter_state \<Rightarrow> arbiter_state" where
  "exec_op L (OpAcquire psi i now pr b pref u pid) st = fst (snd (acquire_lease psi i now pr b pref u pid st))"
| "exec_op L (OpRelease i) st = snd (release_lease L i st)"
| "exec_op L (OpRevoke i) st = snd (revoke_lease L i st)"
| "exec_op L (OpYield i) st = snd (yield_lease L i st)"
| "exec_op L (OpFreeze i) st = snd (freeze_lease L i st)"
| "exec_op L (OpThaw i) st = snd (thaw_lease L i st)"
| "exec_op L (OpUpdateTopology t) st = update_topology t st"
| "exec_op L (OpRegister d) st = register_model d st"
| "exec_op L (OpRemove i) st = fst (remove_model i st)"
| "exec_op L (OpPin i p) st = fst (pin_model_for_triage i p st)"

text \<open>
  What the arbiter relies on: a new identifier is not in the table, and a topology comes
  from discovery, with distinct plane ids and no plane more available than large.
\<close>

fun op_ok :: "arbiter_op \<Rightarrow> arbiter_state \<Rightarrow> bool" where
  "op_ok (OpAcquire psi i now pr b pref u pid) st \<longleftrightarrow> hm_get (leases st) i = None"
| "op_ok (OpUpdateTopology t) st \<longleftrightarrow> topo_ok t"
| "op_ok _ st \<longleftrightarrow> True"

text \<open>Steps whose operations satisfy a guard; \<open>arbiter_step\<close> has no further guard.\<close>

inductive guarded_step ::
  "(arbiter_op \<Rightarrow> arbiter_state \<Rightarrow> bool) \<Rightarrow> text_lib \<Rightarrow> arbiter_state \<Rightarrow> arbiter_state \<Rightarrow> bool" for G L where
  op: "op_ok opn st \<Longrightarrow> G opn st \<Longrightarrow> guarded_step G L st (exec_op L opn st)"
| rehash: "hm_reorder (leases st) ls \<Longrightarrow> guarded_step G L st (st\<lparr>leases := ls\<rparr>)"

abbreviation arbiter_step :: "text_lib \<Rightarrow> arbiter_state \<Rightarrow> arbiter_state \<Rightarrow> bool" where
  "arbiter_step L \<equiv> guarded_step (\<lambda>_ _. True) L"

inductive_cases guarded_stepE: "guarded_step G L st st'"

section \<open>Topology\<close>

definition keeps_bound :: "(compute_plane \<Rightarrow> compute_plane) \<Rightarrow> bool" where
  "keeps_bound f \<longleftrightarrow> (\<forall>p. p_available p \<le> p_total p \<longrightarrow> p_available (f p) \<le> p_total (f p))"

lemma keeps_bound_take [simp]: "keeps_bound (take_bytes b)"
  unfolding keeps_bound_def take_bytes_def by (auto intro: order_trans [OF saturating_sub_le])

lemma keeps_bound_give [simp]: "keeps_bound (give_bytes b)"
  by (simp add: keeps_bound_def give_bytes_def)

lemma modify_first_bound: "keeps_bound f \<Longrightarrow> bounded_planes ps \<Longrightarrow> bounded_planes (modify_first P f ps)"
  using set_modify_first [of P f ps] by (auto simp: keeps_bound_def bounded_planes_def)

lemma topo_ok_on_plane [intro]:
  assumes "topo_ok t" and "frame_change f" and k: "keeps_bound f"
  shows "topo_ok (on_plane f r t)"
proof -
  have "bounded_planes (planes t)" using assms(1) by (simp add: topo_ok_def)
  then have "bounded_planes (planes (on_plane f r t))"
    by (simp add: on_plane_def Let_def modify_first_bound [OF k])
  then show ?thesis
    using assms(1) ids_distinct_skeleton [OF skeleton_on_plane [OF assms(2)]] by (simp add: topo_ok_def)
qed

lemma homed_skeleton: "skeleton t' = skeleton t \<Longrightarrow> homed t' ls = homed t ls"
proof -
  assume sk: "skeleton t' = skeleton t"
  have "plane_of u q \<noteq> None \<longleftrightarrow> q \<in> fst ` set (skeleton u)" for u q
    by (auto simp: plane_of_None_iff skeleton_def image_iff)
  with sk show ?thesis by (simp add: homed_def)
qed

section \<open>The preemption loop\<close>

definition victims_ok :: "lease_table \<Rightarrow> string \<Rightarrow> lease_priority \<Rightarrow> lease_id list \<Rightarrow> bool" where
  "victims_ok ls plane pr is \<longleftrightarrow> distinct is \<and> (\<forall>i \<in> set is. \<exists>l. hm_get ls i = Some l \<and> is_active l
     \<and> l_plane_id l = plane \<and> l_priority l < pr)"

lemma leases_okD: "leases_ok ls \<Longrightarrow> hm_get ls i = Some l \<Longrightarrow> l_id l = i"
  by (simp add: leases_ok_def)

lemma leases_ok_wf: "leases_ok ls \<Longrightarrow> hm_wf ls"
  by (simp add: leases_ok_def)

lemma map_id_values: "leases_ok ls \<Longrightarrow> map l_id (hm_values ls) = map fst ls"
  by (auto simp: hm_values_def leases_ok_def hm_get_Some_iff)

lemma preemptable_ok: "leases_ok ls \<Longrightarrow> victims_ok ls plane pr (preemptable ls plane pr)"
proof -
  assume ok: "leases_ok ls"
  have "distinct (map l_id (hm_values ls))" using ok by (simp add: map_id_values leases_ok_wf [unfolded hm_wf_def])
  moreover have "hm_get ls (l_id l) = Some l" if "l \<in> set (hm_values ls)" for l
    using that ok by (auto simp: hm_values_def leases_ok_def hm_get_Some_iff)
  ultimately show ?thesis by (auto simp: victims_ok_def preemptable_def distinct_map_filter)
qed

text \<open>
  Every fact about the loop that a single preemption keeps holds for its result: the
  invariant rule of the loop.
\<close>

lemma preempt_loop_rule:
  assumes "preempt_loop idx plane req is t ls fz = (t', ls', fz')"
    and "victims_ok ls plane pr is" and "P t ls fz"
    and "\<And>t ls fz i l. P t ls fz \<Longrightarrow> hm_get ls i = Some l \<Longrightarrow> is_active l \<Longrightarrow> l_plane_id l = plane
      \<Longrightarrow> l_priority l < pr \<Longrightarrow> p_available (planes t ! idx) < req
      \<Longrightarrow> P (restore_plane_memory t plane (l_allocated l)) (set_lease_state i Preempted ls)
            (fz @ [(l_client_pid l, l_client_unit l)])"
  shows "P t' ls' fz'"
  using assms(1-3)
proof (induction "is" arbitrary: t ls fz)
  case (Cons i "is")
  show ?case
  proof (cases "req \<le> p_available (planes t ! idx)")
    case True
    with Cons.prems show ?thesis by simp
  next
    case False
    from Cons.prems(2) obtain l where l: "hm_get ls i = Some l" "is_active l" "l_plane_id l = plane" "l_priority l < pr"
      by (auto simp: victims_ok_def)
    let ?ls = "set_lease_state i Preempted ls"
    have "victims_ok ?ls plane pr is"
      using Cons.prems(2) by (auto simp: victims_ok_def set_lease_state_def)
    moreover have "P (restore_plane_memory t plane (l_allocated l)) ?ls (fz @ [(l_client_pid l, l_client_unit l)])"
      using assms(4) [OF Cons.prems(3) l] False by (simp add: not_le)
    ultimately show ?thesis
      using Cons.IH Cons.prems(1) False l(1) by (simp add: set_lease_state_def)
  qed
qed simp

section \<open>Admission, case by case\<close>

lemma preempt_loop_enough: "req \<le> p_available (planes t ! idx) \<Longrightarrow> preempt_loop idx plane req is t ls fz = (t, ls, fz)"
  by (cases "is") auto

text \<open>The loop does nothing when the plane has room, so the source's guard around it can be dropped.\<close>

lemma acquire_lease_unfold:
  "acquire_lease psi i now pr req pref u pid st =
     (if level psi = Critical \<and> pr \<noteq> EmergencyTriage
      then (Err (BusSaturation (saturation_message psi)), st, [])
      else (case select_plane (planes (topology st)) pr pref of
         Err e \<Rightarrow> (Err e, st, [])
       | Ok idx \<Rightarrow>
           let plane = p_id (planes (topology st) ! idx);
               (t1, ls1, fz) = preempt_loop idx plane req (preemptable (leases st) plane pr) (topology st) (leases st) [];
               st1 = st\<lparr>topology := t1, leases := ls1\<rparr>;
               lease = new_lease i now plane req pr u pid
           in if p_available (planes t1 ! idx) < req \<and> pr \<noteq> EmergencyTriage
              then (Err (ResourceExhaustion plane req (p_available (planes t1 ! idx))), st1, [])
              else (Ok lease, st1\<lparr>topology := charge_at idx req t1, leases := hm_insert i lease (prune_leases ls1)\<rparr>,
                    freeze_effects fz)))"
  by (auto simp: acquire_lease_def Let_def preempt_loop_enough not_less split: sum.splits prod.splits)

lemma select_plane_Ok: "select_plane ps pr pref = Ok idx \<Longrightarrow> idx < length ps"
  by (auto simp: select_plane_def in_set_enumerate_eq dest!: position_SomeD max_by_key_SomeD
      split: option.splits if_splits)

text \<open>The four ways an admission can end.\<close>

lemma acquire_cases [consumes 1, case_names throttled no_plane exhausted granted]:
  assumes "acquire_lease psi i now pr req pref u pid st = (r, st', fx)"
  obtains
    "level psi = Critical" "pr \<noteq> EmergencyTriage" "r = Err (BusSaturation (saturation_message psi))" "st' = st" "fx = []"
  | e where "\<not> (level psi = Critical \<and> pr \<noteq> EmergencyTriage)"
      "select_plane (planes (topology st)) pr pref = Err e" "r = Err e" "st' = st" "fx = []"
  | idx plane t1 ls1 fz where "\<not> (level psi = Critical \<and> pr \<noteq> EmergencyTriage)"
      "select_plane (planes (topology st)) pr pref = Ok idx" "plane = p_id (planes (topology st) ! idx)"
      "preempt_loop idx plane req (preemptable (leases st) plane pr) (topology st) (leases st) [] = (t1, ls1, fz)"
      "p_available (planes t1 ! idx) < req" "pr \<noteq> EmergencyTriage"
      "r = Err (ResourceExhaustion plane req (p_available (planes t1 ! idx)))"
      "st' = st\<lparr>topology := t1, leases := ls1\<rparr>" "fx = []"
  | idx plane t1 ls1 fz lease where "\<not> (level psi = Critical \<and> pr \<noteq> EmergencyTriage)"
      "select_plane (planes (topology st)) pr pref = Ok idx" "plane = p_id (planes (topology st) ! idx)"
      "preempt_loop idx plane req (preemptable (leases st) plane pr) (topology st) (leases st) [] = (t1, ls1, fz)"
      "req \<le> p_available (planes t1 ! idx) \<or> pr = EmergencyTriage"
      "lease = new_lease i now plane req pr u pid" "r = Ok lease"
      "st' = st\<lparr>topology := charge_at idx req t1, leases := hm_insert i lease (prune_leases ls1)\<rparr>"
      "fx = freeze_effects fz"
proof -
  show thesis
  proof (cases "level psi = Critical \<and> pr \<noteq> EmergencyTriage")
    case True
    with assms show thesis by (intro that(1)) (auto simp: acquire_lease_unfold)
  next
    case ok: False
    show thesis
    proof (cases "select_plane (planes (topology st)) pr pref")
      case (Inl e)
      with assms ok show thesis by (intro that(2)) (auto simp: acquire_lease_unfold)
    next
      case (Inr idx)
      obtain t1 ls1 fz where loop: "preempt_loop idx (p_id (planes (topology st) ! idx)) req
          (preemptable (leases st) (p_id (planes (topology st) ! idx)) pr) (topology st) (leases st) [] = (t1, ls1, fz)"
        by (metis prod_cases3)
      show thesis
      proof (cases "p_available (planes t1 ! idx) < req \<and> pr \<noteq> EmergencyTriage")
        case True
        with assms ok Inr loop show thesis by (intro that(3)) (auto simp: acquire_lease_unfold Let_def)
      next
        case False
        with assms ok Inr loop show thesis
          by (intro that(4)) (auto simp: acquire_lease_unfold Let_def not_less)
      qed
    qed
  qed
qed

end
