(* ===== verification/Arbiter_Steps.thy ===== *)
theory Arbiter_Steps
  imports Arbiter_Inv
begin

text \<open>
  Every operation of the arbiter keeps the invariant and moves every lease along its life
  cycle: the elementary changes first, then the operations, then all reachable states.
\<close>

section \<open>Lease tables\<close>

definition core :: "hardware_topology \<Rightarrow> lease_table \<Rightarrow> bool" where
  "core t ls \<longleftrightarrow> leases_ok ls \<and> topo_ok t \<and> homed t ls"

definition lease_evolves :: "compute_lease \<Rightarrow> compute_lease \<Rightarrow> bool" where
  "lease_evolves l l' \<longleftrightarrow> lease_step\<^sup>*\<^sup>* (l_state l) (l_state l') \<and> l' = l\<lparr>l_state := l_state l'\<rparr>"

text \<open>
  From one table to a later one: old leases evolve, new leases start active, and only
  ended leases are dropped.
\<close>

definition table_evolves :: "lease_table \<Rightarrow> lease_table \<Rightarrow> bool" where
  "table_evolves ls ls' \<longleftrightarrow>
     (\<forall>i l'. hm_get ls' i = Some l' \<longrightarrow>
        (case hm_get ls i of Some l \<Rightarrow> lease_evolves l l' | None \<Rightarrow> l_state l' = Active))
   \<and> (\<forall>i l. hm_get ls i = Some l \<longrightarrow> hm_get ls' i = None \<longrightarrow> \<not> live_state (l_state l))"

lemma set_state_get:
  "hm_get (set_lease_state i s ls) j = (if j = i then map_option (\<lambda>l. l\<lparr>l_state := s\<rparr>) (hm_get ls i) else hm_get ls j)"
  by (simp add: set_lease_state_def)

lemma lease_evolves_refl [simp]: "lease_evolves l l"
  by (simp add: lease_evolves_def)

lemma lease_evolves_step: "lease_step (l_state l) s \<Longrightarrow> lease_evolves l (l\<lparr>l_state := s\<rparr>)"
  by (auto simp: lease_evolves_def)

lemma lease_evolves_trans: "lease_evolves a b \<Longrightarrow> lease_evolves b c \<Longrightarrow> lease_evolves a c"
  unfolding lease_evolves_def
  by (metis (no_types, lifting) compute_lease.surjective compute_lease.update_convs(7) rtranclp_trans)

lemma lease_evolves_final: "lease_evolves l l' \<Longrightarrow> \<not> live_state (l_state l) \<Longrightarrow> l' = l"
  unfolding lease_evolves_def by (metis compute_lease.surjective compute_lease.update_convs(7) final_states)

lemma table_evolves_refl [simp]: "table_evolves ls ls"
  by (auto simp: table_evolves_def split: option.splits)

lemma table_evolves_set_state:
  "hm_get ls i = Some l \<Longrightarrow> lease_step (l_state l) s \<Longrightarrow> table_evolves ls (set_lease_state i s ls)"
  by (auto simp: table_evolves_def set_state_get lease_evolves_step split: option.splits)

lemma table_evolves_insert:
  "table_evolves ls ls' \<Longrightarrow> hm_get ls i = None \<Longrightarrow> l_state l = Active \<Longrightarrow> table_evolves ls (hm_insert i l ls')"
  by (auto simp: table_evolves_def split: option.splits)

section \<open>Elementary changes keep the core invariant\<close>

lemma core_on_plane: "core t ls \<Longrightarrow> frame_change f \<Longrightarrow> keeps_bound f \<Longrightarrow> core (on_plane f r t) ls"
  using homed_skeleton [OF skeleton_on_plane, of f r t ls] by (auto simp: core_def)

lemma core_restore: "core t ls \<Longrightarrow> core (restore_plane_memory t q b) ls"
  by (simp add: restore_plane_memory_def core_on_plane)

lemma core_set_state:
  "core t ls \<Longrightarrow> hm_get ls i = Some l \<Longrightarrow> live_state s \<Longrightarrow> live_state (l_state l) \<Longrightarrow> core t (set_lease_state i s ls)"
  by (auto simp: core_def leases_ok_def homed_def set_lease_state_def split: if_splits)

lemma core_set_final:
  "core t ls \<Longrightarrow> \<not> live_state s \<Longrightarrow> core t (set_lease_state i s ls)"
  by (auto simp: core_def leases_ok_def homed_def set_lease_state_def split: if_splits)

lemma core_insert:
  "core t ls \<Longrightarrow> l_id l = i \<Longrightarrow> plane_of t (l_plane_id l) \<noteq> None \<Longrightarrow> core t (hm_insert i l ls)"
  by (auto simp: core_def leases_ok_def homed_def split: if_splits)

lemma prune_get:
  "hm_wf ls \<Longrightarrow> hm_get (prune_leases ls) i =
     (case hm_get ls i of Some l \<Rightarrow> if live_state (l_state l) \<or> hm_len ls \<le> 128 then Some l else None | None \<Rightarrow> None)"
  by (auto simp: prune_leases_def hm_get_retain live_state_def is_active_def split: option.splits)

lemma table_evolves_prune:
  assumes ev: "table_evolves ls ls'" and wf: "hm_wf ls'"
    and dead: "\<And>i l. hm_get ls' i = Some l \<Longrightarrow> \<not> live_state (l_state l) \<Longrightarrow> hm_get ls i = Some l"
  shows "table_evolves ls (prune_leases ls')"
  unfolding table_evolves_def
proof (intro conjI allI impI)
  fix i l'
  assume "hm_get (prune_leases ls') i = Some l'"
  then have "hm_get ls' i = Some l'" by (simp add: prune_get [OF wf] split: option.splits if_splits)
  with ev show "case hm_get ls i of Some l \<Rightarrow> lease_evolves l l' | None \<Rightarrow> l_state l' = Active"
    by (simp add: table_evolves_def)
next
  fix i l
  assume l: "hm_get ls i = Some l" and "hm_get (prune_leases ls') i = None"
  then consider "hm_get ls' i = None" | k where "hm_get ls' i = Some k" "\<not> live_state (l_state k)"
    by (auto simp: prune_get [OF wf] split: option.splits if_splits)
  then show "\<not> live_state (l_state l)"
  proof cases
    case 1
    with ev l show ?thesis by (simp add: table_evolves_def)
  next
    case (2 k)
    with dead [OF 2] l show ?thesis by simp
  qed
qed

lemma table_evolves_preempt:
  assumes ev: "table_evolves ls ms" and l: "hm_get ms i = Some l" "is_active l" and old: "hm_get ls i \<noteq> None"
  shows "table_evolves ls (set_lease_state i Preempted ms)"
proof -
  obtain l0 where l0: "hm_get ls i = Some l0" using old by auto
  with ev l(1) have "lease_evolves l0 l" by (auto simp: table_evolves_def dest!: spec [of _ i])
  moreover have "lease_evolves l (l\<lparr>l_state := Preempted\<rparr>)"
    using l(2) by (intro lease_evolves_step lease_step.preempt) (simp add: is_active_def)
  ultimately have "lease_evolves l0 (l\<lparr>l_state := Preempted\<rparr>)" by (rule lease_evolves_trans)
  with ev l(1) l0 show ?thesis by (simp add: table_evolves_def set_state_get)
qed

lemma core_prune: "core t ls \<Longrightarrow> core t (prune_leases ls)"
proof -
  assume c: "core t ls"
  then have wf: "hm_wf ls" by (simp add: core_def leases_ok_def)
  then have "hm_wf (prune_leases ls)" by (simp add: prune_leases_def)
  with c wf show ?thesis
    by (auto simp: core_def leases_ok_def homed_def prune_get split: option.splits if_splits)
qed

lemma core_reorder: "core t ls \<Longrightarrow> hm_reorder ls ls' \<Longrightarrow> core t ls'"
  by (auto simp: core_def leases_ok_def homed_def hm_wf_reorder hm_get_reorder)

section \<open>Admission\<close>

definition loop_inv :: "hardware_topology \<Rightarrow> lease_table \<Rightarrow> hardware_topology \<Rightarrow> lease_table \<Rightarrow> bool" where
  "loop_inv t ls u ms \<longleftrightarrow> core u ms \<and> skeleton u = skeleton t \<and> table_evolves ls ms
     \<and> (\<forall>i. hm_get ms i = None \<longleftrightarrow> hm_get ls i = None)
     \<and> (\<forall>i l. hm_get ms i = Some l \<longrightarrow> \<not> live_state (l_state l) \<longrightarrow> hm_get ls i = Some l)"

lemma loop_inv_preempt:
  assumes inv: "loop_inv t ls u ms" and l: "hm_get ms i = Some l" "is_active l"
  shows "loop_inv t ls (restore_plane_memory u plane b) (set_lease_state i Preempted ms)"
proof -
  have "core u ms" using inv by (simp add: loop_inv_def)
  then have "core (restore_plane_memory u plane b) (set_lease_state i Preempted ms)"
    using l by (intro core_restore core_set_state [OF _ l(1)]) (simp_all add: is_active_def)
  moreover have old: "hm_get ls i \<noteq> None"
    using inv l(1) unfolding loop_inv_def by (metis option.distinct(1))
  moreover have "table_evolves ls (set_lease_state i Preempted ms)"
    using inv by (intro table_evolves_preempt [OF _ l old]) (simp add: loop_inv_def)
  moreover have "skeleton (restore_plane_memory u plane b) = skeleton t"
    using inv by (simp add: restore_plane_memory_def loop_inv_def)
  ultimately show ?thesis using inv l(1) by (simp add: loop_inv_def set_state_get)
qed

lemma preempt_loop_core:
  assumes "preempt_loop idx plane req (preemptable ls plane pr) t ls [] = (t', ls', fz')" and c: "core t ls"
  shows "loop_inv t ls t' ls'"
proof (rule preempt_loop_rule [OF assms(1) preemptable_ok, where P = "\<lambda>u ms fz. loop_inv t ls u ms"])
  show "leases_ok ls" using c by (simp add: core_def)
  show "loop_inv t ls t ls" using c by (simp add: loop_inv_def)
qed (rule loop_inv_preempt)

lemma core_ids: "core t ls \<Longrightarrow> ids_distinct t"
  by (simp add: core_def topo_ok_def)

lemma core_charge:
  assumes "core t ls" and "idx < length (planes t)"
  shows "core (charge_at idx b t) ls" and "skeleton (charge_at idx b t) = skeleton t"
  using assms by (simp_all add: charge_at_on_plane core_ids core_on_plane)

lemma length_skeleton: "skeleton t' = skeleton t \<Longrightarrow> length (planes t') = length (planes t)"
  unfolding skeleton_def by (metis length_map)

lemma skeleton_nth_id:
  "skeleton t' = skeleton t \<Longrightarrow> idx < length (planes t) \<Longrightarrow> p_id (planes t' ! idx) = p_id (planes t ! idx)"
  by (metis ids_skeleton length_skeleton nth_map)

lemma acquire_core:
  assumes "acquire_lease psi i now pr req pref u pid st = (r, st', fx)"
    and c: "core (topology st) (leases st)" and fresh: "hm_get (leases st) i = None"
  shows "core (topology st') (leases st') \<and> table_evolves (leases st) (leases st')"
  using assms(1)
proof (cases rule: acquire_cases)
  case (exhausted idx plane t1 ls1 fz)
  then show ?thesis using preempt_loop_core [OF exhausted(4) c] by (simp add: loop_inv_def)
next
  case (granted idx plane t1 ls1 fz lease)
  have loop: "core t1 ls1" "skeleton t1 = skeleton (topology st)" "table_evolves (leases st) ls1"
    "\<And>i l. hm_get ls1 i = Some l \<Longrightarrow> \<not> live_state (l_state l) \<Longrightarrow> hm_get (leases st) i = Some l"
    using preempt_loop_core [OF granted(4) c] by (simp_all add: loop_inv_def)
  have idx: "idx < length (planes t1)" "p_id (planes t1 ! idx) = plane"
    using select_plane_Ok [OF granted(2)] length_skeleton [OF loop(2)] skeleton_nth_id [OF loop(2)] granted(3) by simp_all
  let ?t = "charge_at idx req t1"
  have "core ?t (prune_leases ls1)" by (rule core_prune) (rule core_charge(1) [OF loop(1) idx(1)])
  moreover have "plane_of ?t plane \<noteq> None"
  proof -
    have "plane_of t1 plane \<noteq> None" using plane_of_nth [OF core_ids [OF loop(1)] idx(1)] idx(2) by simp
    then show ?thesis
      using idx by (simp add: charge_at_on_plane [OF core_ids [OF loop(1)] idx(1)] plane_of_on_plane core_ids [OF loop(1)])
  qed
  ultimately have "core ?t (hm_insert i lease (prune_leases ls1))"
    by (simp add: core_insert granted(6) new_lease_def)
  moreover have "table_evolves (leases st) (hm_insert i lease (prune_leases ls1))"
    using loop(1) fresh
    by (intro table_evolves_insert table_evolves_prune [OF loop(3) _ loop(4)])
      (auto simp: core_def leases_ok_def granted(6) new_lease_def)
  ultimately show ?thesis using granted by simp
qed (use c in simp_all)

section \<open>Life-cycle operations\<close>

lemma end_lease_core:
  assumes "end_lease s L i st = (r, st')" and c: "core (topology st) (leases st)" and s: "s = Expired \<or> s = Revoked"
  shows "core (topology st') (leases st') \<and> table_evolves (leases st) (leases st')"
proof -
  have "core (topology st) (set_lease_state i s (leases st))" using c s by (auto intro: core_set_final)
  moreover have "core (restore_plane_memory (topology st) q b) (set_lease_state i s (leases st))" for q b
    using calculation by (rule core_restore)
  moreover have "table_evolves (leases st) (set_lease_state i s (leases st))"
    if "hm_get (leases st) i = Some l" "is_active l \<or> l_state l = Preempted" for l
    using that s by (intro table_evolves_set_state) (auto simp: is_active_def intro: lease_step.intros)
  ultimately show ?thesis using assms(1) c by (auto simp: end_lease_def split: option.splits if_splits)
qed

lemma mark_active_core:
  assumes "mark_active_lease s L i st = (r, st')" and c: "core (topology st) (leases st)" and s: "s = Preempting \<or> s = Frozen"
  shows "core (topology st') (leases st') \<and> table_evolves (leases st) (leases st') \<and> topology st' = topology st"
proof -
  have "core (topology st) (set_lease_state i s (leases st)) \<and> table_evolves (leases st) (set_lease_state i s (leases st))"
    if "hm_get (leases st) i = Some l" "is_active l" for l
    using that c s
    by (auto simp: is_active_def intro: core_set_state [OF c that(1)] table_evolves_set_state [OF that(1)] lease_step.intros)
  with assms(1) c show ?thesis by (auto simp: mark_active_lease_def split: option.splits if_splits)
qed

lemma thaw_core:
  assumes "thaw_lease L i st = (r, st')" and c: "core (topology st) (leases st)"
  shows "core (topology st') (leases st') \<and> table_evolves (leases st) (leases st')"
proof -
  have "core (topology st) (set_lease_state i Active (leases st)) \<and> table_evolves (leases st) (set_lease_state i Active (leases st))"
    if l: "hm_get (leases st) i = Some l" and "l_state l = Preempted \<or> l_state l = Frozen \<or> l_state l = Preempting" for l
  proof
    have "live_state (l_state l)" and "lease_step (l_state l) Active"
      using that(2) lease_step.resume by (auto intro: lease_step.wake)
    then show "core (topology st) (set_lease_state i Active (leases st))"
      and "table_evolves (leases st) (set_lease_state i Active (leases st))"
      by (simp_all add: core_set_state [OF c l] table_evolves_set_state [OF l])
  qed
  with c assms(1) show ?thesis
    by (auto simp: thaw_lease_def Let_def intro!: core_on_plane split: option.splits if_splits)
qed

section \<open>Topology changes\<close>

text \<open>What a new topology does to one lease, and what a set of leases does to one plane.\<close>

definition rebound :: "hardware_topology \<Rightarrow> compute_lease \<Rightarrow> compute_lease" where
  "rebound t l = (if live_state (l_state l) \<and> plane_of t (l_plane_id l) = None then l\<lparr>l_state := Revoked\<rparr> else l)"

definition drain :: "nat \<Rightarrow> compute_plane \<Rightarrow> compute_plane" where
  "drain n p = p\<lparr>p_available := word_of_nat (unat (p_available p) - n)\<rparr>"

lemma rebound_live: "live_state (l_state (rebound t l)) \<Longrightarrow> plane_of t (l_plane_id (rebound t l)) \<noteq> None"
  by (simp add: rebound_def split: if_splits)

lemma rebound_evolves: "lease_evolves l (rebound t l)"
  using lease_evolves_step [of l Revoked] lease_step.revoke [of "l_state l"]
  by (simp add: rebound_def live_state_def)

lemma unat_drain [simp]: "unat (p_available (drain n p)) = unat (p_available p) - n"
proof -
  have "unat (p_available p) - n < 2 ^ LENGTH(64)"
    using unsigned_less [of "p_available p", where ?'a = nat] by (rule le_less_trans [rotated]) simp
  then show ?thesis by (simp add: drain_def unat_of_nat)
qed

lemma drain_0 [simp]: "drain 0 = (\<lambda>p. p)"
  by (simp add: drain_def fun_eq_iff)

lemma drain_drain [simp]: "drain m (drain n p) = drain (n + m) p"
  using unat_drain [of n p] by (simp add: drain_def)

lemma take_bytes_drain: "take_bytes b = drain (unat b)"
proof
  fix p :: compute_plane
  have "saturating_sub (p_available p) b = word_of_nat (unat (p_available p) - unat b)"
    by (simp flip: unat_saturating_sub)
  then show "take_bytes b p = drain (unat b) p" by (simp add: take_bytes_def drain_def)
qed

lemma rebind_lease_spec:
  assumes "ids_distinct t" and "rebind_lease l t = (l', t')"
  shows "l' = rebound t l" and "skeleton t' = skeleton t"
    and "plane_of t' q = map_option (drain (contrib t q l')) (plane_of t q)"
proof -
  have ex: "list_ex (\<lambda>p. p_id p = l_plane_id l) (planes t) \<longleftrightarrow> plane_of t (l_plane_id l) \<noteq> None"
    by (auto simp: plane_of_None_iff list_ex_iff)
  show "l' = rebound t l" and "skeleton t' = skeleton t"
    using assms(2) unfolding rebind_lease_def rebound_def ex
    by (auto simp: is_active_def live_state_def split: option.splits if_splits)
  show "plane_of t' q = map_option (drain (contrib t q l')) (plane_of t q)"
    using assms unfolding rebind_lease_def ex
    by (auto simp: contrib_def plane_of_on_plane take_bytes_drain [symmetric] is_active_def option.map_ident
        split: option.splits if_splits)
qed

lemma rebind_leases_spec:
  assumes "ids_distinct t" and "rebind_leases ls t = (ls', t')"
  shows "ls' = map (\<lambda>(i, l). (i, rebound t l)) ls \<and> skeleton t' = skeleton t
    \<and> (\<forall>q. plane_of t' q = map_option (drain (demand t ls' q)) (plane_of t q))"
  using assms
proof (induction ls arbitrary: t ls')
  case (Cons e ls)
  obtain i l where e: "e = (i, l)" by (cases e)
  obtain l' t1 where one: "rebind_lease l t = (l', t1)" by (cases "rebind_lease l t")
  obtain ls2 where rest: "rebind_leases ls t1 = (ls2, t')" and ls': "ls' = (i, l') # ls2"
    using Cons.prems(2) by (auto simp: e one split: prod.splits)
  note spec1 = rebind_lease_spec [OF Cons.prems(1) one]
  have d1: "ids_distinct t1" using Cons.prems(1) ids_distinct_skeleton [OF spec1(2)] by simp
  note IH = Cons.IH [OF d1 rest]
  have "plane_of t1 q = None \<longleftrightarrow> plane_of t q = None" for q
    using spec1(3) [of q] by simp
  then have "rebound t1 = rebound t" by (simp add: rebound_def fun_eq_iff)
  moreover have "plane_of t' q = map_option (drain (demand t ls' q)) (plane_of t q)" for q
    using IH spec1(3) [of q] demand_skeleton [OF spec1(2)] ls'
    by (simp add: option.map_comp comp_def demand_def add.commute)
  ultimately show ?case using IH spec1(1,2) ls' by (simp add: e)
qed (simp add: demand_def option.map_ident)

lemma update_topology_core:
  assumes "leases_ok (leases st)" and "topo_ok t"
  shows "core (topology (update_topology t st)) (leases (update_topology t st))
    \<and> table_evolves (leases st) (leases (update_topology t st))"
proof -
  obtain ls' t' where r: "rebind_leases (leases st) t = (ls', t')" by (cases "rebind_leases (leases st) t")
  have d: "ids_distinct t" using assms(2) by (simp add: topo_ok_def)
  note spec = rebind_leases_spec [OF d r]
  have get: "hm_get ls' i = map_option (rebound t) (hm_get (leases st) i)" for i
    using spec by (simp add: hm_get_def map_of_map)
  have "leases_ok ls'"
    using assms(1) spec get
    by (auto simp: leases_ok_def hm_wf_def comp_def case_prod_beta rebound_def)
  moreover have "ids_distinct t'" using d spec ids_distinct_skeleton by blast
  moreover have "bounded_planes (planes t')"
    unfolding bounded_planes_def
  proof
    fix p' assume "p' \<in> set (planes t')"
    then have "plane_of t' (p_id p') = Some p'" using \<open>ids_distinct t'\<close> by (simp add: plane_of_Some_iff)
    then obtain p where p: "plane_of t (p_id p') = Some p" and p': "p' = drain (demand t ls' (p_id p')) p"
      using spec by (metis (no_types, lifting) map_option_eq_Some)
    then have "p_available p \<le> p_total p" using assms(2) d by (auto simp: topo_ok_def bounded_planes_def plane_of_Some_iff)
    moreover have "p_available (drain n p) \<le> p_available p" "p_total (drain n p) = p_total p" for n
      by (simp add: word_le_nat_alt) (simp add: drain_def)
    ultimately show "p_available p' \<le> p_total p'" using p' by (metis order_trans)
  qed
  moreover have "homed t' ls'"
  proof -
    have "homed t ls'"
      unfolding homed_def
    proof (intro allI impI)
      fix i l
      assume "hm_get ls' i = Some l" and "live_state (l_state l)"
      then show "plane_of t (l_plane_id l) \<noteq> None" using get [of i] rebound_live by fastforce
    qed
    then show ?thesis using homed_skeleton [of t' t ls'] spec by blast
  qed
  moreover have "table_evolves (leases st) ls'"
    using get by (auto simp: table_evolves_def rebound_evolves)
  ultimately show ?thesis using r by (simp add: update_topology_def core_def topo_ok_def)
qed

section \<open>Reachable states\<close>

lemma arbiter_inv_core: "arbiter_inv st \<longleftrightarrow> core (topology st) (leases st) \<and> registry_ok (registry st)"
  by (auto simp: arbiter_inv_def core_def)

lemma exec_op_core:
  assumes "core (topology st) (leases st)" and "op_ok opn st"
  shows "core (topology (exec_op L opn st)) (leases (exec_op L opn st))
    \<and> table_evolves (leases st) (leases (exec_op L opn st))"
proof (cases opn)
  case (OpAcquire psi i now pr b pref u pid)
  obtain r st' fx where "acquire_lease psi i now pr b pref u pid st = (r, st', fx)" by (metis prod_cases3)
  with OpAcquire assms show ?thesis by (simp add: acquire_core)
next
  case (OpRelease i)
  then show ?thesis using end_lease_core [OF _ assms(1)] by (cases "end_lease Expired L i st") (simp add: release_lease_def)
next
  case (OpRevoke i)
  then show ?thesis using end_lease_core [OF _ assms(1)] by (cases "end_lease Revoked L i st") (simp add: revoke_lease_def)
next
  case (OpYield i)
  then show ?thesis using mark_active_core [OF prod.collapse [symmetric] assms(1), of Preempting L i]
    by (auto simp: yield_lease_def)
next
  case (OpFreeze i)
  then show ?thesis using mark_active_core [OF prod.collapse [symmetric] assms(1), of Frozen L i]
    by (auto simp: freeze_lease_def)
next
  case (OpThaw i)
  then show ?thesis using thaw_core [OF _ assms(1)] by (cases "thaw_lease L i st") simp
next
  case (OpUpdateTopology t)
  then show ?thesis using assms update_topology_core by (simp add: core_def)
qed (use assms in \<open>simp_all add: register_model_def remove_model_def pin_model_for_triage_def case_prod_beta\<close>)

lemma exec_op_registry: "registry_ok (registry st) \<Longrightarrow> registry_ok (registry (exec_op L opn st))"
proof -
  assume ok: "registry_ok (registry st)"
  have acq: "registry (fst (snd (acquire_lease psi i now pr b pref u pid st))) = registry st" for psi i now pr b pref u pid
    by (auto simp: acquire_lease_def Let_def split: sum.splits prod.splits)
  show ?thesis
    by (cases opn) (use ok in \<open>auto simp: acq release_lease_def revoke_lease_def end_lease_def yield_lease_def freeze_lease_def
        mark_active_lease_def thaw_lease_def update_topology_def register_model_def remove_model_def
        pin_model_for_triage_def registry_ok_register registry_ok_remove registry_ok_pin
        Let_def case_prod_beta split: option.splits\<close>)
qed

lemma guarded_step_inv: "arbiter_inv st \<Longrightarrow> guarded_step G L st st' \<Longrightarrow> arbiter_inv st'"
proof (elim guarded_stepE)
  fix opn assume "arbiter_inv st" "op_ok opn st" "st' = exec_op L opn st"
  then show ?thesis using exec_op_core exec_op_registry by (simp add: arbiter_inv_core)
next
  fix ls assume "arbiter_inv st" "hm_reorder (leases st) ls" "st' = st\<lparr>leases := ls\<rparr>"
  then show ?thesis by (auto simp: arbiter_inv_core intro: core_reorder)
qed

interpretation arb: transition_invariant "guarded_step G L" arbiter_inv for G L
  by unfold_locales (rule guarded_step_inv)

lemma new_arbiter_inv: "topo_ok t \<Longrightarrow> arbiter_inv (new_arbiter t)"
  by (simp add: arbiter_inv_def new_arbiter_def leases_ok_def homed_def registry_ok_def new_registry_def)

lemma reachable_inv: "(guarded_step G L)\<^sup>*\<^sup>* (new_arbiter t) st \<Longrightarrow> topo_ok t \<Longrightarrow> arbiter_inv st"
  by (erule arb.steps_inv) (rule new_arbiter_inv)

end
