(* ===== verification/Arbiter_Accounting.thy ===== *)
theory Arbiter_Accounting
  imports Arbiter_Steps
begin

text \<open>
  Conservation of memory. \<open>base q\<close> is what plane \<open>q\<close> had available at the start.
  \<open>balanced\<close>: what is available and what active leases hold add up to the base exactly.
  \<open>covered\<close>: they add up to at least the base, so nothing is lost. Admissions that fit keep
  the first, and every operation keeps the second as long as no addition overflows.
\<close>

section \<open>Definitions\<close>

definition balanced :: "(string \<Rightarrow> nat) \<Rightarrow> hardware_topology \<Rightarrow> lease_table \<Rightarrow> bool" where
  "balanced base t ls \<longleftrightarrow> (\<forall>q p. plane_of t q = Some p \<longrightarrow>
     unat (p_available p) + demand t ls q = base q \<and> base q \<le> unat (p_total p))"

definition covered :: "(string \<Rightarrow> nat) \<Rightarrow> hardware_topology \<Rightarrow> lease_table \<Rightarrow> bool" where
  "covered base t ls \<longleftrightarrow> (\<forall>q p. plane_of t q = Some p \<longrightarrow>
     base q \<le> unat (p_available p) + demand t ls q \<and> base q \<le> unat (p_total p))"

text \<open>Sizes far from the top of the machine range, so that no refund can overflow.\<close>

definition modest :: "hardware_topology \<Rightarrow> lease_table \<Rightarrow> bool" where
  "modest t ls \<longleftrightarrow> (\<forall>p \<in> set (planes t). unat (p_total p) < 2 ^ 63)
     \<and> (\<forall>i l. hm_get ls i = Some l \<longrightarrow> unat (l_allocated l) < 2 ^ 63)"

fun keeps_topology :: "arbiter_op \<Rightarrow> bool" where
  "keeps_topology (OpUpdateTopology t) = False"
| "keeps_topology _ = True"

fun modest_op :: "arbiter_op \<Rightarrow> arbiter_state \<Rightarrow> bool" where
  "modest_op (OpAcquire psi i now pr b pref u pid) st \<longleftrightarrow> unat b < 2 ^ 63"
| "modest_op opn st \<longleftrightarrow> keeps_topology opn"

text \<open>An admission that the arbiter does not force: ordinary, or an emergency that fits.\<close>

fun unforced_op :: "arbiter_op \<Rightarrow> arbiter_state \<Rightarrow> bool" where
  "unforced_op (OpAcquire psi i now pr b pref u pid) st \<longleftrightarrow>
     pr \<noteq> EmergencyTriage \<or>
     (\<exists>idx. select_plane (planes (topology st)) pr pref = Ok idx \<and> b \<le> p_available (planes (topology st) ! idx))"
| "unforced_op opn st \<longleftrightarrow> keeps_topology opn"

definition no_uma :: "hardware_topology \<Rightarrow> bool" where
  "no_uma t \<longleftrightarrow> (\<forall>p \<in> set (planes t). p_kind p \<noteq> IntegratedUma)"

section \<open>Refunds\<close>

lemma demand_set_state:
  assumes "hm_wf ls" and "hm_get ls i = Some l"
  shows "demand t (set_lease_state i s ls) q + contrib t q l = demand t ls q + contrib t q (l\<lparr>l_state := s\<rparr>)"
  unfolding set_lease_state_def by (rule demand_modify [OF assms])

lemma demand_end:
  assumes "hm_wf ls" and "hm_get ls i = Some l" and "is_active l" and "\<not> active_state s"
  shows "demand t ls q = demand t (set_lease_state i s ls) q + (if touched t (l_plane_id l) q then unat (l_allocated l) else 0)"
  using demand_set_state [OF assms(1,2), of t s q] assms(3,4) by (simp add: contrib_def is_active_def)

lemma demand_same:
  assumes "hm_wf ls" and "hm_get ls i = Some l" and "is_active l = active_state s"
  shows "demand t (set_lease_state i s ls) q = demand t ls q"
  using demand_set_state [OF assms(1,2), of t s q] assms(3) by (simp add: contrib_def is_active_def split: if_splits)

lemma restore_spec:
  assumes "ids_distinct t"
  shows "plane_of (restore_plane_memory t r b) q =
      (if touched t r q then map_option (give_bytes b) (plane_of t q) else plane_of t q)"
    and "demand (restore_plane_memory t r b) = demand t"
    and "touched (restore_plane_memory t r b) = touched t"
  using assms demand_skeleton [of "restore_plane_memory t r b" t] touched_skeleton [of "restore_plane_memory t r b" t]
  by (simp_all add: restore_plane_memory_def plane_of_on_plane)

lemma balanced_refund:
  assumes d: "ids_distinct t" and wf: "hm_wf ls" and l: "hm_get ls i = Some l" "is_active l" "\<not> active_state s"
    and b: "balanced base t ls"
  shows "balanced base (restore_plane_memory t (l_plane_id l) (l_allocated l)) (set_lease_state i s ls)"
  unfolding balanced_def
proof (intro allI impI)
  fix q p'
  assume "plane_of (restore_plane_memory t (l_plane_id l) (l_allocated l)) q = Some p'"
  then obtain p where p: "plane_of t q = Some p"
    and p': "p' = (if touched t (l_plane_id l) q then give_bytes (l_allocated l) p else p)"
    by (auto simp: restore_spec [OF d] split: if_splits)
  have eq: "unat (p_available p) + demand t ls q = base q" "base q \<le> unat (p_total p)"
    using b p by (auto simp: balanced_def)
  note dem = demand_end [OF wf l, of t q]
  have "unat (p_total p) < 2 ^ LENGTH(64)" by (rule unsigned_less)
  then have "touched t (l_plane_id l) q \<Longrightarrow> \<not> add_overflows (p_available p) (l_allocated l)"
    using eq dem by (simp add: add_overflows_def)
  then show "unat (p_available p') + demand (restore_plane_memory t (l_plane_id l) (l_allocated l)) (set_lease_state i s ls) q = base q
      \<and> base q \<le> unat (p_total p')"
    using eq dem p' by (auto simp: restore_spec [OF d] give_bytes_def bytes_simps)
qed

lemma covered_refund:
  assumes d: "ids_distinct t" and wf: "hm_wf ls" and l: "hm_get ls i = Some l" "is_active l" "\<not> active_state s"
    and b: "covered base t ls"
    and no: "\<And>q p. plane_of t q = Some p \<Longrightarrow> \<not> add_overflows (p_available p) (l_allocated l)"
  shows "covered base (restore_plane_memory t (l_plane_id l) (l_allocated l)) (set_lease_state i s ls)"
  unfolding covered_def
proof (intro allI impI)
  fix q p'
  assume "plane_of (restore_plane_memory t (l_plane_id l) (l_allocated l)) q = Some p'"
  then obtain p where p: "plane_of t q = Some p"
    and p': "p' = (if touched t (l_plane_id l) q then give_bytes (l_allocated l) p else p)"
    by (auto simp: restore_spec [OF d] split: if_splits)
  have eq: "base q \<le> unat (p_available p) + demand t ls q" "base q \<le> unat (p_total p)"
    using b p by (auto simp: covered_def)
  show "base q \<le> unat (p_available p') + demand (restore_plane_memory t (l_plane_id l) (l_allocated l)) (set_lease_state i s ls) q
      \<and> base q \<le> unat (p_total p')"
    using eq demand_end [OF wf l, of t q] p' no [OF p] by (auto simp: restore_spec [OF d] give_bytes_def bytes_simps)
qed

section \<open>Charges\<close>

text \<open>\<open>ls'\<close> is the table with one more active lease of \<open>b\<close> bytes on plane \<open>r\<close>.\<close>

lemma charge_spec:
  assumes "ids_distinct t" and "frame_change (take_bytes b)"
  shows "plane_of (on_plane (take_bytes b) r t) q =
      (if touched t r q then map_option (take_bytes b) (plane_of t q) else plane_of t q)"
    and "demand (on_plane (take_bytes b) r t) = demand t"
  using assms demand_skeleton [of "on_plane (take_bytes b) r t" t] by (simp_all add: plane_of_on_plane)

lemma balanced_charge:
  assumes d: "ids_distinct t" and b: "balanced base t ls"
    and fits: "\<And>q p. touched t r q \<Longrightarrow> plane_of t q = Some p \<Longrightarrow> b \<le> p_available p"
    and ls': "\<And>q. demand t ls' q = demand t ls q + (if touched t r q then unat b else 0)"
  shows "balanced base (on_plane (take_bytes b) r t) ls'"
  unfolding balanced_def
proof (intro allI impI)
  fix q p'
  assume "plane_of (on_plane (take_bytes b) r t) q = Some p'"
  then obtain p where p: "plane_of t q = Some p" and p': "p' = (if touched t r q then take_bytes b p else p)"
    by (auto simp: charge_spec [OF d] split: if_splits)
  have "touched t r q \<Longrightarrow> unat b \<le> unat (p_available p)" using fits p by (auto simp: word_le_nat_alt)
  with b p p' ls' show "unat (p_available p') + demand (on_plane (take_bytes b) r t) ls' q = base q \<and> base q \<le> unat (p_total p')"
    by (auto simp: balanced_def charge_spec [OF d] take_bytes_def bytes_simps)
qed

lemma covered_charge:
  assumes d: "ids_distinct t" and b: "covered base t ls"
    and ls': "\<And>q. demand t ls' q = demand t ls q + (if touched t r q then unat b else 0)"
  shows "covered base (on_plane (take_bytes b) r t) ls'"
  unfolding covered_def
proof (intro allI impI)
  fix q p'
  assume "plane_of (on_plane (take_bytes b) r t) q = Some p'"
  then obtain p where p: "plane_of t q = Some p" and p': "p' = (if touched t r q then take_bytes b p else p)"
    by (auto simp: charge_spec [OF d] split: if_splits)
  with b ls' show "base q \<le> unat (p_available p') + demand (on_plane (take_bytes b) r t) ls' q \<and> base q \<le> unat (p_total p')"
    by (fastforce simp: covered_def charge_spec [OF d] take_bytes_def bytes_simps)
qed

section \<open>Operations\<close>

lemma totals_on_plane [simp]: "frame_change f \<Longrightarrow> map p_total (planes (on_plane f r t)) = map p_total (planes t)"
  by (simp add: on_plane_def Let_def frameD)

lemma modest_on_plane: "frame_change f \<Longrightarrow> modest (on_plane f r t) ls = modest t ls"
proof -
  assume "frame_change f"
  then have "set (map p_total (planes (on_plane f r t))) = set (map p_total (planes t))" by simp
  then have "p_total ` set (planes (on_plane f r t)) = p_total ` set (planes t)" by simp
  then have "(\<forall>p \<in> set (planes (on_plane f r t)). Q (p_total p)) = (\<forall>p \<in> set (planes t). Q (p_total p))" for Q
    by (metis (no_types, lifting) image_iff)
  from this [of "\<lambda>b. unat b < 2 ^ 63"] show ?thesis by (simp add: modest_def)
qed

lemma modest_set_state: "modest t ls \<Longrightarrow> modest t (set_lease_state i s ls)"
  by (auto simp: modest_def set_state_get split: if_splits)

lemma modest_no_overflow:
  assumes "core t ls" and "modest t ls" and "hm_get ls i = Some l" and "plane_of t q = Some p"
  shows "\<not> add_overflows (p_available p) (l_allocated l)"
proof -
  have "p \<in> set (planes t)" using assms(4) by (auto simp: plane_of_def dest: find_SomeD)
  then have "unat (p_available p) \<le> unat (p_total p)" "unat (p_total p) < 2 ^ 63"
    using assms(1,2) by (auto simp: core_def topo_ok_def bounded_planes_def modest_def word_le_nat_alt)
  moreover have "unat (l_allocated l) < 2 ^ 63" using assms(2,3) by (auto simp: modest_def)
  ultimately show ?thesis by (simp add: add_overflows_def)
qed

lemma core_wf: "core t ls \<Longrightarrow> hm_wf ls"
  by (simp add: core_def leases_ok_def)

lemma loop_inv_core: "loop_inv t ls u ms \<Longrightarrow> core u ms"
  by (simp add: loop_inv_def)

lemma preempt_loop_balanced:
  assumes "preempt_loop idx plane req (preemptable ls plane pr) t ls [] = (t', ls', fz')" and c: "core t ls"
    and "balanced base t ls"
  shows "balanced base t' ls'"
proof -
  have "loop_inv t ls t' ls' \<and> balanced base t' ls'"
  proof (rule preempt_loop_rule [OF assms(1) preemptable_ok, where P = "\<lambda>u ms fz. loop_inv t ls u ms \<and> balanced base u ms"])
    fix u ms fz i l
    assume inv: "loop_inv t ls u ms \<and> balanced base u ms" and l: "hm_get ms i = Some l" "is_active l" "l_plane_id l = plane"
    then have "core u ms" by (auto dest: loop_inv_core)
    with inv l show "loop_inv t ls (restore_plane_memory u plane (l_allocated l)) (set_lease_state i Preempted ms)
        \<and> balanced base (restore_plane_memory u plane (l_allocated l)) (set_lease_state i Preempted ms)"
      using loop_inv_preempt [of t ls u ms i l] balanced_refund [of u ms i l Preempted base]
      by (auto simp: core_ids core_wf)
  qed (use c assms(3) in \<open>simp_all add: core_def loop_inv_def\<close>)
  then show ?thesis ..
qed

lemma preempt_loop_covered:
  assumes "preempt_loop idx plane req (preemptable ls plane pr) t ls [] = (t', ls', fz')" and c: "core t ls"
    and "covered base t ls" and "modest t ls"
  shows "covered base t' ls' \<and> modest t' ls'"
proof -
  have "loop_inv t ls t' ls' \<and> covered base t' ls' \<and> modest t' ls'"
  proof (rule preempt_loop_rule [OF assms(1) preemptable_ok,
        where P = "\<lambda>u ms fz. loop_inv t ls u ms \<and> covered base u ms \<and> modest u ms"])
    fix u ms fz i l
    assume inv: "loop_inv t ls u ms \<and> covered base u ms \<and> modest u ms"
      and l: "hm_get ms i = Some l" "is_active l" "l_plane_id l = plane"
    then have "core u ms" by (auto dest: loop_inv_core)
    with inv l show "loop_inv t ls (restore_plane_memory u plane (l_allocated l)) (set_lease_state i Preempted ms)
        \<and> covered base (restore_plane_memory u plane (l_allocated l)) (set_lease_state i Preempted ms)
        \<and> modest (restore_plane_memory u plane (l_allocated l)) (set_lease_state i Preempted ms)"
      using loop_inv_preempt [of t ls u ms i l] covered_refund [of u ms i l Preempted base] modest_no_overflow [of u ms i l]
      by (auto simp: core_ids core_wf modest_on_plane restore_plane_memory_def modest_set_state)
  qed (use c assms(3,4) in \<open>simp_all add: core_def loop_inv_def\<close>)
  then show ?thesis by simp
qed

text \<open>What an admission that is granted does after the preemptions, in one place.\<close>

lemma granted_charge:
  assumes c: "core (topology st) (leases st)" and fresh: "hm_get (leases st) i = None"
    and sel: "select_plane (planes (topology st)) pr pref = Ok idx" and plane: "plane = p_id (planes (topology st) ! idx)"
    and loop: "preempt_loop idx plane req (preemptable (leases st) plane pr) (topology st) (leases st) [] = (t1, ls1, fz)"
    and lease: "lease = new_lease i now plane req pr u pid"
  shows "charge_at idx req t1 = on_plane (take_bytes req) plane t1" and "core t1 ls1"
    and "plane_of t1 plane = Some (planes t1 ! idx)" and "skeleton t1 = skeleton (topology st)"
    and "demand t1 (hm_insert i lease (prune_leases ls1)) q = demand t1 ls1 q + (if touched t1 plane q then unat req else 0)"
proof -
  have inv: "loop_inv (topology st) (leases st) t1 ls1" by (rule preempt_loop_core [OF loop c])
  then show c1: "core t1 ls1" and sk: "skeleton t1 = skeleton (topology st)" by (simp_all add: loop_inv_def)
  have idx: "idx < length (planes t1)" "p_id (planes t1 ! idx) = plane"
    using select_plane_Ok [OF sel] length_skeleton [OF sk] skeleton_nth_id [OF sk] plane by simp_all
  show "charge_at idx req t1 = on_plane (take_bytes req) plane t1"
    using charge_at_on_plane [OF core_ids [OF c1] idx(1)] idx(2) by simp
  show "plane_of t1 plane = Some (planes t1 ! idx)"
    using plane_of_nth [OF core_ids [OF c1] idx(1)] idx(2) by simp
  have "hm_get ls1 i = None" using inv fresh by (simp add: loop_inv_def)
  then have "hm_get (prune_leases ls1) i = None" by (simp add: prune_get [OF core_wf [OF c1]])
  then show "demand t1 (hm_insert i lease (prune_leases ls1)) q = demand t1 ls1 q + (if touched t1 plane q then unat req else 0)"
    by (simp add: demand_insert_new lease new_lease_def contrib_def is_active_def)
qed

lemma no_uma_touched: "no_uma t \<Longrightarrow> touched t r q \<longleftrightarrow> q = r"
  by (auto simp: touched_def is_uma_def no_uma_def plane_of_def dest: find_SomeD split: option.splits)

lemma no_uma_skeleton: "skeleton t' = skeleton t \<Longrightarrow> no_uma t' = no_uma t"
proof -
  have "no_uma u \<longleftrightarrow> (\<forall>(i, k) \<in> set (skeleton u). k \<noteq> IntegratedUma)" for u
    by (auto simp: no_uma_def skeleton_def)
  then show "skeleton t' = skeleton t \<Longrightarrow> ?thesis" by simp
qed

lemma acquire_balanced_if:
  assumes "acquire_lease psi i now pr req pref u pid st = (r, st', fx)"
    and c: "core (topology st) (leases st)" and fresh: "hm_get (leases st) i = None"
    and b: "balanced base (topology st) (leases st)"
    and un: "unforced_op (OpAcquire psi i now pr req pref u pid) st"
    and room: "\<And>idx plane t1 ls1 fz q p. select_plane (planes (topology st)) pr pref = Ok idx \<Longrightarrow> plane = p_id (planes (topology st) ! idx)
      \<Longrightarrow> preempt_loop idx plane req (preemptable (leases st) plane pr) (topology st) (leases st) [] = (t1, ls1, fz)
      \<Longrightarrow> skeleton t1 = skeleton (topology st) \<Longrightarrow> plane_of t1 plane = Some (planes t1 ! idx)
      \<Longrightarrow> req \<le> p_available (planes t1 ! idx) \<Longrightarrow> touched t1 plane q \<Longrightarrow> plane_of t1 q = Some p \<Longrightarrow> req \<le> p_available p"
  shows "balanced base (topology st') (leases st')"
  using assms(1)
proof (cases rule: acquire_cases)
  case (exhausted idx plane t1 ls1 fz)
  then show ?thesis using preempt_loop_balanced [OF exhausted(4) c b] by simp
next
  case (granted idx plane t1 ls1 fz lease)
  note ch = granted_charge [OF c fresh granted(2,3,4,6)]
  have "req \<le> p_available (planes t1 ! idx)"
    using granted(2,4,5) un by (auto simp: preempt_loop_enough)
  then have "balanced base (on_plane (take_bytes req) plane t1) (hm_insert i lease (prune_leases ls1))"
    using room [OF granted(2,3,4) ch(4,3)]
    by (intro balanced_charge [OF core_ids [OF ch(2)] preempt_loop_balanced [OF granted(4) c b] _ ch(5)])
  then show ?thesis using granted ch(1) by simp
qed (use b in simp_all)

lemma acquire_balanced:
  assumes "acquire_lease psi i now pr req pref u pid st = (r, st', fx)"
    and c: "core (topology st) (leases st)" and fresh: "hm_get (leases st) i = None"
    and b: "balanced base (topology st) (leases st)" and nu: "no_uma (topology st)"
    and un: "unforced_op (OpAcquire psi i now pr req pref u pid) st"
  shows "balanced base (topology st') (leases st')"
proof (rule acquire_balanced_if [OF assms(1) c fresh b un])
  fix idx plane q and t1 :: hardware_topology and p
  assume sk: "skeleton t1 = skeleton (topology st)" and own: "plane_of t1 plane = Some (planes t1 ! idx)"
    and room: "req \<le> p_available (planes t1 ! idx)" and q: "touched t1 plane q" "plane_of t1 q = Some p"
  have "q = plane" using q(1) nu no_uma_skeleton [OF sk] no_uma_touched by blast
  with own q(2) room show "req \<le> p_available p" by simp
qed

lemma acquire_covered:
  assumes "acquire_lease psi i now pr req pref u pid st = (r, st', fx)"
    and c: "core (topology st) (leases st)" and fresh: "hm_get (leases st) i = None"
    and b: "covered base (topology st) (leases st)" and m: "modest (topology st) (leases st)"
    and req: "unat req < 2 ^ 63"
  shows "covered base (topology st') (leases st') \<and> modest (topology st') (leases st')"
  using assms(1)
proof (cases rule: acquire_cases)
  case (exhausted idx plane t1 ls1 fz)
  then show ?thesis using preempt_loop_covered [OF exhausted(4) c b m] by simp
next
  case (granted idx plane t1 ls1 fz lease)
  note ch = granted_charge [OF c fresh granted(2,3,4,6)]
  have loop: "covered base t1 ls1" "modest t1 ls1" using preempt_loop_covered [OF granted(4) c b m] by auto
  have "covered base (on_plane (take_bytes req) plane t1) (hm_insert i lease (prune_leases ls1))"
    by (rule covered_charge [OF core_ids [OF ch(2)] loop(1) ch(5)])
  moreover have "modest t1 (hm_insert i lease (prune_leases ls1))"
    using loop(2) req by (auto simp: modest_def granted(6) new_lease_def prune_get [OF core_wf [OF ch(2)]] split: option.splits if_splits)
  ultimately show ?thesis using granted ch(1) by (simp add: modest_on_plane)
qed (use b m in simp_all)

lemma end_lease_account:
  assumes "end_lease s L i st = (r, st')" and c: "core (topology st) (leases st)" and s: "\<not> active_state s"
  shows "balanced base (topology st) (leases st) \<Longrightarrow> balanced base (topology st') (leases st')"
    and "covered base (topology st) (leases st) \<Longrightarrow> modest (topology st) (leases st)
      \<Longrightarrow> covered base (topology st') (leases st') \<and> modest (topology st') (leases st')"
proof -
  note side = core_ids [OF c] core_wf [OF c]
  consider "st' = st" | l where "hm_get (leases st) i = Some l" "is_active l" "leases st' = set_lease_state i s (leases st)"
      "topology st' = restore_plane_memory (topology st) (l_plane_id l) (l_allocated l)"
    | l where "hm_get (leases st) i = Some l" "\<not> is_active l" "leases st' = set_lease_state i s (leases st)"
      "topology st' = topology st"
    using assms(1) by (auto simp: end_lease_def split: option.splits if_splits)
  note cases = this
  show "balanced base (topology st) (leases st) \<Longrightarrow> balanced base (topology st') (leases st')"
    using cases
  proof cases
    case (2 l)
    then show "balanced base (topology st) (leases st) \<Longrightarrow> ?thesis" by (simp add: balanced_refund [OF side _ _ s])
  next
    case (3 l)
    then show "balanced base (topology st) (leases st) \<Longrightarrow> ?thesis"
      using s by (simp add: balanced_def demand_same [OF side(2)])
  qed simp
  assume cov: "covered base (topology st) (leases st)" and m: "modest (topology st) (leases st)"
  show "covered base (topology st') (leases st') \<and> modest (topology st') (leases st')"
    using cases
  proof cases
    case (2 l)
    have "covered base (topology st') (leases st')"
      using 2 covered_refund [OF side 2(1,2) s cov modest_no_overflow [OF c m 2(1)]] by simp
    with 2 m show ?thesis by (simp add: restore_plane_memory_def modest_on_plane modest_set_state)
  next
    case (3 l)
    then show ?thesis using s cov m by (simp add: covered_def demand_same [OF side(2)] modest_set_state)
  qed (use cov m in simp)
qed

lemma mark_active_account:
  assumes "mark_active_lease s L i st = (r, st')" and c: "core (topology st) (leases st)" and s: "active_state s"
  shows "topology st' = topology st" and "demand (topology st) (leases st') = demand (topology st) (leases st)"
    and "modest (topology st) (leases st) \<Longrightarrow> modest (topology st) (leases st')"
  using assms(1) s
  by (auto simp: mark_active_lease_def fun_eq_iff modest_set_state intro: demand_same [OF core_wf [OF c]] split: option.splits if_splits)

text \<open>A thaw that succeeds either changes no accounting or charges a preempted lease that fits.\<close>

lemma thaw_cases [consumes 2, case_names same charged]:
  assumes "thaw_lease L i st = (r, st')" and c: "core (topology st) (leases st)"
  obtains "topology st' = topology st" "leases st' = leases st \<or> (\<exists>l. hm_get (leases st) i = Some l \<and> is_active l
      \<and> leases st' = set_lease_state i Active (leases st))"
  | l where "hm_get (leases st) i = Some l" "l_state l = Preempted" "leases st' = set_lease_state i Active (leases st)"
      "topology st' = on_plane (take_bytes (l_allocated l)) (l_plane_id l) (topology st)" "r = Ok ()"
      "\<And>q p. touched (topology st) (l_plane_id l) q \<Longrightarrow> plane_of (topology st) q = Some p \<Longrightarrow> l_allocated l \<le> p_available p"
proof (cases "\<exists>l. hm_get (leases st) i = Some l \<and> l_state l = Preempted \<and> st' \<noteq> st")
  case False
  show thesis
  proof (rule that(1))
    show "topology st' = topology st"
      using assms(1) False by (auto simp: thaw_lease_def split: option.splits if_splits)
    show "leases st' = leases st \<or> (\<exists>l. hm_get (leases st) i = Some l \<and> is_active l
        \<and> leases st' = set_lease_state i Active (leases st))"
      using assms(1) False by (auto simp: thaw_lease_def is_active_def split: option.splits if_splits)
  qed
next
  case True
  then obtain l where l: "hm_get (leases st) i = Some l" "l_state l = Preempted" "st' \<noteq> st" by blast
  let ?t = "topology st"
  obtain p where p: "plane_of ?t (l_plane_id l) = Some p" "l_allocated l \<le> p_available p"
    and cpu: "\<And>cpu. is_uma ?t (l_plane_id l) \<Longrightarrow> find is_cpu_plane (planes ?t) = Some cpu \<Longrightarrow> l_allocated l \<le> p_available cpu"
    and st': "st' = st\<lparr>topology := on_plane (take_bytes (l_allocated l)) (l_plane_id l) ?t,
        leases := set_lease_state i Active (leases st)\<rparr>" "r = Ok ()"
    using assms(1) l by (auto simp: thaw_lease_def Let_def not_less split: option.splits if_splits)
  show thesis
  proof (rule that(2) [OF l(1,2)])
    fix q p' assume t: "touched ?t (l_plane_id l) q" and p': "plane_of ?t q = Some p'"
    show "l_allocated l \<le> p_available p'"
    proof (cases "q = l_plane_id l")
      case False
      with t have uma: "is_uma ?t (l_plane_id l)" and "first_cpu ?t = Some q" by (auto simp: touched_def)
      then obtain c' where c': "find is_cpu_plane (planes ?t) = Some c'" "p_id c' = q" by (auto simp: first_cpu_def)
      then have "plane_of ?t q = Some c'"
        using core_ids [OF c] by (auto simp: plane_of_Some_iff dest: find_SomeD)
      with cpu [OF uma c'(1)] p' show ?thesis by simp
    qed (use p p' in simp)
  qed (use st' in simp_all)
qed

lemma thaw_account:
  assumes "thaw_lease L i st = (r, st')" and c: "core (topology st) (leases st)"
  shows "balanced base (topology st) (leases st) \<Longrightarrow> balanced base (topology st') (leases st')"
    and "covered base (topology st) (leases st) \<Longrightarrow> covered base (topology st') (leases st')"
    and "modest (topology st) (leases st) \<Longrightarrow> modest (topology st') (leases st')"
proof -
  have "(balanced base (topology st) (leases st) \<longrightarrow> balanced base (topology st') (leases st'))
    \<and> (covered base (topology st) (leases st) \<longrightarrow> covered base (topology st') (leases st'))
    \<and> (modest (topology st) (leases st) \<longrightarrow> modest (topology st') (leases st'))"
    using assms
  proof (cases rule: thaw_cases)
    case same
    then have "demand (topology st) (leases st') = demand (topology st) (leases st)"
      using same(2) demand_same [OF core_wf [OF c]] by (auto simp: fun_eq_iff is_active_def)
    with same show ?thesis by (auto simp: balanced_def covered_def intro: modest_set_state)
  next
    case (charged l)
    have "demand (topology st) (leases st') q = demand (topology st) (leases st) q
        + (if touched (topology st) (l_plane_id l) q then unat (l_allocated l) else 0)" for q
      using demand_set_state [OF core_wf [OF c] charged(1), of "topology st" Active q] charged(2,3)
      by (simp add: contrib_def is_active_def)
    note dem = this
    show ?thesis
      using charged balanced_charge [OF core_ids [OF c] _ charged(6) dem] covered_charge [OF core_ids [OF c] _ dem]
      by (auto simp: modest_on_plane modest_set_state)
  qed
  then show "balanced base (topology st) (leases st) \<Longrightarrow> balanced base (topology st') (leases st')"
    and "covered base (topology st) (leases st) \<Longrightarrow> covered base (topology st') (leases st')"
    and "modest (topology st) (leases st) \<Longrightarrow> modest (topology st') (leases st')"
    by blast+
qed

section \<open>Runs\<close>

lemma exec_op_skeleton:
  assumes c: "core (topology st) (leases st)" and ok: "op_ok opn st" and k: "keeps_topology opn"
  shows "skeleton (topology (exec_op L opn st)) = skeleton (topology st)"
proof (cases opn)
  case (OpAcquire psi i now pr b pref u pid)
  obtain r st' fx where a: "acquire_lease psi i now pr b pref u pid st = (r, st', fx)" by (metis prod_cases3)
  from a have "skeleton (topology st') = skeleton (topology st)"
  proof (cases rule: acquire_cases)
    case (exhausted idx plane t1 ls1 fz)
    then show ?thesis using preempt_loop_core [OF exhausted(4) c] by (simp add: loop_inv_def)
  next
    case (granted idx plane t1 ls1 fz lease)
    have "hm_get (leases st) i = None" using OpAcquire ok by simp
    then show ?thesis using granted granted_charge(1,4) [OF c _ granted(2,3,4,6)] by simp
  qed simp_all
  with a OpAcquire show ?thesis by simp
qed (use k in \<open>auto simp: release_lease_def revoke_lease_def end_lease_def yield_lease_def freeze_lease_def
    mark_active_lease_def thaw_lease_def register_model_def remove_model_def pin_model_for_triage_def
    restore_plane_memory_def Let_def case_prod_beta split: option.splits\<close>)

lemma exec_op_balanced_if:
  assumes c: "core (topology st) (leases st)" and k: "keeps_topology opn" and b: "balanced base (topology st) (leases st)"
    and acq: "\<And>psi i now pr req pref u pid r st' fx. opn = OpAcquire psi i now pr req pref u pid
      \<Longrightarrow> acquire_lease psi i now pr req pref u pid st = (r, st', fx) \<Longrightarrow> balanced base (topology st') (leases st')"
  shows "balanced base (topology (exec_op L opn st)) (leases (exec_op L opn st))"
proof (cases opn)
  case (OpAcquire psi i now pr req pref u pid)
  obtain r st' fx where "acquire_lease psi i now pr req pref u pid st = (r, st', fx)" by (metis prod_cases3)
  with OpAcquire acq [OF OpAcquire this] show ?thesis by simp
next
  case (OpRelease i)
  then show ?thesis using end_lease_account(1) [OF prod.collapse [symmetric] c _ b] by (simp add: release_lease_def)
next
  case (OpRevoke i)
  then show ?thesis using end_lease_account(1) [OF prod.collapse [symmetric] c _ b] by (simp add: revoke_lease_def)
next
  case (OpYield i)
  then show ?thesis using b mark_active_account(1,2) [OF prod.collapse [symmetric] c, of Preempting L i]
    by (simp add: yield_lease_def balanced_def)
next
  case (OpFreeze i)
  then show ?thesis using b mark_active_account(1,2) [OF prod.collapse [symmetric] c, of Frozen L i]
    by (simp add: freeze_lease_def balanced_def)
next
  case (OpThaw i)
  then show ?thesis using thaw_account(1) [OF prod.collapse [symmetric] c b] by simp
qed (use k b in \<open>simp_all add: register_model_def remove_model_def pin_model_for_triage_def case_prod_beta\<close>)

lemma exec_op_balanced:
  assumes c: "core (topology st) (leases st)" and ok: "op_ok opn st" and un: "unforced_op opn st"
    and nu: "no_uma (topology st)" and b: "balanced base (topology st) (leases st)"
  shows "balanced base (topology (exec_op L opn st)) (leases (exec_op L opn st))"
proof (rule exec_op_balanced_if [OF c _ b])
  show "keeps_topology opn" using un by (cases opn) simp_all
  fix psi i now pr req pref u pid r st' fx
  assume "opn = OpAcquire psi i now pr req pref u pid" and "acquire_lease psi i now pr req pref u pid st = (r, st', fx)"
  then show "balanced base (topology st') (leases st')" using acquire_balanced [OF _ c _ b nu] ok un by simp
qed

lemma exec_op_covered:
  assumes c: "core (topology st) (leases st)" and ok: "op_ok opn st" and mo: "modest_op opn st"
    and b: "covered base (topology st) (leases st)" and m: "modest (topology st) (leases st)"
  shows "covered base (topology (exec_op L opn st)) (leases (exec_op L opn st))
    \<and> modest (topology (exec_op L opn st)) (leases (exec_op L opn st))"
proof (cases opn)
  case (OpAcquire psi i now pr req pref u pid)
  obtain r st' fx where "acquire_lease psi i now pr req pref u pid st = (r, st', fx)" by (metis prod_cases3)
  with OpAcquire acquire_covered [OF this c _ b m] ok mo show ?thesis by simp
next
  case (OpRelease i)
  then show ?thesis using end_lease_account(2) [OF prod.collapse [symmetric] c _ b m] by (simp add: release_lease_def)
next
  case (OpRevoke i)
  then show ?thesis using end_lease_account(2) [OF prod.collapse [symmetric] c _ b m] by (simp add: revoke_lease_def)
next
  case (OpYield i)
  then show ?thesis using b m mark_active_account [OF prod.collapse [symmetric] c, of Preempting L i]
    by (simp add: yield_lease_def covered_def)
next
  case (OpFreeze i)
  then show ?thesis using b m mark_active_account [OF prod.collapse [symmetric] c, of Frozen L i]
    by (simp add: freeze_lease_def covered_def)
next
  case (OpThaw i)
  then show ?thesis using thaw_account(2,3) [OF prod.collapse [symmetric] c] b m by simp
qed (use mo b m in \<open>simp_all add: register_model_def remove_model_def pin_model_for_triage_def case_prod_beta\<close>)

lemma modest_reorder: "hm_wf ls \<Longrightarrow> hm_reorder ls ls' \<Longrightarrow> modest t ls' = modest t ls"
  by (simp add: modest_def hm_get_reorder)

definition balanced_state :: "(string \<Rightarrow> nat) \<Rightarrow> arbiter_state \<Rightarrow> bool" where
  "balanced_state base st \<longleftrightarrow> arbiter_inv st \<and> no_uma (topology st) \<and> balanced base (topology st) (leases st)"

definition covered_state :: "(string \<Rightarrow> nat) \<Rightarrow> arbiter_state \<Rightarrow> bool" where
  "covered_state base st \<longleftrightarrow> arbiter_inv st \<and> covered base (topology st) (leases st) \<and> modest (topology st) (leases st)"

interpretation unforced: transition_invariant "guarded_step unforced_op L" "balanced_state base" for L base
proof
  fix st st' assume b: "balanced_state base st" and s: "guarded_step unforced_op L st st'"
  have c: "core (topology st) (leases st)" using b by (simp add: balanced_state_def arbiter_inv_core)
  have "arbiter_inv st'" using b s guarded_step_inv by (auto simp: balanced_state_def)
  with s show "balanced_state base st'"
  proof (elim guarded_stepE)
    fix opn assume o: "op_ok opn st" "unforced_op opn st" "st' = exec_op L opn st"
    then have "keeps_topology opn" by (cases opn) auto
    then have "no_uma (topology st')"
      using b o(3) no_uma_skeleton [OF exec_op_skeleton [OF c o(1), of L]] by (simp add: balanced_state_def)
    with o b exec_op_balanced [OF c o(1,2)] \<open>arbiter_inv st'\<close> show ?thesis
      by (simp add: balanced_state_def)
  next
    fix ls assume "hm_reorder (leases st) ls" "st' = st\<lparr>leases := ls\<rparr>"
    with b \<open>arbiter_inv st'\<close> show ?thesis by (simp add: balanced_state_def balanced_def demand_reorder)
  qed
qed

interpretation modest_run: transition_invariant "guarded_step modest_op L" "covered_state base" for L base
proof
  fix st st' assume b: "covered_state base st" and s: "guarded_step modest_op L st st'"
  have c: "core (topology st) (leases st)" using b by (simp add: covered_state_def arbiter_inv_core)
  have "arbiter_inv st'" using b s guarded_step_inv by (auto simp: covered_state_def)
  with s show "covered_state base st'"
  proof (elim guarded_stepE)
    fix opn assume o: "op_ok opn st" "modest_op opn st" "st' = exec_op L opn st"
    with b exec_op_covered [OF c o(1,2)] \<open>arbiter_inv st'\<close> show ?thesis by (auto simp: covered_state_def)
  next
    fix ls assume r: "hm_reorder (leases st) ls" "st' = st\<lparr>leases := ls\<rparr>"
    with b \<open>arbiter_inv st'\<close> modest_reorder [OF core_wf [OF c] r(1)] show ?thesis
      by (simp add: covered_state_def covered_def demand_reorder)
  qed
qed

end
