(* ===== verification/Arbiter_Admission.thy ===== *)
theory Arbiter_Admission
  imports Arbiter_Accounting
begin

text \<open>
  Properties of admission: the preemption loop is compared with a reference that preempts a
  list of leases at once, and the theorems state which plane a request gets, who is preempted
  for it, when it is refused and what a grant changes.
\<close>

section \<open>Example states\<close>

text \<open>
  A host with a CPU plane reserved for triage and a graphics card; a batch lease on the card
  (\<open>ex_one\<close>), then an interactive one that displaces it (\<open>ex_two\<close>).
\<close>

definition ex_plane :: "string \<Rightarrow> compute_plane_kind \<Rightarrow> u64 \<Rightarrow> u64 \<Rightarrow> compute_plane" where
  "ex_plane i k available whole =
     \<lparr>p_id = i, p_name = i, p_kind = k, p_device_path = None, p_total = whole, p_available = available,
      p_numa_node = None, p_supported_formats = [], p_triage_reserved = (k = CpuMatrixExtension),
      p_quarantined = False, p_features = []\<rparr>"

definition ex_topology :: hardware_topology where
  "ex_topology = \<lparr>planes = [ex_plane ''cpu0'' CpuMatrixExtension 4000 8000, ex_plane ''gpu0'' DiscreteGpu 1000 1000],
     total_ram = 16000, available_ram = 8000, cpu_cores_total = 8, numa_nodes = 1\<rparr>"

definition calm :: pressure_metrics where
  "calm = from_level Normal"

definition ask :: "lease_id \<Rightarrow> lease_priority \<Rightarrow> u64 \<Rightarrow> arbiter_op" where
  "ask i pr b = OpAcquire calm i 0 pr b None None (Some 7)"

definition ex_lib :: text_lib where
  "ex_lib = \<lparr>uuid_show = (\<lambda>i. show_nat (unat i)), uuid_parse = (\<lambda>s. None), errno_show = show_nat\<rparr>"

definition ex_zero :: arbiter_state where
  "ex_zero = new_arbiter ex_topology"

definition ex_one :: arbiter_state where
  "ex_one = exec_op ex_lib (ask 1 Batch 600) ex_zero"

definition ex_two :: arbiter_state where
  "ex_two = exec_op ex_lib (ask 2 Interactive 700) ex_one"

definition ex_three :: arbiter_state where
  "ex_three = exec_op ex_lib (OpRelease 2) ex_two"

lemma ex_topology_ok: "topo_ok ex_topology" "no_uma ex_topology"
  by code_simp+

lemma ex_topology_small: "\<forall>p \<in> set (planes ex_topology). unat (p_total p) < 2 ^ 63"
  by (simp add: ex_topology_def ex_plane_def)

lemma ex_ops_ok: "op_ok (ask 1 Batch 600) ex_zero" "op_ok (ask 2 Interactive 700) ex_one" "op_ok (OpRelease 2) ex_two"
  by code_simp+

lemma ex_run:
  assumes "G (ask 1 Batch 600) ex_zero" and "G (ask 2 Interactive 700) ex_one" and "G (OpRelease 2) ex_two"
  shows "(guarded_step G ex_lib)\<^sup>*\<^sup>* (new_arbiter ex_topology) ex_two" and "guarded_step G ex_lib ex_two ex_three"
proof -
  have "guarded_step G ex_lib ex_zero (exec_op ex_lib (ask 1 Batch 600) ex_zero)"
    and "guarded_step G ex_lib ex_one (exec_op ex_lib (ask 2 Interactive 700) ex_one)"
    using assms ex_ops_ok by (auto intro: guarded_step.op)
  then have "guarded_step G ex_lib ex_zero ex_one" and "guarded_step G ex_lib ex_one ex_two"
    by (simp_all only: ex_one_def [symmetric] ex_two_def [symmetric])
  then show "(guarded_step G ex_lib)\<^sup>*\<^sup>* (new_arbiter ex_topology) ex_two" by (simp flip: ex_zero_def)
  show "guarded_step G ex_lib ex_two ex_three" unfolding ex_three_def using assms ex_ops_ok by (intro guarded_step.op)
qed

lemma ex_inv: "arbiter_inv ex_zero" "arbiter_inv ex_one" "arbiter_inv ex_two" "arbiter_inv ex_three"
proof -
  show z: "arbiter_inv ex_zero" unfolding ex_zero_def by (rule new_arbiter_inv) (rule ex_topology_ok)
  show o: "arbiter_inv ex_one"
    unfolding ex_one_def by (rule guarded_step_inv [OF z guarded_step.op [where G = "\<lambda>_ _. True"]]) (simp_all add: ex_ops_ok)
  show t: "arbiter_inv ex_two"
    unfolding ex_two_def by (rule guarded_step_inv [OF o guarded_step.op [where G = "\<lambda>_ _. True"]]) (simp_all add: ex_ops_ok)
  show "arbiter_inv ex_three"
    unfolding ex_three_def by (rule guarded_step_inv [OF t guarded_step.op [where G = "\<lambda>_ _. True"]]) (simp_all add: ex_ops_ok)
qed

section \<open>The preemption loop against a reference\<close>

definition refund_all :: "string \<Rightarrow> lease_table \<Rightarrow> lease_id list \<Rightarrow> hardware_topology \<Rightarrow> hardware_topology" where
  "refund_all plane ls is t = fold (\<lambda>i u. restore_plane_memory u plane (l_allocated (the (hm_get ls i)))) is t"

definition preempt_all :: "lease_id list \<Rightarrow> lease_table \<Rightarrow> lease_table" where
  "preempt_all is ls = fold (\<lambda>i. set_lease_state i Preempted) is ls"

definition clients_of :: "lease_table \<Rightarrow> lease_id list \<Rightarrow> frozen_clients" where
  "clients_of ls is = map (\<lambda>i. (l_client_pid (the (hm_get ls i)), l_client_unit (the (hm_get ls i)))) is"

lemma preempt_all_get:
  "hm_get (preempt_all is ls) j = (if j \<in> set is then map_option (\<lambda>l. l\<lparr>l_state := Preempted\<rparr>) (hm_get ls j) else hm_get ls j)"
  unfolding preempt_all_def
  by (induction "is" arbitrary: ls) (auto simp: set_state_get option.map_comp comp_def)

lemma clients_of_cong:
  "(\<And>i. i \<in> set is \<Longrightarrow> hm_get ls' i = hm_get ls i) \<Longrightarrow> clients_of ls' is = clients_of ls is"
  by (simp add: clients_of_def)

text \<open>
  The loop preempts the shortest prefix of the victims that makes room, or all of them
  when no prefix does.
\<close>

lemma preempt_loop_prefix:
  assumes "preempt_loop idx plane req is t ls fz = (t', ls', fz')" and "victims_ok ls plane pr is"
  shows "\<exists>k \<le> length is. t' = refund_all plane ls (take k is) t \<and> ls' = preempt_all (take k is) ls
    \<and> fz' = fz @ clients_of ls (take k is)
    \<and> (\<forall>j<k. p_available (planes (refund_all plane ls (take j is) t) ! idx) < req)
    \<and> (k = length is \<or> req \<le> p_available (planes t' ! idx))"
  using assms
proof (induction "is" arbitrary: t ls fz)
  case Nil
  then show ?case by (simp add: refund_all_def preempt_all_def clients_of_def)
next
  case (Cons i "is")
  show ?case
  proof (cases "req \<le> p_available (planes t ! idx)")
    case True
    with Cons.prems(1) show ?thesis
      by (intro exI [of _ 0]) (simp add: refund_all_def preempt_all_def clients_of_def)
  next
    case False
    from Cons.prems(2) obtain l where l: "hm_get ls i = Some l" and i: "i \<notin> set is" by (auto simp: victims_ok_def)
    let ?ls = "set_lease_state i Preempted ls" and ?t = "restore_plane_memory t plane (l_allocated l)"
    have v: "victims_ok ?ls plane pr is" using Cons.prems(2) by (auto simp: victims_ok_def set_lease_state_def)
    have "preempt_loop idx plane req is ?t ?ls (fz @ [(l_client_pid l, l_client_unit l)]) = (t', ls', fz')"
      using Cons.prems(1) False l by (simp add: set_lease_state_def)
    from Cons.IH [OF this v] obtain k where k: "k \<le> length is" "t' = refund_all plane ?ls (take k is) ?t"
      "ls' = preempt_all (take k is) ?ls" "fz' = (fz @ [(l_client_pid l, l_client_unit l)]) @ clients_of ?ls (take k is)"
      "\<And>j. j < k \<Longrightarrow> p_available (planes (refund_all plane ?ls (take j is) ?t) ! idx) < req"
      "k = length is \<or> req \<le> p_available (planes t' ! idx)" by blast
    have same: "hm_get ?ls j = hm_get ls j" if "j \<in> set (take m is)" for j m
      using that i by (auto simp: set_state_get dest: in_set_takeD)
    have tail: "refund_all plane ?ls (take m is) u = refund_all plane ls (take m is) u" for m u
      unfolding refund_all_def by (rule fold_cong) (use same in \<open>auto simp: fun_eq_iff\<close>)
    have "clients_of ?ls (take k is) = clients_of ls (take k is)" by (rule clients_of_cong) (rule same)
    moreover have first: "refund_all plane ls (take m is) ?t = refund_all plane ls (i # take m is) t" for m
      by (simp add: refund_all_def l)
    moreover have "p_available (planes (refund_all plane ls (take j (i # is)) t) ! idx) < req" if "j < Suc k" for j
      using that k(5) False first tail by (cases j) (simp_all add: refund_all_def not_le)
    ultimately show ?thesis
      using k tail l by (intro exI [of _ "Suc k"]) (simp add: preempt_all_def clients_of_def)
  qed
qed

lemma preemptable_sorted:
  "sorted (map (\<lambda>i. map_option l_priority (hm_get ls i)) (preemptable ls plane pr))"
  by (simp add: preemptable_def)

lemma preemptable_set:
  "leases_ok ls \<Longrightarrow> i \<in> set (preemptable ls plane pr) \<longleftrightarrow>
     (\<exists>l. hm_get ls i = Some l \<and> l_plane_id l = plane \<and> is_active l \<and> l_priority l < pr)"
  by (force simp: preemptable_def hm_values_def leases_ok_def hm_get_Some_iff)


section \<open>Properties of admission\<close>



text \<open>With no preferred plane, an ordinary request goes to a plane that is neither quarantined
  nor reserved for triage and that has the most memory available among those; it is refused
  only when every plane is quarantined or reserved.\<close>

theorem ordinary_plane_choice:
  assumes pr: "pr \<noteq> EmergencyTriage"
  shows "(case select_plane ps pr None of
      Ok idx \<Rightarrow> idx < length ps \<and> \<not> p_quarantined (ps ! idx) \<and> \<not> p_triage_reserved (ps ! idx)
        \<and> (\<forall>p \<in> set ps. \<not> p_quarantined p \<and> \<not> p_triage_reserved p \<longrightarrow> p_available p \<le> p_available (ps ! idx))
    | Err e \<Rightarrow> (\<exists>m. e = PlaneNotFound m) \<and> (\<forall>p \<in> set ps. p_quarantined p \<or> p_triage_reserved p))"
proof -
  let ?q = "filter (\<lambda>(_, p). \<not> p_quarantined p \<and> (\<not> p_triage_reserved p \<or> pr = EmergencyTriage)) (enumerate 0 ps)"
  have q: "(n, p) \<in> set ?q \<longleftrightarrow> n < length ps \<and> p = ps ! n \<and> \<not> p_quarantined p \<and> \<not> p_triage_reserved p" for n p
    using pr by (auto simp: in_set_enumerate_eq)
  show ?thesis
  proof (cases "max_by_key (\<lambda>(_, p). p_available p) ?q")
    case None
    then have "?q = []" by simp
    then have "\<nexists>n p. (n, p) \<in> set ?q" by (metis list.distinct(1) list.set_cases)
    then have "\<forall>p \<in> set ps. p_quarantined p \<or> p_triage_reserved p" unfolding q by (metis in_set_conv_nth)
    with None pr show ?thesis by (simp add: select_plane_def)
  next
    case (Some e)
    obtain idx p where e: "e = (idx, p)" by (cases e)
    note m = max_by_key_SomeD [OF Some [unfolded e]]
    have "idx < length ps" "p = ps ! idx" "\<not> p_quarantined p" "\<not> p_triage_reserved p" using m q [of idx p] by auto
    moreover have "p_available p' \<le> p_available p" if "p' \<in> set ps" "\<not> p_quarantined p'" "\<not> p_triage_reserved p'" for p'
    proof -
      obtain n where "n < length ps" "ps ! n = p'" using \<open>p' \<in> set ps\<close> by (auto simp: in_set_conv_nth)
      then have "(n, p') \<in> set ?q" using that q [of n p'] by simp
      with m show ?thesis by fastforce
    qed
    ultimately show ?thesis using Some pr by (simp add: select_plane_def e)
  qed
qed

theorem ordinary_plane_choice_witness:
  "\<not> p_triage_reserved (planes ex_topology ! 1) \<and> select_plane (planes ex_topology) Batch None = Ok 1"
proof -
  have sel: "select_plane (planes ex_topology) Batch None = Ok 1" by code_simp
  then show ?thesis using ordinary_plane_choice [of Batch "planes ex_topology"] by simp
qed

text \<open>An emergency request without a preferred plane is granted whenever the host has a plane
  at all, whatever the pressure and the load, on the triage enclave if there is one.\<close>

lemma emergency_always_granted:
  assumes "planes (topology st) \<noteq> []"
  shows "\<exists>l st' fx. acquire_lease psi i now EmergencyTriage req None u pid st = (Ok l, st', fx)
    \<and> hm_get (leases st') i = Some l \<and> l_state l = Active \<and> l_allocated l = req
    \<and> ((\<exists>p \<in> set (planes (topology st)). p_triage_reserved p)
        \<longrightarrow> (\<exists>p \<in> set (planes (topology st)). p_triage_reserved p \<and> l_plane_id l = p_id p))"
proof -
  let ?ps = "planes (topology st)"
  have "\<exists>idx. select_plane ?ps EmergencyTriage None = Ok idx \<and>
      ((\<exists>p \<in> set ?ps. p_triage_reserved p) \<longrightarrow> p_triage_reserved (?ps ! idx))"
  proof (cases "position p_triage_reserved ?ps")
    case None
    then have none: "\<not> (\<exists>p \<in> set ?ps. p_triage_reserved p)" by (simp add: position_None_iff)
    have "max_by_key (\<lambda>(_, p). p_total p) (enumerate 0 ?ps) \<noteq> None" using assms by (simp add: enumerate_eq_zip)
    with None none show ?thesis by (auto simp: select_plane_def split: option.splits)
  next
    case (Some idx)
    then show ?thesis using position_SomeD [OF Some] by (auto simp: select_plane_def)
  qed
  then obtain idx where sel: "select_plane ?ps EmergencyTriage None = Ok idx"
    and res: "(\<exists>p \<in> set ?ps. p_triage_reserved p) \<Longrightarrow> p_triage_reserved (?ps ! idx)" by blast
  have idx: "?ps ! idx \<in> set ?ps" using select_plane_Ok [OF sel] by simp
  obtain r st' fx where acq: "acquire_lease psi i now EmergencyTriage req None u pid st = (r, st', fx)" by (metis prod_cases3)
  then show ?thesis
  proof (cases rule: acquire_cases)
    case (granted idx' plane t1 ls1 fz lease)
    with sel res idx acq show ?thesis by (auto simp: new_lease_def)
  qed (use sel in simp_all)
qed

text \<open>Under critical memory pressure every request that is not an emergency is refused with
  the saturation error, and the arbiter's state and the clients are left alone.\<close>

lemma critical_pressure_throttles:
  assumes "level psi = Critical" and "pr \<noteq> EmergencyTriage"
  shows "acquire_lease psi i now pr req pref u pid st = (Err (BusSaturation (saturation_message psi)), st, [])"
  using assms by (simp add: acquire_lease_def)

text \<open>A lease that is granted is active, carries the request, is stored under its identifier,
  and its plane exists; an ordinary grant was backed by available memory, of which exactly the
  request is taken.\<close>

theorem acquire_granted:
  assumes inv: "arbiter_inv st" and fresh: "hm_get (leases st) i = None"
    and acq: "acquire_lease psi i now pr req pref u pid st = (Ok l, st', fx)"
  shows "hm_get (leases st') i = Some l \<and> l = new_lease i now (l_plane_id l) req pr u pid
    \<and> (\<forall>q. pref = Some q \<longrightarrow> l_plane_id l = q)
    \<and> (\<exists>p p' t1. plane_of t1 (l_plane_id l) = Some p \<and> plane_of (topology st') (l_plane_id l) = Some p'
        \<and> (\<exists>n. t1 = refund_all (l_plane_id l) (leases st) (take n (preemptable (leases st) (l_plane_id l) pr)) (topology st))
        \<and> p_available p' = saturating_sub (p_available p) req
        \<and> (pr \<noteq> EmergencyTriage \<longrightarrow> req \<le> p_available p))"
  using acq
proof (cases rule: acquire_cases)
  case (granted idx plane t1 ls1 fz lease)
  have c: "core (topology st) (leases st)" and ok: "leases_ok (leases st)" using inv by (simp_all add: arbiter_inv_core core_def)
  note ch = granted_charge [OF c fresh granted(2,3,4,6)]
  from preempt_loop_prefix [OF granted(4) preemptable_ok [OF ok]]
  have t1: "\<exists>n. t1 = refund_all plane (leases st) (take n (preemptable (leases st) plane pr)) (topology st)" by auto
  have "plane_of (topology st') plane = Some (take_bytes req (planes t1 ! idx))"
    using granted(8) ch(1,3) charge_spec(1) [OF core_ids [OF ch(2)], of req plane plane] by (simp add: touched_def)
  moreover have "pref = Some q \<Longrightarrow> plane = q" for q
    using granted(2,3) by (auto simp: select_plane_def dest!: position_SomeD split: option.splits)
  ultimately show ?thesis
    using granted(5-8) ch(3) t1 by (intro conjI exI [of _ "planes t1 ! idx"] exI [of _ "take_bytes req (planes t1 ! idx)"] exI [of _ t1])
      (auto simp: new_lease_def take_bytes_def)
qed simp_all

theorem acquire_granted_witness:
  "hm_get (leases ex_two) 2 = Some (new_lease 2 0 ''gpu0'' 700 Interactive None (Some 7))"
proof -
  have acq: "acquire_lease calm 2 0 Interactive 700 None None (Some 7) ex_one
      = (Ok (new_lease 2 0 ''gpu0'' 700 Interactive None (Some 7)), ex_two, [YieldSignal 7])"
    by code_simp
  have "hm_get (leases ex_one) 2 = None" by code_simp
  from acquire_granted [OF ex_inv(2) this acq] show ?thesis by simp
qed

end
