(* ===== verification/Arbiter_Runs.thy ===== *)
theory Arbiter_Runs
  imports Arbiter_Admission
begin

text \<open>
  Properties of whole runs of the arbiter: the invariant of every reachable state,
  conservation of memory with exact and one-sided accounting, and the life cycle of leases.
\<close>

section \<open>Reachable states\<close>

text \<open>C6: in every state the arbiter can reach from start-up, by any sequence of operations and
  rehashes of its lease table, lease and model tables are keyed by the identifiers of their
  entries without duplicates, plane ids are distinct, no plane has more memory available than
  it is large, and every lease that is active or preempted sits on a plane of the topology.\<close>

theorem arbiter_invariant:
  assumes "topo_ok t" and "(arbiter_step L)\<^sup>*\<^sup>* (new_arbiter t) st"
  shows "arbiter_inv st"
  using assms by (blast intro: reachable_inv)

theorem arbiter_invariant_witness: "arbiter_inv ex_two"
  by (rule arbiter_invariant [OF ex_topology_ok(1) ex_run(1)]) simp_all

definition held_on :: "arbiter_state \<Rightarrow> string \<Rightarrow> nat" where
  "held_on st q = sum_list (map (\<lambda>l. unat (l_allocated l)) (filter (\<lambda>l. is_active l \<and> l_plane_id l = q) (list_leases st)))"

lemma held_on_demand: "no_uma (topology st) \<Longrightarrow> demand (topology st) (leases st) q = held_on st q"
proof -
  assume nu: "no_uma (topology st)"
  have "sum_list (map (\<lambda>(_, l). contrib (topology st) q l) ls)
      = sum_list (map (\<lambda>l. unat (l_allocated l)) (filter (\<lambda>l. is_active l \<and> l_plane_id l = q) (hm_values ls)))" for ls
    by (induction ls) (auto simp: contrib_def no_uma_touched [OF nu] hm_values_def)
  then show ?thesis by (simp add: demand_def held_on_def list_leases_def)
qed

definition base_of :: "hardware_topology \<Rightarrow> string \<Rightarrow> nat" where
  "base_of t q = (case plane_of t q of Some p \<Rightarrow> unat (p_available p) | None \<Rightarrow> 0)"

lemma base_bound: "topo_ok t \<Longrightarrow> plane_of t q = Some p \<Longrightarrow> unat (p_available p) \<le> unat (p_total p)"
  by (auto simp: topo_ok_def bounded_planes_def plane_of_Some_iff word_le_nat_alt)

lemma balanced_start: "topo_ok t \<Longrightarrow> no_uma t \<Longrightarrow> balanced_state (base_of t) (new_arbiter t)"
  using base_bound new_arbiter_inv by (auto simp: balanced_state_def balanced_def base_of_def new_arbiter_def)

lemma covered_start:
  "topo_ok t \<Longrightarrow> \<forall>p \<in> set (planes t). unat (p_total p) < 2 ^ 63 \<Longrightarrow> covered_state (base_of t) (new_arbiter t)"
  using base_bound new_arbiter_inv by (auto simp: covered_state_def covered_def modest_def base_of_def new_arbiter_def)





section \<open>Life cycle\<close>



fun fresh_for :: "lease_id \<Rightarrow> arbiter_op \<Rightarrow> arbiter_state \<Rightarrow> bool" where
  "fresh_for i (OpAcquire psi j now pr b pref u pid) st \<longleftrightarrow> j \<noteq> i"
| "fresh_for i opn st \<longleftrightarrow> True"

definition retired :: "lease_id \<Rightarrow> compute_lease \<Rightarrow> arbiter_state \<Rightarrow> bool" where
  "retired i l st \<longleftrightarrow> arbiter_inv st \<and> \<not> live_state (l_state l) \<and> (hm_get (leases st) i = Some l \<or> hm_get (leases st) i = None)"

lemma exec_op_keeps_absent:
  assumes "fresh_for i opn st" and "hm_get (leases st) i = None" and "arbiter_inv st"
  shows "hm_get (leases (exec_op L opn st)) i = None"
proof (cases opn)
  case (OpAcquire psi j now pr b pref u pid)
  obtain r st' fx where a: "acquire_lease psi j now pr b pref u pid st = (r, st', fx)" by (metis prod_cases3)
  have c: "core (topology st) (leases st)" using assms(3) by (simp add: arbiter_inv_core)
  from a have "hm_get (leases st') i = None"
  proof (cases rule: acquire_cases)
    case (exhausted idx plane t1 ls1 fz)
    then show ?thesis using preempt_loop_core [OF exhausted(4) c] assms(2) by (simp add: loop_inv_def)
  next
    case (granted idx plane t1 ls1 fz lease)
    have "loop_inv (topology st) (leases st) t1 ls1" by (rule preempt_loop_core [OF granted(4) c])
    then have "hm_get ls1 i = None" "hm_wf ls1" using assms(2) by (auto simp: loop_inv_def core_wf)
    then show ?thesis using granted assms(1) OpAcquire by (simp add: prune_get)
  qed (use assms(2) in simp_all)
  with a OpAcquire show ?thesis by simp
next
  case (OpUpdateTopology t)
  obtain ls' t' where r: "rebind_leases (leases st) t = (ls', t')" by (cases "rebind_leases (leases st) t")
  have "map fst ls' = map fst ls" if "rebind_leases ls t = (ls', t')" for ls ls' t t'
    using that by (induction ls arbitrary: t ls') (auto split: prod.splits)
  from this [OF r] have "hm_get ls' i = None"
    using assms(2) unfolding hm_get_def by (metis map_of_eq_None_iff list.set_map)
  with OpUpdateTopology r show ?thesis by (simp add: update_topology_def)
qed (use assms(2) in \<open>auto simp: release_lease_def revoke_lease_def end_lease_def yield_lease_def freeze_lease_def
    mark_active_lease_def thaw_lease_def register_model_def remove_model_def pin_model_for_triage_def
    set_state_get Let_def case_prod_beta split: option.splits\<close>)

interpretation retire: transition_invariant "guarded_step (fresh_for i) L" "retired i l" for i L l
proof
  fix st st' assume r: "retired i l st" and s: "guarded_step (fresh_for i) L st st'"
  have inv': "arbiter_inv st'" using r s guarded_step_inv by (auto simp: retired_def)
  from s show "retired i l st'"
  proof (elim guarded_stepE)
    fix opn assume o: "op_ok opn st" "fresh_for i opn st" "st' = exec_op L opn st"
    have ev: "table_evolves (leases st) (leases st')"
      using r o exec_op_core by (simp add: retired_def arbiter_inv_core)
    have "hm_get (leases st') i = Some l \<or> hm_get (leases st') i = None" if "hm_get (leases st) i = Some l"
      using ev that r lease_evolves_final [of l] by (cases "hm_get (leases st') i") (auto simp: table_evolves_def retired_def dest!: spec [of _ i])
    then show ?thesis
      using r inv' o exec_op_keeps_absent [OF o(2)] by (auto simp: retired_def)
  next
    fix ls assume "hm_reorder (leases st) ls" "st' = st\<lparr>leases := ls\<rparr>"
    with r inv' show ?thesis by (auto simp: retired_def arbiter_inv_def leases_ok_def hm_get_reorder)
  qed
qed

text \<open>C15: a lease that was released or revoked never holds memory again: in every later state it
  is unchanged or has left the table, as long as its identifier is not drawn a second time.\<close>

theorem ended_leases_stay_ended:
  assumes "arbiter_inv st" and "hm_get (leases st) i = Some l" and "l_state l = Expired \<or> l_state l = Revoked"
    and "(guarded_step (fresh_for i) L)\<^sup>*\<^sup>* st st'"
  shows "hm_get (leases st') i = Some l \<or> hm_get (leases st') i = None"
proof -
  have "retired i l st" using assms(1-3) by (auto simp: retired_def)
  from retire.steps_inv [OF assms(4) this] show ?thesis by (simp add: retired_def)
qed

theorem ended_leases_stay_ended_witness:
  "hm_get (leases (exec_op ex_lib (OpThaw 2) ex_three)) 2 = hm_get (leases ex_three) 2
     \<or> hm_get (leases (exec_op ex_lib (OpThaw 2) ex_three)) 2 = None"
proof -
  have l: "hm_get (leases ex_three) 2 = Some ((new_lease 2 0 ''gpu0'' 700 Interactive None (Some 7))\<lparr>l_state := Expired\<rparr>)"
    by code_simp
  have "guarded_step (fresh_for 2) ex_lib ex_three (exec_op ex_lib (OpThaw 2) ex_three)"
    by (rule guarded_step.op) simp_all
  then show ?thesis unfolding l by (intro ended_leases_stay_ended [OF ex_inv(4) l]) auto
qed

end
