(* ===== verification/Arbiter_Ops.thy ===== *)
theory Arbiter_Ops
  imports Arbiter_Runs
begin

text \<open>
  Properties of single operations of the arbiter: the acquire/release round trip, thawing,
  the rebinding of leases to a new topology, and the places where the accounting leaks.
\<close>

section \<open>Equality of topologies\<close>

lemma planes_eqI:
  assumes d: "ids_distinct t" and sk: "skeleton t' = skeleton t" and pl: "\<And>q. plane_of t' q = plane_of t q"
  shows "planes t' = planes t"
proof (rule nth_equalityI)
  show len: "length (planes t') = length (planes t)" by (rule length_skeleton [OF sk])
  fix n assume n: "n < length (planes t')"
  then have n': "n < length (planes t)" using len by simp
  have "plane_of t' (p_id (planes t' ! n)) = Some (planes t' ! n)"
    using plane_of_nth [OF _ n] ids_distinct_skeleton [OF sk] d by simp
  moreover have "plane_of t (p_id (planes t' ! n)) = Some (planes t ! n)"
    using plane_of_nth [OF d n'] skeleton_nth_id [OF sk n'] by simp
  ultimately show "planes t' ! n = planes t ! n" using pl by simp
qed

lemma on_plane_rest [simp]: "(on_plane f q t)\<lparr>planes := ps\<rparr> = t\<lparr>planes := ps\<rparr>"
  by (simp add: on_plane_def Let_def)

lemma topology_eqI: "planes t' = planes t \<Longrightarrow> t'\<lparr>planes := []\<rparr> = t\<lparr>planes := []\<rparr> \<Longrightarrow> t' = (t :: hardware_topology)"
  by (cases t; cases t') auto

lemma give_take:
  "b \<le> p_available p \<Longrightarrow> p_available p \<le> p_total p \<Longrightarrow> give_bytes b (take_bytes b p) = p"
  by (simp add: give_bytes_def take_bytes_def saturating_sub_def min_absorb1)

lemma refund_charge:
  assumes t: "topo_ok t" and fits: "\<And>q p. touched t r q \<Longrightarrow> plane_of t q = Some p \<Longrightarrow> b \<le> p_available p"
  shows "restore_plane_memory (on_plane (take_bytes b) r t) r b = t"
proof (rule topology_eqI)
  let ?t = "on_plane (take_bytes b) r t"
  have d: "ids_distinct t" using t by (simp add: topo_ok_def)
  have sk: "skeleton ?t = skeleton t" by simp
  have d': "ids_distinct ?t" using d ids_distinct_skeleton [OF sk] by simp
  show "planes (restore_plane_memory ?t r b) = planes t"
  proof (rule planes_eqI [OF d])
    show "skeleton (restore_plane_memory ?t r b) = skeleton t" by (simp add: restore_plane_memory_def)
    fix q
    show "plane_of (restore_plane_memory ?t r b) q = plane_of t q"
    proof (cases "touched t r q")
      case True
      have "give_bytes b (take_bytes b p) = p" if "plane_of t q = Some p" for p
        using fits [OF True that] t that by (intro give_take) (auto simp: topo_ok_def bounded_planes_def plane_of_Some_iff)
      then show ?thesis
        using True by (cases "plane_of t q") (simp_all add: restore_spec [OF d'] charge_spec [OF d] touched_skeleton [OF sk])
    qed (simp add: restore_spec [OF d'] charge_spec [OF d] touched_skeleton [OF sk])
  qed
qed (simp add: restore_plane_memory_def)

section \<open>Release\<close>

lemma acquire_release_spec:
  assumes inv: "arbiter_inv st" and fresh: "hm_get (leases st) i = None"
    and acq: "acquire_lease psi i now pr req pref u pid st = (Ok l, st1, fx)"
    and fits: "\<And>q p. touched (topology st) (l_plane_id l) q \<Longrightarrow> plane_of (topology st) q = Some p \<Longrightarrow> req \<le> p_available p"
    and rel: "release_lease L i st1 = (r, st2)"
  shows "r = Ok () \<and> topology st2 = topology st \<and> hm_get (leases st2) i = Some (l\<lparr>l_state := Expired\<rparr>)
    \<and> release_lease L i st2 = (Ok (), st2)"
  using acq
proof (cases rule: acquire_cases)
  case (granted idx plane t1 ls1 fz lease)
  have c: "core (topology st) (leases st)" using inv by (simp add: arbiter_inv_core)
  have idx: "idx < length (planes (topology st))" by (rule select_plane_Ok [OF granted(2)])
  have "plane_of (topology st) plane = Some (planes (topology st) ! idx)"
    using plane_of_nth [OF core_ids [OF c] idx] granted(3) by simp
  moreover have l: "l = lease" "l_plane_id l = plane" "l_allocated l = req" "is_active l" "l_state l = Active"
    using granted(6,7) by (simp_all add: new_lease_def is_active_def)
  ultimately have "req \<le> p_available (planes (topology st) ! idx)"
    using fits [of plane "planes (topology st) ! idx"] by (simp add: touched_def)
  with granted(4) have t1: "t1 = topology st" by (simp add: preempt_loop_enough)
  have "topology st1 = on_plane (take_bytes req) plane (topology st)"
    using granted(8) granted_charge(1) [OF c fresh granted(2,3,4,6)] t1 by simp
  moreover have "restore_plane_memory (on_plane (take_bytes req) plane (topology st)) plane req = topology st"
    using c fits l(2) by (intro refund_charge) (auto simp: core_def)
  ultimately show ?thesis
    using rel granted(8) l by (auto simp: release_lease_def end_lease_def set_state_get is_active_def)
qed simp_all

text \<open>C18: acquiring a lease that fits and releasing it gives back the very topology the arbiter
  had before, on every plane the lease touched; the lease is left expired, and releasing it
  again changes nothing.\<close>

theorem acquire_release_round_trip:
  assumes inv: "arbiter_inv st" and fresh: "hm_get (leases st) i = None"
    and acq: "acquire_lease psi i now pr req pref u pid st = (Ok l, st1, fx)"
    and fits: "\<And>q p. touched (topology st) (l_plane_id l) q \<Longrightarrow> plane_of (topology st) q = Some p \<Longrightarrow> req \<le> p_available p"
    and rel: "release_lease L i st1 = (r, st2)"
  shows "r = Ok () \<and> topology st2 = topology st \<and> hm_get (leases st2) i = Some (l\<lparr>l_state := Expired\<rparr>)
    \<and> release_lease L i st2 = (Ok (), st2)"
  using acquire_release_spec [OF inv fresh acq fits rel] .

theorem acquire_release_round_trip_witness: "topology (snd (release_lease ex_lib 1 ex_one)) = ex_topology"
proof -
  let ?l = "new_lease 1 0 ''gpu0'' 600 Batch None (Some 7)"
  have acq: "acquire_lease calm 1 0 Batch 600 None None (Some 7) ex_zero = (Ok ?l, ex_one, [])"
    and fresh: "hm_get (leases ex_zero) 1 = None"
    and p: "plane_of (topology ex_zero) ''gpu0'' = Some (ex_plane ''gpu0'' DiscreteGpu 1000 1000)"
    and nu: "no_uma (topology ex_zero)" by code_simp+
  have "600 \<le> p_available p" if "touched (topology ex_zero) (l_plane_id ?l) q" "plane_of (topology ex_zero) q = Some p" for q p
    using that p by (auto simp: no_uma_touched [OF nu] new_lease_def ex_plane_def)
  from acquire_release_round_trip [where L = ex_lib, OF ex_inv(1) fresh acq this prod.collapse [symmetric]] show ?thesis
    by (simp add: ex_zero_def new_arbiter_def)
qed

section \<open>Thawing\<close>

lemma thaw_preempted_spec:
  assumes inv: "arbiter_inv st" and l: "hm_get (leases st) i = Some l" "l_state l = Preempted"
    and th: "thaw_lease L i st = (r, st')"
  shows "r = Ok () \<longleftrightarrow> (\<forall>q p. touched (topology st) (l_plane_id l) q \<longrightarrow> plane_of (topology st) q = Some p \<longrightarrow> l_allocated l \<le> p_available p)"
    and "r = Ok () \<Longrightarrow> hm_get (leases st') i = Some (l\<lparr>l_state := Active\<rparr>)
           \<and> topology st' = on_plane (take_bytes (l_allocated l)) (l_plane_id l) (topology st)"
    and "r \<noteq> Ok () \<Longrightarrow> st' = st \<and> (\<exists>q a. r = Err (ResourceExhaustion q (l_allocated l) a) \<and> a < l_allocated l)"
proof -
  let ?t = "topology st"
  have c: "core ?t (leases st)" using inv by (simp add: arbiter_inv_core)
  obtain p where p: "plane_of ?t (l_plane_id l) = Some p" using c l by (fastforce simp: core_def homed_def)
  have cpu: "plane_of ?t (p_id k) = Some k" if "find is_cpu_plane (planes ?t) = Some k" for k
    using core_ids [OF c] that by (auto simp: plane_of_Some_iff dest: find_SomeD)
  have fit: "(\<forall>q k. touched ?t (l_plane_id l) q \<longrightarrow> plane_of ?t q = Some k \<longrightarrow> l_allocated l \<le> p_available k) \<longleftrightarrow>
      l_allocated l \<le> p_available p \<and> (is_uma ?t (l_plane_id l) \<longrightarrow>
        (\<forall>k. find is_cpu_plane (planes ?t) = Some k \<longrightarrow> l_allocated l \<le> p_available k))"
    using p cpu by (auto simp: touched_def first_cpu_def)
  show "r = Ok () \<longleftrightarrow> (\<forall>q p. touched ?t (l_plane_id l) q \<longrightarrow> plane_of ?t q = Some p \<longrightarrow> l_allocated l \<le> p_available p)"
    unfolding fit using th l p by (auto simp: thaw_lease_def Let_def not_less split: option.splits if_splits)
  show "r = Ok () \<Longrightarrow> hm_get (leases st') i = Some (l\<lparr>l_state := Active\<rparr>)
      \<and> topology st' = on_plane (take_bytes (l_allocated l)) (l_plane_id l) ?t"
    using th l p by (auto simp: thaw_lease_def Let_def set_state_get split: option.splits if_splits)
  show "r \<noteq> Ok () \<Longrightarrow> st' = st \<and> (\<exists>q a. r = Err (ResourceExhaustion q (l_allocated l) a) \<and> a < l_allocated l)"
    using th l p by (auto simp: thaw_lease_def Let_def split: option.splits if_splits)
qed

text \<open>C19: a preempted lease is thawed exactly when its plane is still there and it and, for
  shared memory, the host CPU plane have the lease's memory available; then the memory is taken
  and the lease is active again, and otherwise nothing changes.\<close>

theorem thaw_preempted:
  assumes "arbiter_inv st" and "hm_get (leases st) i = Some l" and "l_state l = Preempted"
    and "thaw_lease L i st = (r, st')"
  shows "(r = Ok () \<longleftrightarrow> (\<forall>q p. touched (topology st) (l_plane_id l) q \<longrightarrow> plane_of (topology st) q = Some p
            \<longrightarrow> l_allocated l \<le> p_available p))
       \<and> (r = Ok () \<longrightarrow> hm_get (leases st') i = Some (l\<lparr>l_state := Active\<rparr>)
            \<and> topology st' = on_plane (take_bytes (l_allocated l)) (l_plane_id l) (topology st))
       \<and> (r \<noteq> Ok () \<longrightarrow> st' = st \<and> (\<exists>q a. r = Err (ResourceExhaustion q (l_allocated l) a) \<and> a < l_allocated l))"
  using thaw_preempted_spec [OF assms] by blast

theorem thaw_preempted_witness:
  "\<exists>q a. fst (thaw_lease ex_lib 1 ex_two) = Err (ResourceExhaustion q 600 a) \<and> a < 600"
proof -
  let ?l = "(new_lease 1 0 ''gpu0'' 600 Batch None (Some 7))\<lparr>l_state := Preempted\<rparr>"
  have l: "hm_get (leases ex_two) 1 = Some ?l" "l_state ?l = Preempted" "fst (thaw_lease ex_lib 1 ex_two) \<noteq> Ok ()" by code_simp+
  from thaw_preempted [OF ex_inv(3) l(1,2) prod.collapse [symmetric], of ex_lib] l(3) show ?thesis
    by (simp add: new_lease_def)
qed

section \<open>Topology changes\<close>

lemma rebind_leases_rest: "rebind_leases ls t = (ls', t') \<Longrightarrow> t'\<lparr>planes := []\<rparr> = t\<lparr>planes := []\<rparr>"
proof (induction ls arbitrary: t ls')
  case (Cons e ls)
  obtain i l where e: "e = (i, l)" by (cases e)
  obtain l' t1 where one: "rebind_lease l t = (l', t1)" by (cases "rebind_lease l t")
  then have "t1\<lparr>planes := []\<rparr> = t\<lparr>planes := []\<rparr>" by (auto simp: rebind_lease_def split: option.splits if_splits)
  moreover obtain ls2 where "rebind_leases ls t1 = (ls2, t')" using Cons.prems by (auto simp: e one split: prod.splits)
  ultimately show ?case using Cons.IH by simp
qed simp

lemma update_topology_spec:
  assumes inv: "arbiter_inv st" and t: "topo_ok t" and st': "st' = update_topology t st"
  shows "hm_get (leases st') i = map_option (\<lambda>l. if live_state (l_state l) \<and> plane_of t (l_plane_id l) = None
            then l\<lparr>l_state := Revoked\<rparr> else l) (hm_get (leases st) i)"
    and "map_option (\<lambda>p. unat (p_available p)) (plane_of (topology st') q)
       = map_option (\<lambda>p. unat (p_available p) - demand t (leases st') q) (plane_of t q)"
    and "hm_reorder (leases st) ls \<Longrightarrow> topology (update_topology t (st\<lparr>leases := ls\<rparr>)) = topology st'"
proof -
  have d: "ids_distinct t" using t by (simp add: topo_ok_def)
  have spec: "leases (update_topology t s) = map (\<lambda>(i, l). (i, rebound t l)) (leases s)
      \<and> skeleton (topology (update_topology t s)) = skeleton t
      \<and> (\<forall>q. plane_of (topology (update_topology t s)) q = map_option (drain (demand t (leases (update_topology t s)) q)) (plane_of t q))" for s
  proof -
    obtain ls' t' where r: "rebind_leases (leases s) t = (ls', t')" by (cases "rebind_leases (leases s) t")
    from rebind_leases_spec [OF d r] r show ?thesis by (simp add: update_topology_def)
  qed
  show "hm_get (leases st') i = map_option (\<lambda>l. if live_state (l_state l) \<and> plane_of t (l_plane_id l) = None
      then l\<lparr>l_state := Revoked\<rparr> else l) (hm_get (leases st) i)"
    using spec [of st] st' by (simp add: hm_get_def map_of_map rebound_def [abs_def])
  show "map_option (\<lambda>p. unat (p_available p)) (plane_of (topology st') q)
      = map_option (\<lambda>p. unat (p_available p) - demand t (leases st') q) (plane_of t q)"
    using spec [of st] st' by (simp add: option.map_comp comp_def)
  assume re: "hm_reorder (leases st) ls"
  let ?u = "update_topology t (st\<lparr>leases := ls\<rparr>)"
  have "hm_reorder (leases st') (leases ?u)"
    using re spec [of st] spec [of "st\<lparr>leases := ls\<rparr>"] st' by (simp add: hm_reorder_def)
  from demand_reorder [OF this] have pl: "plane_of (topology ?u) q = plane_of (topology st') q" for q
    using spec [of st] spec [of "st\<lparr>leases := ls\<rparr>"] st' by simp
  have rest: "(topology (update_topology t s))\<lparr>planes := []\<rparr> = t\<lparr>planes := []\<rparr>" for s
    using rebind_leases_rest by (cases "rebind_leases (leases s) t") (simp add: update_topology_def)
  have d': "ids_distinct (topology st')" using spec [of st] st' d ids_distinct_skeleton [of "topology st'" t] by simp
  have sk: "skeleton (topology ?u) = skeleton (topology st')" unfolding st' using spec by metis
  show "topology ?u = topology st'"
    by (rule topology_eqI [OF planes_eqI [OF d' sk pl]]) (simp only: rest st')
qed

text \<open>C20: a topology change charges every surviving lease to the newly discovered planes, in any
  order of the lease table: afterwards a plane has what discovery found minus what its active
  leases hold, or nothing. Leases whose plane is gone are revoked and no other lease changes.\<close>

theorem update_topology_rebinds:
  assumes "arbiter_inv st" and "topo_ok t" and "st' = update_topology t st" and "hm_reorder (leases st) ls"
  shows "(\<forall>i. hm_get (leases st') i = map_option (\<lambda>l. if live_state (l_state l) \<and> plane_of t (l_plane_id l) = None
            then l\<lparr>l_state := Revoked\<rparr> else l) (hm_get (leases st) i))
       \<and> (\<forall>q. map_option (\<lambda>p. unat (p_available p)) (plane_of (topology st') q)
            = map_option (\<lambda>p. unat (p_available p) - demand t (leases st') q) (plane_of t q))
       \<and> topology (update_topology t (st\<lparr>leases := ls\<rparr>)) = topology st'"
  using update_topology_spec [OF assms(1-3)] assms(4) by simp

theorem update_topology_rebinds_witness:
  "map_option (\<lambda>p. unat (p_available p)) (plane_of (topology (update_topology ex_topology ex_two)) ''gpu0'') = Some 300"
proof -
  have "map_option (\<lambda>p. unat (p_available p)
      - demand ex_topology (leases (update_topology ex_topology ex_two)) ''gpu0'') (plane_of ex_topology ''gpu0'') = Some 300"
    by code_simp
  with update_topology_rebinds [OF ex_inv(3) ex_topology_ok(1) refl, of "leases ex_two"] show ?thesis
    by (simp add: hm_reorder_def)
qed

section \<open>Where the accounting leaks\<close>

text \<open>C34: a request refused for lack of memory has already preempted every candidate: all active
  leases of lower priority on the plane are left preempted and have lost their memory, although
  nobody is granted anything and none of their clients is signalled or frozen.\<close>

theorem exhausted_request_preempts_silently:
  assumes inv: "arbiter_inv st" and fresh: "hm_get (leases st) i = None"
    and acq: "acquire_lease psi i now pr req pref u pid st = (Err (ResourceExhaustion q b a), st', fx)"
  shows "fx = [] \<and> a < req \<and> (\<forall>j l. hm_get (leases st) j = Some l \<longrightarrow> is_active l \<longrightarrow> l_plane_id l = q \<longrightarrow> l_priority l < pr
    \<longrightarrow> hm_get (leases st') j = Some (l\<lparr>l_state := Preempted\<rparr>))"
  using acq
proof (cases rule: acquire_cases)
  case (no_plane e)
  then show ?thesis by (auto simp: select_plane_def split: option.splits if_splits)
next
  case (exhausted idx plane t1 ls1 fz)
  have ok: "leases_ok (leases st)" using inv by (simp add: arbiter_inv_def)
  obtain k where k: "ls1 = preempt_all (take k (preemptable (leases st) plane pr)) (leases st)"
    "k = length (preemptable (leases st) plane pr) \<or> req \<le> p_available (planes t1 ! idx)"
    using preempt_loop_prefix [OF exhausted(4) preemptable_ok [OF ok]] by blast
  have "take k (preemptable (leases st) plane pr) = preemptable (leases st) plane pr"
    using k(2) exhausted(5) by auto
  with k(1) exhausted show ?thesis by (auto simp: preempt_all_get preemptable_set [OF ok])
qed simp_all

theorem exhausted_request_preempts_silently_witness:
  "let (r, st', fx) = acquire_lease calm 3 0 Interactive 5000 (Some ''gpu0'') None None ex_one
   in r = Err (ResourceExhaustion ''gpu0'' 5000 1000) \<and> fx = [] \<and> map_option l_state (hm_get (leases st') 1) = Some Preempted"
proof -
  let ?l = "new_lease 1 0 ''gpu0'' 600 Batch None (Some 7)"
  have r: "fst (acquire_lease calm 3 0 Interactive 5000 (Some ''gpu0'') None None ex_one) = Err (ResourceExhaustion ''gpu0'' 5000 1000)"
    and fresh: "hm_get (leases ex_one) 3 = None" and l: "hm_get (leases ex_one) 1 = Some ?l" by code_simp+
  obtain st' fx where acq: "acquire_lease calm 3 0 Interactive 5000 (Some ''gpu0'') None None ex_one
      = (Err (ResourceExhaustion ''gpu0'' 5000 1000), st', fx)" using r by (metis prod.collapse)
  from exhausted_request_preempts_silently [OF ex_inv(2) fresh acq] l show ?thesis
    by (auto simp: acq new_lease_def is_active_def priority_order dest!: spec [of _ 1])
qed




text \<open>Refunds are not checked for overflow. Two emergencies forced onto the CPU plane, one of
  them for all $2^{64}-1$ bytes, and both released, leave the plane with 99 of the 4000 bytes it
  had, because the second refund wraps around.\<close>

lemma refund_wraps_around:
  "map p_available (planes (topology (exec_op ex_lib (OpRelease 8) (exec_op ex_lib (OpRelease 9)
     (exec_op ex_lib (ask 9 EmergencyTriage 100) (exec_op ex_lib (ask 8 EmergencyTriage (- 1)) ex_zero)))))) = [99, 1000]"
  by code_simp

end
