(* ===== verification/Preempt.thy ===== *)
theory Preempt
  imports Freezer Arbiter_Ops
begin

text \<open>
  The two-tier preemption coordinator (\<^verbatim>\<open>crates/inferenced-core/src/preempt.rs\<close>). A
  preemption marks the lease as yielding and signals its client, polls the arbiter until the
  client gave the lease up or the deadline passed, and then freezes the client. Other tasks
  run between the polls, so the polls are given as a list: the clock in milliseconds when the
  loop condition is evaluated, and the arbiter's state at that poll.
\<close>

section \<open>Records\<close>

datatype preempt_tier = Tier1Cooperative | Tier2ForcedFreeze | TierRevoked

record preempt_record =
  r_lease :: lease_id
  r_plane :: string
  r_pid :: "u32 option"
  r_unit :: "string option"
  r_tier :: preempt_tier
  r_completed :: bool
  r_deadline_ms :: nat

type_synonym preempt_records = "(lease_id, preempt_record) hashmap"

definition DEFAULT_PREEMPT_TIMEOUT :: nat where
  "DEFAULT_PREEMPT_TIMEOUT = 250"

definition poll_interval :: nat where
  "poll_interval = 25"

definition add_record :: "nat \<Rightarrow> compute_lease \<Rightarrow> lease_id \<Rightarrow> preempt_records \<Rightarrow> preempt_records" where
  "add_record deadline l i recs =
     hm_insert i \<lparr>r_lease = i, r_plane = l_plane_id l, r_pid = l_client_pid l, r_unit = l_client_unit l,
         r_tier = Tier1Cooperative, r_completed = False, r_deadline_ms = deadline\<rparr>
       (if 128 < hm_len recs then hm_retain (\<lambda>_ r. \<not> r_completed r) recs else recs)"

section \<open>Preemption\<close>

definition gave_up :: "arbiter_state \<Rightarrow> lease_id \<Rightarrow> bool" where
  "gave_up st i =
     (case get_lease st i of
        Some cur \<Rightarrow> \<not> is_active cur \<or> l_state cur = Preempted \<or> l_state cur = Expired \<or> l_state cur = Revoked
      | None \<Rightarrow> True)"

text \<open>
  The polling loop: whether the client yielded, with the arbiter's state then. It has no
  value while the observations do not decide the loop.
\<close>

fun wait_yield :: "lease_id \<Rightarrow> nat \<Rightarrow> (nat \<times> arbiter_state) list \<Rightarrow> (bool \<times> arbiter_state) option" where
  "wait_yield i deadline [] = None"
| "wait_yield i deadline ((now, st) # obs) =
     (if now < deadline
      then (if gave_up st i then Some (True, st) else wait_yield i deadline obs)
      else Some (False, st))"

definition tier2_freeze :: "kernel \<Rightarrow> os \<Rightarrow> compute_lease \<Rightarrow> bool \<times> syscall list" where
  "tier2_freeze K h l =
     (let (f1, tr1) = (case l_client_unit l of
             Some u \<Rightarrow> (let (r, tr) = freeze_cgroup K h u in (case r of Ok _ \<Rightarrow> True | Err _ \<Rightarrow> False, tr))
           | None \<Rightarrow> (False, []));
          (f2, tr2) = (case l_client_pid l of
             Some p \<Rightarrow> (let (r, tr) = freeze_process_signal K p in (case r of Ok _ \<Rightarrow> True | Err _ \<Rightarrow> False, tr))
           | None \<Rightarrow> (False, []))
      in (f1 \<or> f2, tr1 @ tr2))"

text \<open>
  \<open>obs\<close> are the polls of the waiting loop that starts at time \<open>t0\<close>. The result is the
  return value with the arbiter's state, the records and the system calls made; None while
  the call is still waiting.
\<close>

definition preempt_lease ::
  "text_lib \<Rightarrow> kernel \<Rightarrow> os \<Rightarrow> nat \<Rightarrow> lease_id \<Rightarrow> arbiter_state \<Rightarrow> preempt_records \<Rightarrow> nat \<Rightarrow> (nat \<times> arbiter_state) list
   \<Rightarrow> ((error, unit) result \<times> arbiter_state \<times> preempt_records \<times> syscall list) option" where
  "preempt_lease L K h deadline i st recs t0 obs =
     (case get_lease st i of
        None \<Rightarrow> Some (Err (LeaseNotFound (uuid_show L i)), st, recs, [])
      | Some l \<Rightarrow>
          if \<not> is_active l then Some (Ok (), st, recs, [])
          else (case yield_lease L i st of
             (Err e, st1) \<Rightarrow> Some (Err e, st1, recs, [])
           | (Ok _, st1) \<Rightarrow>
               let tr1 = (case l_client_pid l of Some p \<Rightarrow> snd (send_cooperative_yield_signal K p) | None \<Rightarrow> []);
                   recs1 = add_record deadline l i recs
               in (case wait_yield i (t0 + deadline) obs of
                     None \<Rightarrow> None
                   | Some (True, st2) \<Rightarrow> Some (Ok (), st2, hm_modify i (\<lambda>r. r\<lparr>r_completed := True\<rparr>) recs1, tr1)
                   | Some (False, st2) \<Rightarrow>
                       (let (frozen, tr2) = tier2_freeze K h l in
                        case freeze_lease L i st2 of
                          (Err e, st3) \<Rightarrow> Some (Err e, st3, recs1, tr1 @ tr2)
                        | (Ok _, st3) \<Rightarrow>
                            Some (Ok (), st3,
                              hm_modify i (\<lambda>r. r\<lparr>r_tier := Tier2ForcedFreeze, r_completed := frozen\<rparr>) recs1, tr1 @ tr2)))))"

definition thaw_preempted_lease ::
  "text_lib \<Rightarrow> kernel \<Rightarrow> os \<Rightarrow> lease_id \<Rightarrow> arbiter_state \<Rightarrow> (error, unit) result \<times> arbiter_state \<times> syscall list" where
  "thaw_preempted_lease L K h i st =
     (case get_lease st i of
        None \<Rightarrow> (Err (LeaseNotFound (uuid_show L i)), st, [])
      | Some l \<Rightarrow>
          let tr1 = (case l_client_unit l of Some u \<Rightarrow> snd (thaw_cgroup K h u) | None \<Rightarrow> []);
              tr2 = (case l_client_pid l of Some p \<Rightarrow> snd (thaw_process_signal K p) | None \<Rightarrow> []);
              (r, st') = thaw_lease L i st
          in (r, st', tr1 @ tr2))"

definition revoke_preempted_lease ::
  "text_lib \<Rightarrow> lease_id \<Rightarrow> arbiter_state \<Rightarrow> preempt_records \<Rightarrow> (error, unit) result \<times> arbiter_state \<times> preempt_records" where
  "revoke_preempted_lease L i st recs =
     (case revoke_lease L i st of
        (Err e, st') \<Rightarrow> (Err e, st', recs)
      | (Ok _, st') \<Rightarrow> (Ok (), st', hm_modify i (\<lambda>r. r\<lparr>r_tier := TierRevoked, r_completed := True\<rparr>) recs))"

definition get_record :: "preempt_records \<Rightarrow> lease_id \<Rightarrow> preempt_record option" where
  "get_record recs i = hm_get recs i"

definition list_records :: "preempt_records \<Rightarrow> preempt_record list" where
  "list_records recs = hm_values recs"

section \<open>Termination of the wait\<close>

text \<open>Clocks that read at least \<open>t\<close> and advance by the sleep of the loop.\<close>

fun polled_from :: "nat \<Rightarrow> nat list \<Rightarrow> bool" where
  "polled_from t [] \<longleftrightarrow> True"
| "polled_from t (c # cs) \<longleftrightarrow> t \<le> c \<and> polled_from (c + poll_interval) cs"

lemma wait_yield_bounded:
  "polled_from t (map fst obs) \<Longrightarrow> deadline \<le> t + poll_interval * n \<Longrightarrow> n < length obs \<Longrightarrow> wait_yield i deadline obs \<noteq> None"
proof (induction obs arbitrary: t n)
  case (Cons o1 obs)
  obtain now st where o1: "o1 = (now, st)" by (cases o1)
  show ?case
  proof (cases "now < deadline \<and> \<not> gave_up st i")
    case True
    then obtain m where m: "n = Suc m" using Cons.prems o1 by (cases n) auto
    have "wait_yield i deadline obs \<noteq> None"
      by (rule Cons.IH [of "now + poll_interval" m]) (use Cons.prems o1 m in auto)
    then show ?thesis using True o1 by simp
  qed (use o1 in auto)
qed simp

lemma wait_yield_yielded:
  "wait_yield i d obs = Some (True, s) \<Longrightarrow> gave_up s i"
  by (induction obs) (auto split: if_splits)

lemma wait_yield_expired:
  "wait_yield i d obs = Some (False, s) \<Longrightarrow> \<exists>now. (now, s) \<in> set obs \<and> d \<le> now"
proof (induction obs)
  case (Cons o1 obs)
  then show ?case by (cases o1) (auto simp: not_less split: if_splits)
qed simp

lemma yield_lease_active:
  "hm_get (leases st) i = Some l \<Longrightarrow> is_active l \<Longrightarrow> yield_lease L i st = (Ok (), st\<lparr>leases := set_lease_state i Preempting (leases st)\<rparr>)"
  by (simp add: yield_lease_def mark_active_lease_def)

text \<open>C16: a preemption always comes to an end. With the deadline of the source (250 milliseconds)
  and polls 25 milliseconds apart, eleven evaluations of the loop condition suffice, whatever
  other tasks do to the lease meanwhile.\<close>

theorem preemption_terminates:
  assumes "polled_from t0 (map fst obs)" and "11 \<le> length obs"
  shows "preempt_lease L K h DEFAULT_PREEMPT_TIMEOUT i st recs t0 obs \<noteq> None"
proof -
  have "wait_yield i (t0 + DEFAULT_PREEMPT_TIMEOUT) obs \<noteq> None"
    using wait_yield_bounded [of t0 obs "t0 + DEFAULT_PREEMPT_TIMEOUT" 10 i] assms
    by (simp add: DEFAULT_PREEMPT_TIMEOUT_def poll_interval_def)
  then show ?thesis
    by (auto simp: preempt_lease_def Let_def split: option.splits sum.splits prod.splits bool.splits)
qed

theorem preemption_terminates_witness:
  "preempt_lease ex_lib ex_kernel empty_os DEFAULT_PREEMPT_TIMEOUT 1 ex_one hm_new 1000
     (map (\<lambda>n. (1000 + 25 * n, ex_one)) [0..<11]) \<noteq> None"
  by (rule preemption_terminates) (simp_all add: poll_interval_def upt_rec)

section \<open>Outcome\<close>

definition forces :: "syscall \<Rightarrow> bool" where
  "forces c = (case c of Kill _ s \<Rightarrow> s = Stop | _ \<Rightarrow> True)"

lemma yield_signal_gentle: "filter forces (snd (send_cooperative_yield_signal K p)) = []"
  by (simp add: send_cooperative_yield_signal_def signal_process_def forces_def split: option.splits)

lemma gave_up_iff: "gave_up st i \<longleftrightarrow> (\<forall>l. hm_get (leases st) i = Some l \<longrightarrow> \<not> is_active l)"
  by (auto simp: gave_up_def get_lease_def is_active_def split: option.splits)



text \<open>Thawing through the coordinator wakes the client before it asks the arbiter for the
  memory. When the memory is gone the thaw fails and the lease stays preempted, but the client
  process has already been told to continue.\<close>

lemma failed_thaw_wakes_client:
  assumes inv: "arbiter_inv st" and l: "hm_get (leases st) i = Some l" "l_state l = Preempted"
    and short: "plane_of (topology st) (l_plane_id l) = Some p" "p_available p < l_allocated l"
    and pid: "l_client_pid l = Some n" "n \<noteq> 0" "unat n < 2 ^ 31" and K: "pid_zero_invalid K"
  shows "\<exists>e tr. thaw_preempted_lease L K h i st = (Err e, st, tr) \<and> Kill (int (unat n)) Cont \<in> set tr"
proof -
  have "thaw_lease L i st = (Err (ResourceExhaustion (l_plane_id l) (l_allocated l) (p_available p)), st)"
    using l short by (simp add: thaw_lease_def)
  moreover have "sint n = int (unat n)" "0 < int (unat n)"
    using pid(2,3) uint_ge_0 [of n] by (simp_all add: sint_u32 less_le uint_0_iff)
  then have "snd (thaw_process_signal K n) = [Kill (int (unat n)) Cont]"
    using K by (simp add: thaw_process_signal_def signal_process_def pid_zero_invalid_def del: of_nat_unat)
  ultimately show ?thesis using l pid(1) by (simp add: thaw_preempted_lease_def get_lease_def Let_def)
qed

end
