(* ===== verification/Arbiter_Uma.thy ===== *)
theory Arbiter_Uma
  imports Arbiter_Runs
begin

text \<open>
  Planes that share the host memory. An integrated GPU and the host CPU draw from one pool, so
  the arbiter repeats every charge and refund of the integrated plane on the first CPU plane.
  The file shows that the two planes stay in step, and that memory is conserved on such hosts.
\<close>

section \<open>Planes in step\<close>

text \<open>
  \<open>u\<close> is the only plane with shared memory, \<open>c\<close> the first CPU plane, and both have the same
  size and the same memory available.
\<close>

definition in_step :: "string \<Rightarrow> string \<Rightarrow> hardware_topology \<Rightarrow> bool" where
  "in_step u c t \<longleftrightarrow> first_cpu t = Some c \<and> is_uma t u \<and> (\<forall>(q, k) \<in> set (skeleton t). k = IntegratedUma \<longrightarrow> q = u)
     \<and> map_option (\<lambda>p. (p_available p, p_total p)) (plane_of t u)
       = map_option (\<lambda>p. (p_available p, p_total p)) (plane_of t c)"

definition off_plane :: "string \<Rightarrow> lease_table \<Rightarrow> bool" where
  "off_plane c ls \<longleftrightarrow> (\<forall>i l. hm_get ls i = Some l \<longrightarrow> live_state (l_state l) \<longrightarrow> l_plane_id l \<noteq> c)"

text \<open>A change of a plane that depends on its sizes only.\<close>

definition sized_change :: "(compute_plane \<Rightarrow> compute_plane) \<Rightarrow> bool" where
  "sized_change f \<longleftrightarrow> (\<forall>p q. p_available p = p_available q \<longrightarrow> p_total p = p_total q \<longrightarrow> p_available (f p) = p_available (f q))"

lemma sized_changeD: "sized_change f \<Longrightarrow> p_available p = p_available q \<Longrightarrow> p_total p = p_total q \<Longrightarrow> p_available (f p) = p_available (f q)"
  unfolding sized_change_def by blast

lemma sized_take [simp]: "sized_change (take_bytes b)" and sized_give [simp]: "sized_change (give_bytes b)"
  by (simp_all add: sized_change_def take_bytes_def give_bytes_def)

lemma sized_drain [simp]: "sized_change (drain n)"
  by (simp add: sized_change_def drain_def)

lemma in_step_uma: "in_step u c t \<Longrightarrow> is_uma t q \<longleftrightarrow> q = u"
proof -
  assume s: "in_step u c t"
  have "(q, IntegratedUma) \<in> set (skeleton t)" if "is_uma t q"
    using that unfolding is_uma_def skeleton_def plane_of_def by (force dest!: find_SomeD split: option.splits)
  with s show ?thesis unfolding in_step_def by blast
qed

lemma in_step_skeleton:
  assumes "in_step u c t" and "skeleton t' = skeleton t"
    and "map_option (\<lambda>p. (p_available p, p_total p)) (plane_of t' u) = map_option (\<lambda>p. (p_available p, p_total p)) (plane_of t' c)"
  shows "in_step u c t'"
  using assms by (simp add: in_step_def first_cpu_skeleton is_uma_skeleton)

lemma in_step_change:
  assumes "in_step u c t" and "map_option f (plane_of t u) = plane_of t' u" and "map_option f (plane_of t c) = plane_of t' c"
    and "skeleton t' = skeleton t" and "sized_change f" and "frame_change f"
  shows "in_step u c t'"
proof (rule in_step_skeleton [OF assms(1,4)])
  have eq: "map_option (\<lambda>p. (p_available p, p_total p)) (plane_of t u) = map_option (\<lambda>p. (p_available p, p_total p)) (plane_of t c)"
    using assms(1) by (simp add: in_step_def)
  show "map_option (\<lambda>p. (p_available p, p_total p)) (plane_of t' u) = map_option (\<lambda>p. (p_available p, p_total p)) (plane_of t' c)"
    using eq unfolding assms(2,3) [symmetric]
    by (cases "plane_of t u"; cases "plane_of t c") (auto simp: frameD [OF assms(6)] intro: sized_changeD [OF assms(5)])
qed

lemma in_step_on_plane:
  assumes t: "in_step u c t" and "ids_distinct t" and f: "sized_change f" "frame_change f" and "r \<noteq> c"
  shows "in_step u c (on_plane f r t)"
proof (cases "r = u")
  case True
  have "touched t u u" "touched t u c" using t by (auto simp: touched_def in_step_def)
  then show ?thesis
    using True assms by (intro in_step_change [OF t _ _ _ f]) (simp_all add: plane_of_on_plane)
next
  case False
  then have "\<not> touched t r u" "\<not> touched t r c" using t assms(5) by (auto simp: touched_def in_step_uma [OF t] in_step_def)
  then show ?thesis using t assms by (intro in_step_skeleton [OF t]) (simp_all add: plane_of_on_plane in_step_def)
qed

lemma off_plane_set_state:
  "off_plane c ls \<Longrightarrow> hm_get ls i = Some l \<Longrightarrow> live_state (l_state l) \<or> \<not> live_state s \<Longrightarrow> off_plane c (set_lease_state i s ls)"
  by (auto simp: off_plane_def set_state_get)

lemma off_plane_set_active:
  "off_plane c ls \<Longrightarrow> hm_get ls i = Some l \<Longrightarrow> is_active l \<Longrightarrow> off_plane c (set_lease_state i s ls)"
  using off_plane_set_state [of c ls i l s] by (simp add: is_active_def)

lemma in_step_bytes:
  assumes "in_step u c t" and "ids_distinct t" and "r \<noteq> c"
  shows "in_step u c (on_plane (take_bytes b) r t)" and "in_step u c (on_plane (give_bytes b) r t)"
  using assms by (simp_all add: in_step_on_plane)

section \<open>Operations\<close>

text \<open>No lease is placed on the CPU plane itself, and a new topology has the planes in step.\<close>

fun spares :: "string \<Rightarrow> string \<Rightarrow> arbiter_op \<Rightarrow> arbiter_state \<Rightarrow> bool" where
  "spares u c (OpAcquire psi i now pr b pref un pid) st \<longleftrightarrow>
     (case select_plane (planes (topology st)) pr pref of
        Ok idx \<Rightarrow> p_id (planes (topology st) ! idx) \<noteq> c
      | Err _ \<Rightarrow> True)"
| "spares u c (OpUpdateTopology t) st \<longleftrightarrow> in_step u c t"
| "spares u c opn st \<longleftrightarrow> True"

definition in_step_tables :: "string \<Rightarrow> string \<Rightarrow> hardware_topology \<Rightarrow> lease_table \<Rightarrow> bool" where
  "in_step_tables u c t ls \<longleftrightarrow> core t ls \<and> in_step u c t \<and> off_plane c ls"

lemma preempt_loop_in_step:
  assumes "preempt_loop idx plane req (preemptable ls plane pr) t ls [] = (t', ls', fz')"
    and s: "in_step_tables u c t ls" and "plane \<noteq> c"
  shows "in_step_tables u c t' ls'"
proof (rule preempt_loop_rule [OF assms(1) preemptable_ok, where P = "\<lambda>t ls fz. in_step_tables u c t ls"])
  show "leases_ok ls" using s by (simp add: in_step_tables_def core_def)
next
  fix t ls i l
  assume s: "in_step_tables u c t ls" and l: "hm_get ls i = Some l" "is_active l"
  then have "core (restore_plane_memory t plane (l_allocated l)) (set_lease_state i Preempted ls)"
    by (intro core_restore core_set_state [OF _ l(1)]) (simp_all add: in_step_tables_def is_active_def)
  with s l assms(3) show "in_step_tables u c (restore_plane_memory t plane (l_allocated l)) (set_lease_state i Preempted ls)"
    by (auto simp: in_step_tables_def restore_plane_memory_def core_ids is_active_def
        intro!: in_step_on_plane off_plane_set_state [OF _ l(1)])
qed (rule s)

lemma acquire_in_step:
  assumes "acquire_lease psi i now pr req pref un pid st = (r, st', fx)" and fresh: "hm_get (leases st) i = None"
    and s: "in_step_tables u c (topology st) (leases st)" and sp: "spares u c (OpAcquire psi i now pr req pref un pid) st"
  shows "in_step u c (topology st') \<and> off_plane c (leases st')"
  using assms(1)
proof (cases rule: acquire_cases)
  case (exhausted idx plane t1 ls1 fz)
  then show ?thesis using preempt_loop_in_step [OF exhausted(4) s] sp by (simp add: in_step_tables_def)
next
  case (granted idx plane t1 ls1 fz lease)
  have c0: "core (topology st) (leases st)" using s by (simp add: in_step_tables_def)
  have ne: "plane \<noteq> c" using sp granted by simp
  have s1: "in_step_tables u c t1 ls1" by (rule preempt_loop_in_step [OF granted(4) s ne])
  then have c1: "core t1 ls1" "in_step u c t1" "off_plane c ls1" by (simp_all add: in_step_tables_def)
  have "in_step u c (charge_at idx req t1)"
    unfolding granted_charge(1) [OF c0 fresh granted(2,3,4,6)]
    using ne c1 core_ids by (intro in_step_on_plane) simp_all
  moreover have "off_plane c (hm_insert i lease (prune_leases ls1))"
    using c1 ne by (auto simp: off_plane_def prune_get [OF core_wf [OF c1(1)]] granted(6) new_lease_def split: option.splits if_splits)
  ultimately show ?thesis using granted by simp
qed (use s in \<open>simp_all add: in_step_tables_def\<close>)

lemma end_lease_in_step:
  assumes "end_lease s L i st = (r, st')" and "in_step_tables u c (topology st) (leases st)" and "\<not> live_state s"
  shows "in_step u c (topology st') \<and> off_plane c (leases st')"
proof -
  have d: "ids_distinct (topology st)" using assms(2) core_ids by (auto simp: in_step_tables_def)
  have "l_plane_id l \<noteq> c" if "hm_get (leases st) i = Some l" "is_active l" for l
    using that assms(2) by (auto simp: in_step_tables_def off_plane_def is_active_def)
  then show ?thesis
    using assms d
    by (auto simp: end_lease_def in_step_tables_def restore_plane_memory_def
        intro: in_step_bytes off_plane_set_state split: option.splits if_splits)
qed

lemma mark_active_in_step:
  assumes "mark_active_lease s L i st = (r, st')" and "in_step_tables u c (topology st) (leases st)"
  shows "in_step u c (topology st') \<and> off_plane c (leases st')"
  using assms by (auto simp: mark_active_lease_def in_step_tables_def intro: off_plane_set_active split: option.splits if_splits)

lemma thaw_in_step:
  assumes "thaw_lease L i st = (r, st')" and s: "in_step_tables u c (topology st) (leases st)"
  shows "in_step u c (topology st') \<and> off_plane c (leases st')"
proof -
  have c: "core (topology st) (leases st)" "off_plane c (leases st)" "in_step u c (topology st)"
    using s by (simp_all add: in_step_tables_def)
  show ?thesis
    using assms(1) c(1)
  proof (cases rule: thaw_cases)
    case same
    then show ?thesis using c by (auto intro: off_plane_set_active)
  next
    case (charged l)
    have "live_state (l_state l)" "l_plane_id l \<noteq> c" using charged(1,2) c(2) by (auto simp: off_plane_def)
    then show ?thesis
      using charged c by (auto intro!: in_step_bytes core_ids off_plane_set_state [OF c(2) charged(1)])
  qed
qed

lemma update_in_step:
  assumes s: "in_step_tables u c (topology st) (leases st)" and t: "topo_ok t" "in_step u c t"
  shows "in_step u c (topology (update_topology t st)) \<and> off_plane c (leases (update_topology t st))"
proof -
  obtain ls' t' where r: "rebind_leases (leases st) t = (ls', t')" by (cases "rebind_leases (leases st) t")
  note spec = rebind_leases_spec [OF _ r]
  have d: "ids_distinct t" using t(1) by (simp add: topo_ok_def)
  have get: "hm_get ls' i = map_option (rebound t) (hm_get (leases st) i)" for i
    using spec d by (simp add: hm_get_def map_of_map)
  have "live_state (l_state (rebound t l)) \<Longrightarrow> live_state (l_state l) \<and> l_plane_id (rebound t l) = l_plane_id l" for l
    by (simp add: rebound_def split: if_splits)
  then have off: "off_plane c ls'"
    using s get by (fastforce simp: in_step_tables_def off_plane_def)
  have wf: "hm_wf ls'"
    using s spec [OF d] by (auto simp: in_step_tables_def core_def leases_ok_def hm_wf_def comp_def case_prod_beta)
  have "contrib t u l = contrib t c l" if "(i, l) \<in> set ls'" for i l
  proof -
    have "hm_get ls' i = Some l" using that wf by (simp add: hm_get_Some_iff)
    then have "is_active l \<Longrightarrow> l_plane_id l \<noteq> c" using off by (auto simp: off_plane_def is_active_def)
    then show ?thesis using t(2) by (auto simp: contrib_def touched_def in_step_uma [OF t(2)] in_step_def)
  qed
  then have "demand t ls' u = demand t ls' c"
    unfolding demand_def by (intro arg_cong [where f = sum_list] map_cong) auto
  then have "in_step u c t'"
    using spec [OF d] by (intro in_step_change [OF t(2), of "drain (demand t ls' c)"]) (auto simp: frame_change_def drain_def)
  with off r show ?thesis by (simp add: update_topology_def)
qed

definition shared_in_step :: "string \<Rightarrow> string \<Rightarrow> arbiter_state \<Rightarrow> bool" where
  "shared_in_step u c st \<longleftrightarrow> arbiter_inv st \<and> in_step u c (topology st) \<and> off_plane c (leases st)"

lemma exec_op_in_step:
  assumes "shared_in_step u c st" and "op_ok opn st" and "spares u c opn st"
  shows "in_step u c (topology (exec_op L opn st)) \<and> off_plane c (leases (exec_op L opn st))"
proof -
  have s: "in_step_tables u c (topology st) (leases st)"
    using assms(1) by (simp add: shared_in_step_def in_step_tables_def arbiter_inv_core)
  have nl: "\<not> live_state Expired" "\<not> live_state Revoked" by simp_all
  show ?thesis
  proof (cases opn)
    case (OpAcquire psi i now pr b pref un pid)
    then show ?thesis
      using assms(2,3) acquire_in_step [OF _ _ s, of psi i now pr b pref un pid]
      by (cases "acquire_lease psi i now pr b pref un pid st") simp
  next
    case (OpRelease i)
    then show ?thesis using end_lease_in_step [OF prod.collapse [symmetric] s nl(1), of L i] by (simp add: release_lease_def)
  next
    case (OpRevoke i)
    then show ?thesis using end_lease_in_step [OF prod.collapse [symmetric] s nl(2), of L i] by (simp add: revoke_lease_def)
  next
    case (OpYield i)
    then show ?thesis using mark_active_in_step [OF prod.collapse [symmetric] s] by (simp add: yield_lease_def)
  next
    case (OpFreeze i)
    then show ?thesis using mark_active_in_step [OF prod.collapse [symmetric] s] by (simp add: freeze_lease_def)
  next
    case (OpThaw i)
    then show ?thesis using thaw_in_step [OF prod.collapse [symmetric] s, of L i] by simp
  next
    case (OpUpdateTopology t)
    then show ?thesis using update_in_step [OF s] assms(2,3) by simp
  qed (use s in \<open>simp_all add: in_step_tables_def register_model_def remove_model_def pin_model_for_triage_def case_prod_beta\<close>)
qed

interpretation shared: transition_invariant "guarded_step (spares u c) L" "shared_in_step u c" for u c L
proof
  fix st st' assume s: "shared_in_step u c st" and "guarded_step (spares u c) L st st'"
  moreover from this have "arbiter_inv st'" using guarded_step_inv by (auto simp: shared_in_step_def)
  ultimately show "shared_in_step u c st'"
    using exec_op_in_step [OF s] hm_get_reorder [of "leases st"]
    by (elim guarded_stepE) (auto simp: shared_in_step_def off_plane_def arbiter_inv_def leases_ok_def)
qed

text \<open>A grant on the shared plane that fits there fits on the CPU plane too, so memory stays balanced.\<close>

definition spares_unforced :: "string \<Rightarrow> string \<Rightarrow> arbiter_op \<Rightarrow> arbiter_state \<Rightarrow> bool" where
  "spares_unforced u c opn st \<longleftrightarrow> spares u c opn st \<and> unforced_op opn st"

lemma in_step_touched:
  assumes "in_step u c t" and "touched t r q" and "plane_of t r = Some p" and "plane_of t q = Some p'"
  shows "p_available p' = p_available p"
proof (cases "q = r")
  case False
  with assms(1,2) have "r = u" "q = c" by (auto simp: touched_def in_step_uma [OF assms(1)] in_step_def)
  with assms show ?thesis by (simp add: in_step_def)
qed (use assms in simp)

lemma exec_op_shared_balanced:
  assumes s: "shared_in_step u c st" and b: "balanced base (topology st) (leases st)"
    and ok: "op_ok opn st" and g: "spares_unforced u c opn st"
  shows "balanced base (topology (exec_op L opn st)) (leases (exec_op L opn st))"
proof -
  have tables: "in_step_tables u c (topology st) (leases st)" and co: "core (topology st) (leases st)"
    using s by (simp_all add: shared_in_step_def in_step_tables_def arbiter_inv_core)
  show ?thesis
  proof (rule exec_op_balanced_if [OF co _ b])
    show "keeps_topology opn" using g by (cases opn) (simp_all add: spares_unforced_def)
    fix psi i now pr req pref un pid r st' fx
    assume o: "opn = OpAcquire psi i now pr req pref un pid" and a: "acquire_lease psi i now pr req pref un pid st = (r, st', fx)"
    have fresh: "hm_get (leases st) i = None" and unf: "unforced_op (OpAcquire psi i now pr req pref un pid) st"
      using ok g o by (auto simp: spares_unforced_def)
    show "balanced base (topology st') (leases st')"
    proof (rule acquire_balanced_if [OF a co fresh b unf])
      fix idx plane t1 ls1 fz q p
      assume sel: "select_plane (planes (topology st)) pr pref = Ok idx" "plane = p_id (planes (topology st) ! idx)"
        and loop: "preempt_loop idx plane req (preemptable (leases st) plane pr) (topology st) (leases st) [] = (t1, ls1, fz)"
        and own: "plane_of t1 plane = Some (planes t1 ! idx)"
        and q: "req \<le> p_available (planes t1 ! idx)" "touched t1 plane q" "plane_of t1 q = Some p"
      have "plane \<noteq> c" using g o sel by (simp add: spares_unforced_def)
      then have "in_step u c t1" using preempt_loop_in_step [OF loop tables] by (simp add: in_step_tables_def)
      from in_step_touched [OF this q(2) own q(3)] q(1) show "req \<le> p_available p" by simp
    qed
  qed
qed

definition shared_balanced :: "string \<Rightarrow> string \<Rightarrow> (string \<Rightarrow> nat) \<Rightarrow> arbiter_state \<Rightarrow> bool" where
  "shared_balanced u c base st \<longleftrightarrow> shared_in_step u c st \<and> balanced base (topology st) (leases st)"

lemma guarded_step_mono: "guarded_step G L s t \<Longrightarrow> (\<And>opn st. G opn st \<Longrightarrow> H opn st) \<Longrightarrow> guarded_step H L s t"
  by (erule guarded_step.cases) (auto intro: guarded_step.intros)

interpretation conserved: transition_invariant "guarded_step (spares_unforced u c) L" "shared_balanced u c base" for u c L base
proof
  fix st st' assume b: "shared_balanced u c base st" and s: "guarded_step (spares_unforced u c) L st st'"
  have step: "shared_in_step u c st'"
    using shared.step_inv [of u c st L st'] guarded_step_mono [OF s, of "spares u c"] b
    by (simp add: shared_balanced_def spares_unforced_def)
  from s show "shared_balanced u c base st'"
  proof (elim guarded_stepE)
    fix opn assume "op_ok opn st" "spares_unforced u c opn st" "st' = exec_op L opn st"
    with b step exec_op_shared_balanced [of u c st base opn L] show ?thesis by (simp add: shared_balanced_def)
  next
    fix ls assume "hm_reorder (leases st) ls" "st' = st\<lparr>leases := ls\<rparr>"
    with b step show ?thesis by (simp add: shared_balanced_def balanced_def demand_reorder)
  qed
qed

section \<open>Shared memory over whole runs\<close>

lemma shared_start: "topo_ok t \<Longrightarrow> in_step u c t \<Longrightarrow> shared_in_step u c (new_arbiter t)"
  by (simp add: shared_in_step_def new_arbiter_inv) (simp add: new_arbiter_def off_plane_def)

lemma shared_balanced_start: "topo_ok t \<Longrightarrow> in_step u c t \<Longrightarrow> shared_balanced u c (base_of t) (new_arbiter t)"
  using base_bound [of t] shared_start [of t u c] by (auto simp: shared_balanced_def balanced_def base_of_def new_arbiter_def)

lemma off_plane_demand:
  assumes "shared_in_step u c st"
  shows "demand (topology st) (leases st) u = held_on st u"
proof -
  have n: "first_cpu (topology st) \<noteq> Some u"
    using assms first_cpu_not_uma [of "topology st" u] by (auto simp: shared_in_step_def in_step_def arbiter_inv_def topo_ok_def)
  have "sum_list (map (\<lambda>(_, l). contrib (topology st) u l) ls)
      = sum_list (map (\<lambda>l. unat (l_allocated l)) (filter (\<lambda>l. is_active l \<and> l_plane_id l = u) (hm_values ls)))" for ls
    by (induction ls) (auto simp: contrib_def hm_values_def touched_def n)
  then show ?thesis by (simp add: demand_def held_on_def list_leases_def)
qed


definition ex_shared :: hardware_topology where
  "ex_shared = \<lparr>planes = [ex_plane ''uma0'' IntegratedUma 1000 1000, ex_plane ''cpu0'' CpuMatrixExtension 1000 1000],
     total_ram = 2000, available_ram = 2000, cpu_cores_total = 4, numa_nodes = 1\<rparr>"

definition ask_uma :: "lease_id \<Rightarrow> lease_priority \<Rightarrow> u64 \<Rightarrow> arbiter_op" where
  "ask_uma i pr b = OpAcquire calm i 0 pr b (Some ''uma0'') None (Some 7)"

definition ex_shared_two :: arbiter_state where
  "ex_shared_two = exec_op ex_lib (ask_uma 2 Interactive 700) (exec_op ex_lib (ask_uma 1 Batch 600) (new_arbiter ex_shared))"

lemma ex_shared_ok: "topo_ok ex_shared" "in_step ''uma0'' ''cpu0'' ex_shared"
proof -
  show "topo_ok ex_shared" by (simp add: topo_ok_def ids_distinct_def bounded_planes_def ex_shared_def ex_plane_def)
  show "in_step ''uma0'' ''cpu0'' ex_shared"
    by (simp add: in_step_def first_cpu_def is_cpu_plane_def is_uma_def plane_of_def skeleton_def ex_shared_def ex_plane_def)
qed

lemma ex_shared_run:
  assumes "G (ask_uma 1 Batch 600) (new_arbiter ex_shared)" and "G (ask_uma 2 Interactive 700) (exec_op ex_lib (ask_uma 1 Batch 600) (new_arbiter ex_shared))"
  shows "(guarded_step G ex_lib)\<^sup>*\<^sup>* (new_arbiter ex_shared) ex_shared_two"
proof -
  have "op_ok (ask_uma 1 Batch 600) (new_arbiter ex_shared)"
    "op_ok (ask_uma 2 Interactive 700) (exec_op ex_lib (ask_uma 1 Batch 600) (new_arbiter ex_shared))" by code_simp+
  with assms have "guarded_step G ex_lib (new_arbiter ex_shared) (exec_op ex_lib (ask_uma 1 Batch 600) (new_arbiter ex_shared))"
    "guarded_step G ex_lib (exec_op ex_lib (ask_uma 1 Batch 600) (new_arbiter ex_shared)) ex_shared_two"
    unfolding ex_shared_two_def by (auto intro: guarded_step.op)
  then show ?thesis by (meson rtranclp.rtrancl_into_rtrancl rtranclp.rtrancl_refl)
qed


text \<open>A lease on the CPU plane itself is not charged to the integrated plane, so from then on the
  integrated plane offers host memory that is taken: the arbiter grants it a second time.\<close>

lemma cpu_lease_leaves_uma:
  "case acquire_lease calm 1 0 Interactive 1000 (Some ''cpu0'') None None (new_arbiter ex_shared) of
     (r1, st1, _) \<Rightarrow>
       (case acquire_lease calm 2 0 Interactive 1000 (Some ''uma0'') None None st1 of
          (r2, st2, _) \<Rightarrow> isl r1 = False \<and> isl r2 = False \<and> demand (topology st2) (leases st2) ''cpu0'' = 2000)"
  by code_simp

end
