(* ===== verification/Json.thy ===== *)
theory Json
  imports Floats
begin

text \<open>
  JSON values as the \<^verbatim>\<open>serde_json\<close> library presents them to the daemon. Text is turned into
  values and back by that library, so the components take these functions as arguments; what
  the daemon does with the values is modelled here.
\<close>

datatype json =
    JNull
  | JBool bool
  | JInt int
  | JFloat float_value
  | JStr string
  | JArr "json list"
  | JObj "(string \<times> json) list"

definition json_get :: "string \<Rightarrow> json \<Rightarrow> json option" where
  "json_get k v = (case v of JObj kvs \<Rightarrow> map_of kvs k | _ \<Rightarrow> None)"

definition as_str :: "json \<Rightarrow> string option" where
  "as_str v = (case v of JStr s \<Rightarrow> Some s | _ \<Rightarrow> None)"

definition as_u64 :: "json \<Rightarrow> u64 option" where
  "as_u64 v = (case v of JInt n \<Rightarrow> if 0 \<le> n \<and> n < 2 ^ 64 then Some (word_of_int n) else None | _ \<Rightarrow> None)"

definition as_bool :: "json \<Rightarrow> bool option" where
  "as_bool v = (case v of JBool b \<Rightarrow> Some b | _ \<Rightarrow> None)"

definition as_array :: "json \<Rightarrow> json list option" where
  "as_array v = (case v of JArr xs \<Rightarrow> Some xs | _ \<Rightarrow> None)"

text \<open>\<open>v.get(k).and_then(|v| v.as_str())\<close> and its like.\<close>

definition get_str :: "string \<Rightarrow> json \<Rightarrow> string option" where
  "get_str k v = Option.bind (json_get k v) as_str"

definition get_u64 :: "string \<Rightarrow> json \<Rightarrow> u64 option" where
  "get_u64 k v = Option.bind (json_get k v) as_u64"

definition or_else :: "'a option \<Rightarrow> 'a \<Rightarrow> 'a" where
  "or_else o1 d = (case o1 of Some x \<Rightarrow> x | None \<Rightarrow> d)"

definition json_u64 :: "u64 \<Rightarrow> json" where
  "json_u64 w = JInt (int (unat w))"

definition json_opt :: "('a \<Rightarrow> json) \<Rightarrow> 'a option \<Rightarrow> json" where
  "json_opt f o1 = (case o1 of Some x \<Rightarrow> f x | None \<Rightarrow> JNull)"

text \<open>Infinities and not-a-number have no JSON form.\<close>

definition json_float :: "float_value \<Rightarrow> json" where
  "json_float v = (case v of Fin _ \<Rightarrow> JFloat v | NegZero \<Rightarrow> JFloat v | _ \<Rightarrow> JNull)"

lemma as_u64_json [simp]: "as_u64 (json_u64 w) = Some w"
proof -
  have "unat w < 2 ^ 64" using unsigned_less [of w, where ?'a = nat] by simp
  then have "int (unat w) < 2 ^ 64" by (metis of_nat_less_iff of_nat_numeral of_nat_power)
  then show ?thesis by (simp add: as_u64_def json_u64_def)
qed

end
