(* ===== verification/Utf8.thy ===== *)
theory Utf8
  imports Rust_Str
begin

text \<open>
  UTF-8 as Rust's \<open>std::str::from_utf8\<close> and \<open>String::from_utf8_lossy\<close> treat it: no overlong
  forms, no surrogates, nothing above U+10FFFF, and an invalid maximal prefix becomes one
  replacement character.
\<close>

abbreviation byte :: "char \<Rightarrow> nat" where "byte c \<equiv> of_char c"

text \<open>The ranges of the bytes that must follow a leading byte.\<close>

definition utf8_follow :: "char \<Rightarrow> (nat \<times> nat) list option" where
  "utf8_follow c =
     (let b = byte c; cont = (128, 191) in
      if b < 128 then Some []
      else if 194 \<le> b \<and> b \<le> 223 then Some [cont]
      else if b = 224 then Some [(160, 191), cont]
      else if b = 237 then Some [(128, 159), cont]
      else if 225 \<le> b \<and> b \<le> 239 then Some [cont, cont]
      else if b = 240 then Some [(144, 191), cont, cont]
      else if 241 \<le> b \<and> b \<le> 243 then Some [cont, cont, cont]
      else if b = 244 then Some [(128, 143), cont, cont]
      else None)"

fun follow_len :: "(nat \<times> nat) list \<Rightarrow> string \<Rightarrow> nat" where
  "follow_len ((lo, hi) # rs) (c # cs) = (if lo \<le> byte c \<and> byte c \<le> hi then Suc (follow_len rs cs) else 0)"
| "follow_len _ _ = 0"

text \<open>Whether a sequence starts at this byte, and how many bytes after it belong to the attempt.\<close>

definition utf8_step :: "char \<Rightarrow> string \<Rightarrow> bool \<times> nat" where
  "utf8_step c cs =
     (case utf8_follow c of
        None \<Rightarrow> (False, 0)
      | Some rs \<Rightarrow> (follow_len rs cs = length rs, follow_len rs cs))"

fun utf8_valid :: "string \<Rightarrow> bool" where
  "utf8_valid [] \<longleftrightarrow> True"
| "utf8_valid (c # cs) \<longleftrightarrow> fst (utf8_step c cs) \<and> utf8_valid (drop (snd (utf8_step c cs)) cs)"

definition utf8_replacement :: string where
  "utf8_replacement = [CHR 0xEF, CHR 0xBF, CHR 0xBD]"

fun utf8_lossy :: "string \<Rightarrow> string" where
  "utf8_lossy [] = []"
| "utf8_lossy (c # cs) =
     (if fst (utf8_step c cs) then c # take (snd (utf8_step c cs)) cs else utf8_replacement)
     @ utf8_lossy (drop (snd (utf8_step c cs)) cs)"

definition from_utf8 :: "string \<Rightarrow> string option" where
  "from_utf8 s = (if utf8_valid s then Some s else None)"

lemma utf8_step_ascii: "byte c < 128 \<Longrightarrow> utf8_step c cs = (True, 0)"
  by (simp add: utf8_step_def utf8_follow_def)

lemma utf8_valid_ascii: "\<forall>c \<in> set s. byte c < 128 \<Longrightarrow> utf8_valid s"
  by (induction s) (simp_all add: utf8_step_ascii)

lemma utf8_lossy_valid: "utf8_valid s \<Longrightarrow> utf8_lossy s = s"
  by (induction s rule: utf8_lossy.induct) simp_all

end
