(* ===== verification/Peer.thy ===== *)
theory Peer
  imports Utf8 Lease
begin

text \<open>
  Peer attribution (\<^verbatim>\<open>crates/inferenced-core/src/peer.rs\<close>): the credentials of a connected
  socket and the slice of the peer's control group. \<open>rd path\<close> is what one read of up to 512
  bytes of that file returned.
\<close>

record peer_info =
  peer_pid :: u32
  peer_uid :: u32
  peer_gid :: u32
  cgroup_path :: string
  slice :: string
  is_container :: bool
  is_batch :: bool

fun cgroup_line :: "string list \<Rightarrow> string option" where
  "cgroup_line [] = None"
| "cgroup_line (l # ls) =
     (case strip_prefix ''0::'' l of
        Some p \<Rightarrow> if trim p \<noteq> [] then Some (trim p) else cgroup_line ls
      | None \<Rightarrow> cgroup_line ls)"

definition read_cgroup_path :: "(string \<Rightarrow> string option) \<Rightarrow> u32 \<Rightarrow> string option" where
  "read_cgroup_path rd pid =
     (case rd (''/proc/'' @ show_nat (unat pid) @ ''/cgroup'') of
        None \<Rightarrow> None
      | Some buf \<Rightarrow> (case from_utf8 buf of None \<Rightarrow> None | Some content \<Rightarrow> cgroup_line (str_lines content)))"

definition parse_slice_and_flags :: "string \<Rightarrow> string \<times> bool \<times> bool" where
  "parse_slice_and_flags path =
     (let container = contains ''machine.slice'' path;
          batch = contains ''ai-batch.slice'' path;
          s = (case find (ends_with ''.slice'') (split_on (CHR ''/'') path) of
                 Some seg \<Rightarrow> seg
               | None \<Rightarrow> if container then ''machine.slice'' else if batch then ''ai-batch.slice'' else ''system.slice'')
      in (s, container, batch))"

definition mock_peer :: "u32 \<Rightarrow> u32 \<Rightarrow> u32 \<Rightarrow> string \<Rightarrow> peer_info" where
  "mock_peer pid uid gid path =
     (let (s, container, batch) = parse_slice_and_flags path in
      \<lparr>peer_pid = pid, peer_uid = uid, peer_gid = gid, cgroup_path = path, slice = s,
       is_container = container, is_batch = batch\<rparr>)"

text \<open>\<open>cred\<close> is the result of \<open>SO_PEERCRED\<close>: the raw process id with user and group.\<close>

definition from_socket ::
  "(string \<Rightarrow> string option) \<Rightarrow> (string, int \<times> u32 \<times> u32) result \<Rightarrow> (error, peer_info) result" where
  "from_socket rd cred =
     (case cred of
        Err e \<Rightarrow> Err (SystemdError (''Failed to retrieve SO_PEERCRED: '' @ e))
      | Ok (raw_pid, uid, gid) \<Rightarrow>
          let pid = (if 0 < raw_pid then word_of_int raw_pid else 0);
              path = (if 0 < pid
                      then (case read_cgroup_path rd pid of Some p \<Rightarrow> p | None \<Rightarrow> ''/system.slice'')
                      else ''/system.slice'')
          in Ok (mock_peer pid uid gid path))"

section \<open>Attribution\<close>

lemma split_on_slash: "CHR ''/'' \<notin> set a \<Longrightarrow> split_on (CHR ''/'') (CHR ''/'' # a @ CHR ''/'' # b) = [] # a # split_on (CHR ''/'') b"
  by (simp add: split_on_append)

text \<open>A client whose control group lies in a top-level slice is attributed to that slice as a
  whole: neither its own service or scope nor any slice nested in between appears.\<close>

theorem peer_attributed_to_top_slice:
  assumes "CHR ''/'' \<notin> set a" and "ends_with ''.slice'' a"
    and "rd (''/proc/'' @ show_nat (unat pid) @ ''/cgroup'') = Some (''0::/'' @ a @ ''/'' @ b @ [nl])"
    and "0 < pid" and "sint pid > 0" and "utf8_valid (''0::/'' @ a @ ''/'' @ b @ [nl])"
    and "\<forall>c \<in> set (a @ b). \<not> is_ws c"
  shows "\<exists>p. from_socket rd (Ok (sint pid, uid, gid)) = Ok p \<and> slice p = a \<and> peer_pid p = pid
    \<and> cgroup_path p = ''/'' @ a @ ''/'' @ b"
proof -
  let ?path = "''/'' @ a @ ''/'' @ b"
  have ws: "is_ws nl" "is_ws cr" by (simp_all add: is_ws_def)
  have nows: "\<forall>c \<in> set (''0::/'' @ a @ ''/'' @ b). \<not> is_ws c" using assms(7) by (auto simp: is_ws_def)
  have "str_lines ((''0::/'' @ a @ ''/'' @ b) @ [nl]) = [''0::/'' @ a @ ''/'' @ b]"
    using nows ws str_lines_join [of "[''0::/'' @ a @ ''/'' @ b]"] by (auto simp: join_lines_def)
  moreover have trim: "trim ?path = ?path"
  proof -
    have dw: "dropWhile is_ws s = s" if "\<forall>c \<in> set s. \<not> is_ws c" for s using that by (cases s) simp_all
    have "\<forall>c \<in> set ?path. \<not> is_ws c" "\<forall>c \<in> set (rev ?path). \<not> is_ws c" using nows by auto
    from dw [OF this(1)] dw [OF this(2)] show ?thesis by (simp only: trim_def trim_start_def trim_end_def rev_rev_ident)
  qed
  moreover have "strip_prefix ''0::'' (''0::'' @ ?path) = Some ?path" by (rule strip_prefix_append)
  ultimately have "read_cgroup_path rd pid = Some ?path"
    using assms(3,6) by (simp add: read_cgroup_path_def from_utf8_def)
  moreover have "fst (parse_slice_and_flags ?path) = a"
    using assms(1,2) by (simp add: parse_slice_and_flags_def Let_def split_on_append ends_with_def)
  ultimately show ?thesis
    using assms(4,5) by (simp add: from_socket_def mock_peer_def case_prod_beta Let_def)
qed

definition ex_cgroups :: "string \<Rightarrow> string option" where
  "ex_cgroups p = (if p = ''/proc/7/cgroup'' then Some (''0::/system.slice/chat.service'' @ [nl]) else None)"

theorem peer_attributed_to_top_slice_witness:
  "\<exists>p. from_socket ex_cgroups (Ok (7, 1000, 1000)) = Ok p \<and> slice p = ''system.slice''"
proof -
  have "CHR ''/'' \<notin> set ''system.slice''" "ends_with ''.slice'' ''system.slice''"
    "ex_cgroups (''/proc/'' @ show_nat (unat (7 :: u32)) @ ''/cgroup'') = Some (''0::/'' @ ''system.slice'' @ ''/'' @ ''chat.service'' @ [nl])"
    "0 < (7 :: u32)" "sint (7 :: u32) > 0" "utf8_valid (''0::/'' @ ''system.slice'' @ ''/'' @ ''chat.service'' @ [nl])"
    "\<forall>c \<in> set (''system.slice'' @ ''chat.service''). \<not> is_ws c" by code_simp+
  from peer_attributed_to_top_slice [where rd = ex_cgroups and a = "''system.slice''" and b = "''chat.service''" and pid = 7, OF this, of 1000 1000]
  show ?thesis by auto
qed

end
