(* ===== verification/Varlink.thy ===== *)
theory Varlink
  imports Json Peer Arbiter_Ops
begin

text \<open>
  The Varlink server (\<^verbatim>\<open>crates/inferenced-daemon/src/varlink/\<close>): the protocol's messages, the
  handlers, the dispatch by name, framing, and the life of a connection with the reclaiming
  of its leases. JSON text comes from a library: \<open>json_lib\<close> decodes a request and encodes a
  reply.
\<close>

section \<open>Protocol\<close>

record varlink_request =
  q_method :: string
  q_parameters :: "json option"
  q_more :: "bool option"
  q_oneway :: "bool option"

record varlink_reply =
  v_parameters :: "json option"
  v_continues :: "bool option"
  v_error :: "string option"

record json_lib =
  decode_request :: "string \<Rightarrow> (string, varlink_request) result"
  encode_reply :: "varlink_reply \<Rightarrow> string"

definition reply_ok :: "json \<Rightarrow> varlink_reply" where
  "reply_ok p = \<lparr>v_parameters = Some p, v_continues = None, v_error = None\<rparr>"

definition reply_streaming :: "json \<Rightarrow> bool \<Rightarrow> varlink_reply" where
  "reply_streaming p c = \<lparr>v_parameters = Some p, v_continues = Some c, v_error = None\<rparr>"

definition reply_error :: "string \<Rightarrow> json \<Rightarrow> varlink_reply" where
  "reply_error e p = \<lparr>v_parameters = Some p, v_continues = None, v_error = Some e\<rparr>"

definition to_bytes :: "json_lib \<Rightarrow> varlink_reply \<Rightarrow> string" where
  "to_bytes J r = encode_reply J r @ [nul]"

definition parse_request :: "json_lib \<Rightarrow> string \<Rightarrow> (string, varlink_request) result" where
  "parse_request J bytes =
     (let clean = (if bytes \<noteq> [] \<and> last bytes = nul then butlast bytes else bytes) in
      map_sum (\<lambda>e. ''Invalid Varlink JSON: '' @ e) (\<lambda>r. r) (decode_request J clean))"

definition make_method_not_found :: "json_lib \<Rightarrow> string \<Rightarrow> string" where
  "make_method_not_found J m =
     to_bytes J (reply_error ''org.varlink.service.MethodNotFound'' (JObj [(''method'', JStr m)]))"

definition make_invalid_parameter :: "json_lib \<Rightarrow> string \<Rightarrow> string" where
  "make_invalid_parameter J p =
     to_bytes J (reply_error ''org.varlink.service.InvalidParameter'' (JObj [(''parameter'', JStr p)]))"

section \<open>Introspection\<close>

definition ORG_VARLINK_SERVICE_IDL :: string where
  "ORG_VARLINK_SERVICE_IDL = join_lines
    [''interface org.varlink.service'',
     [],
     ''method GetInfo() -> ('',
     ''  vendor: string,'',
     ''  product: string,'',
     ''  version: string,'',
     ''  url: string,'',
     ''  interfaces: []string'',
     '')'',
     [],
     ''method GetInterfaceDescription(interface: string) -> (description: string)'',
     [],
     ''error InterfaceNotFound (interface: string)'',
     ''error MethodNotFound (method: string)'',
     ''error MethodNotImplemented (method: string)'',
     ''error InvalidParameter (parameter: string)'']"

definition IO_SYNTROP_INFERENCE1_IDL :: string where
  "IO_SYNTROP_INFERENCE1_IDL = join_lines
    [''interface io.syntrop.Inference1'',
     [],
     ''type ComputePlane ('',
     ''  id: string,'',
     ''  name: string,'',
     ''  kind: string,'',
     ''  total_memory: int,'',
     ''  available_memory: int,'',
     ''  is_triage_reserved: bool'',
     '')'',
     [],
     ''type LeaseInfo ('',
     ''  id: string,'',
     ''  plane_id: string,'',
     ''  allocated_memory: int,'',
     ''  priority: string,'',
     ''  state: string,'',
     ''  client_unit: ?string,'',
     ''  client_pid: ?int'',
     '')'',
     [],
     ''type ModelInfo ('',
     ''  id: string,'',
     ''  format: string,'',
     ''  path: string,'',
     ''  estimated_memory: int,'',
     ''  placement: string'',
     '')'',
     [],
     ''method GetStatus() -> ('',
     ''  status: string,'',
     ''  version: string,'',
     ''  daemon: string,'',
     ''  planes_count: int,'',
     ''  leases_count: int,'',
     ''  pressure: string'',
     '')'',
     [],
     ''method ListPlanes() -> ('',
     ''  planes: []ComputePlane'',
     '')'',
     [],
     ''method GetTopology() -> ('',
     ''  planes: []ComputePlane,'',
     ''  total_ram: int,'',
     ''  available_ram: int,'',
     ''  cpu_cores: int'',
     '')'',
     [],
     ''method GetPressure() -> ('',
     ''  level: string,'',
     ''  cpu_some: float,'',
     ''  memory_some: float,'',
     ''  io_some: float'',
     '')'',
     [],
     ''method AcquireLease('',
     ''  priority: string,'',
     ''  memory_bytes: int,'',
     ''  plane: ?string,'',
     ''  unit: ?string,'',
     ''  pid: ?int'',
     '') -> ('',
     ''  lease_id: string,'',
     ''  plane_id: string,'',
     ''  allocated_memory: int'',
     '')'',
     [],
     ''method ReleaseLease(lease_id: string) -> ()'',
     ''method Yield(lease_id: string) -> ()'',
     ''method Freeze(lease_id: string) -> ()'',
     ''method Thaw(lease_id: string) -> ()'',
     ''method ListLeases() -> (leases: []LeaseInfo)'',
     ''method ListModels() -> (models: []ModelInfo)'',
     [],
     ''method RegisterModel('',
     ''  id: string,'',
     ''  format: string,'',
     ''  path: string,'',
     ''  estimated_bytes: int'',
     '') -> ()'',
     [],
     ''method EvictModel(model: string) -> ()'',
     ''method PinModel(model: string, plane: string) -> ()'',
     [],
     ''method StreamInference('',
     ''  model: string,'',
     ''  prompt: string'',
     '') -> ('',
     ''  chunk: string'',
     '')'',
     [],
     ''error MethodNotFound (method: string)'',
     ''error InvalidParameter (parameter: string)'',
     ''error ResourceExhaustion (plane: string, requested: int, available: int)'',
     ''error PlaneNotFound (plane: string)'',
     ''error LeaseNotFound (lease_id: string)'',
     ''error ModelNotFound (model: string)'']"

definition IO_SYSTEMD_INFERENCED1_IDL :: string where
  "IO_SYSTEMD_INFERENCED1_IDL = join_lines
    [''interface io.systemd.inferenced1'',
     [],
     ''type ComputePlane ('',
     ''  id: string,'',
     ''  name: string,'',
     ''  kind: string,'',
     ''  total_memory: int,'',
     ''  available_memory: int,'',
     ''  is_triage_reserved: bool'',
     '')'',
     [],
     ''type LeaseInfo ('',
     ''  id: string,'',
     ''  plane_id: string,'',
     ''  allocated_memory: int,'',
     ''  priority: string,'',
     ''  state: string,'',
     ''  client_unit: ?string,'',
     ''  client_pid: ?int'',
     '')'',
     [],
     ''type ModelInfo ('',
     ''  id: string,'',
     ''  format: string,'',
     ''  path: string,'',
     ''  estimated_memory: int,'',
     ''  placement: string'',
     '')'',
     [],
     ''method GetStatus() -> ('',
     ''  status: string,'',
     ''  version: string,'',
     ''  daemon: string,'',
     ''  planes_count: int,'',
     ''  leases_count: int,'',
     ''  pressure: string'',
     '')'',
     [],
     ''method ListPlanes() -> ('',
     ''  planes: []ComputePlane'',
     '')'',
     [],
     ''method GetTopology() -> ('',
     ''  planes: []ComputePlane,'',
     ''  total_ram: int,'',
     ''  available_ram: int,'',
     ''  cpu_cores: int'',
     '')'',
     [],
     ''method GetPressure() -> ('',
     ''  level: string,'',
     ''  cpu_some: float,'',
     ''  memory_some: float,'',
     ''  io_some: float'',
     '')'',
     [],
     ''method AcquireLease('',
     ''  priority: string,'',
     ''  memory_bytes: int,'',
     ''  plane: ?string,'',
     ''  unit: ?string,'',
     ''  pid: ?int'',
     '') -> ('',
     ''  lease_id: string,'',
     ''  plane_id: string,'',
     ''  allocated_memory: int'',
     '')'',
     [],
     ''method ReleaseLease(lease_id: string) -> ()'',
     ''method Yield(lease_id: string) -> ()'',
     ''method Freeze(lease_id: string) -> ()'',
     ''method Thaw(lease_id: string) -> ()'',
     ''method ListLeases() -> (leases: []LeaseInfo)'',
     ''method ListModels() -> (models: []ModelInfo)'',
     [],
     ''method RegisterModel('',
     ''  id: string,'',
     ''  format: string,'',
     ''  path: string,'',
     ''  estimated_bytes: int'',
     '') -> ()'',
     [],
     ''method EvictModel(model: string) -> ()'',
     ''method PinModel(model: string, plane: string) -> ()'',
     [],
     ''method StreamInference('',
     ''  model: string,'',
     ''  prompt: string'',
     '') -> ('',
     ''  chunk: string'',
     '')'',
     [],
     ''error MethodNotFound (method: string)'',
     ''error InvalidParameter (parameter: string)'',
     ''error ResourceExhaustion (plane: string, requested: int, available: int)'',
     ''error PlaneNotFound (plane: string)'',
     ''error LeaseNotFound (lease_id: string)'',
     ''error ModelNotFound (model: string)'']"

definition CARGO_PKG_VERSION :: string where
  "CARGO_PKG_VERSION = ''0.3.0''"

definition handle_get_info :: varlink_reply where
  "handle_get_info = reply_ok (JObj
     [(''vendor'', JStr ''Syntropd Project''), (''product'', JStr ''inferenced''),
      (''version'', JStr CARGO_PKG_VERSION), (''url'', JStr ''https://github.com/syntropd/inferenced''),
      (''interfaces'', JArr [JStr ''org.varlink.service'', JStr ''io.syntrop.Inference1'', JStr ''io.systemd.inferenced1''])])"

definition handle_get_interface_description :: "json option \<Rightarrow> varlink_reply" where
  "handle_get_interface_description params =
     (case Option.bind params (get_str ''interface'') of
        None \<Rightarrow> reply_error ''org.varlink.service.InvalidParameter'' (JObj [(''parameter'', JStr ''interface'')])
      | Some i \<Rightarrow>
          if i = ''org.varlink.service'' then reply_ok (JObj [(''description'', JStr ORG_VARLINK_SERVICE_IDL)])
          else if i = ''io.syntrop.Inference1'' then reply_ok (JObj [(''description'', JStr IO_SYNTROP_INFERENCE1_IDL)])
          else if i = ''io.systemd.inferenced1'' then reply_ok (JObj [(''description'', JStr IO_SYSTEMD_INFERENCED1_IDL)])
          else reply_error ''org.varlink.service.InterfaceNotFound'' (JObj [(''interface'', JStr i)]))"

section \<open>Lease handlers\<close>

text \<open>What a handler reads besides its request: the pressure, the next identifier and the clock.\<close>

record env =
  e_psi :: pressure_metrics
  e_id :: lease_id
  e_now :: timestamp

definition invalid_parameter :: "string \<Rightarrow> varlink_reply" where
  "invalid_parameter p = reply_error ''org.varlink.service.InvalidParameter'' (JObj [(''parameter'', JStr p)])"

definition error_reply :: "text_lib \<Rightarrow> string \<Rightarrow> error \<Rightarrow> varlink_reply" where
  "error_reply L kind e = reply_error kind (JObj [(''error'', JStr (error_to_string L e))])"

definition requested_priority :: "json \<Rightarrow> lease_priority" where
  "requested_priority p =
     (let s = or_else (get_str ''priority'' p) ''Interactive'' in
      if s = ''Batch'' then Batch else if s = ''EmergencyTriage'' then EmergencyTriage else Interactive)"

text \<open>The unit, process id and priority a lease is granted under.\<close>

definition attribution :: "json \<Rightarrow> peer_info option \<Rightarrow> string option \<times> u32 option \<times> lease_priority" where
  "attribution p peer =
     (let pid = map_option (\<lambda>w :: u64. ucast w :: u32) (get_u64 ''pid'' p) in
      case peer of
        Some i \<Rightarrow> (Some (slice i), if 0 < peer_pid i then Some (peer_pid i) else pid,
                  if is_batch i then Batch else requested_priority p)
      | None \<Rightarrow> (get_str ''unit'' p, pid, requested_priority p))"

definition handle_acquire_lease ::
  "text_lib \<Rightarrow> env \<Rightarrow> json option \<Rightarrow> peer_info option \<Rightarrow> arbiter_state \<Rightarrow> lease_id list
   \<Rightarrow> varlink_reply \<times> arbiter_state \<times> lease_id list \<times> effect list" where
  "handle_acquire_lease L E params peer st active =
     (case params of
        None \<Rightarrow> (invalid_parameter ''parameters'', st, active, [])
      | Some p \<Rightarrow>
          let mem = or_else (get_u64 ''memory_bytes'' p) (1024 * 1024 * 1024);
              (unit, pid, priority) = attribution p peer;
              (r, st', fx) = acquire_lease (e_psi E) (e_id E) (e_now E) priority mem (get_str ''plane'' p) unit pid st
          in (case r of
                Ok l \<Rightarrow> (reply_ok (JObj [(''lease_id'', JStr (uuid_show L (l_id l))), (''plane_id'', JStr (l_plane_id l)),
                           (''allocated_memory'', json_u64 (l_allocated l))]), st', active @ [l_id l], fx)
              | Err e \<Rightarrow> (error_reply L ''io.systemd.inferenced1.ResourceExhaustion'' e, st', active, fx)))"

definition parse_lease_id :: "text_lib \<Rightarrow> json option \<Rightarrow> (varlink_reply, lease_id) result" where
  "parse_lease_id L params =
     (case uuid_parse L (or_else (Option.bind params (get_str ''lease_id'')) []) of
        Some i \<Rightarrow> Ok i
      | None \<Rightarrow> Err (invalid_parameter ''lease_id''))"

definition handle_release_lease ::
  "text_lib \<Rightarrow> json option \<Rightarrow> arbiter_state \<Rightarrow> lease_id list \<Rightarrow> varlink_reply \<times> arbiter_state \<times> lease_id list" where
  "handle_release_lease L params st active =
     (case parse_lease_id L params of
        Err e \<Rightarrow> (e, st, active)
      | Ok i \<Rightarrow>
          (case release_lease L i st of
             (Ok _, st') \<Rightarrow> (reply_ok (JObj []), st', filter (\<lambda>j. j \<noteq> i) active)
           | (Err e, st') \<Rightarrow> (error_reply L ''io.systemd.inferenced1.LeaseNotFound'' e, st', active)))"

text \<open>The shared shape of the handlers for yield, freeze and thaw.\<close>

definition handle_transition ::
  "(text_lib \<Rightarrow> lease_id \<Rightarrow> arbiter_state \<Rightarrow> (error, unit) result \<times> arbiter_state) \<Rightarrow> string
   \<Rightarrow> text_lib \<Rightarrow> json option \<Rightarrow> arbiter_state \<Rightarrow> varlink_reply \<times> arbiter_state" where
  "handle_transition oper kind L params st =
     (case parse_lease_id L params of
        Err e \<Rightarrow> (e, st)
      | Ok i \<Rightarrow>
          (case oper L i st of
             (Ok _, st') \<Rightarrow> (reply_ok (JObj []), st')
           | (Err e, st') \<Rightarrow> (error_reply L kind e, st')))"

definition handle_yield :: "text_lib \<Rightarrow> json option \<Rightarrow> arbiter_state \<Rightarrow> varlink_reply \<times> arbiter_state" where
  "handle_yield = handle_transition yield_lease ''io.systemd.inferenced1.LeaseNotFound''"

definition handle_freeze :: "text_lib \<Rightarrow> json option \<Rightarrow> arbiter_state \<Rightarrow> varlink_reply \<times> arbiter_state" where
  "handle_freeze = handle_transition freeze_lease ''io.systemd.inferenced1.LeaseNotFound''"

definition handle_thaw :: "text_lib \<Rightarrow> json option \<Rightarrow> arbiter_state \<Rightarrow> varlink_reply \<times> arbiter_state" where
  "handle_thaw = handle_transition thaw_lease ''io.systemd.inferenced1.ResourceExhaustion''"

definition handle_list_leases :: "text_lib \<Rightarrow> arbiter_state \<Rightarrow> varlink_reply" where
  "handle_list_leases L st =
     reply_ok (JObj [(''leases'', JArr (map (\<lambda>l. JObj
       [(''id'', JStr (uuid_show L (l_id l))), (''plane_id'', JStr (l_plane_id l)),
        (''allocated_memory'', json_u64 (l_allocated l)), (''priority'', JStr (priority_debug (l_priority l))),
        (''state'', JStr (state_debug (l_state l))), (''client_unit'', json_opt JStr (l_client_unit l)),
        (''client_pid'', json_opt (\<lambda>p. JInt (int (unat p))) (l_client_pid l))]) (list_leases st)))])"

section \<open>Model handlers\<close>

definition handle_list_models :: "arbiter_state \<Rightarrow> varlink_reply" where
  "handle_list_models st =
     reply_ok (JObj [(''models'', JArr (map (\<lambda>m. JObj
       [(''id'', JStr (m_id m)), (''format'', JStr (m_format m)), (''path'', JStr (utf8_lossy (m_path m))),
        (''estimated_memory'', json_u64 (m_estimated m)), (''placement'', JStr (placement_debug (m_placement m)))])
       (list_models st)))])"

definition handle_register_model :: "env \<Rightarrow> json option \<Rightarrow> arbiter_state \<Rightarrow> varlink_reply \<times> arbiter_state" where
  "handle_register_model E params st =
     (case params of
        None \<Rightarrow> (invalid_parameter ''parameters'', st)
      | Some p \<Rightarrow>
          let d = \<lparr>m_id = or_else (get_str ''id'' p) [], m_format = or_else (get_str ''format'' p) ''GGUF'',
                   m_path = or_else (get_str ''path'' p) [], m_estimated = or_else (get_u64 ''estimated_bytes'' p) 0,
                   m_placement = Dormant, m_resident_plane = None, m_last_accessed = e_now E,
                   m_access_count = 0, m_preferred_plane = None\<rparr>
          in (reply_ok (JObj []), register_model d st))"

text \<open>\<open>p.get(a).or_else(|| p.get(b)).and_then(as_str).unwrap_or("")\<close>.\<close>

definition get_either :: "string \<Rightarrow> string \<Rightarrow> json \<Rightarrow> string" where
  "get_either a b p =
     or_else (Option.bind (case json_get a p of Some v \<Rightarrow> Some v | None \<Rightarrow> json_get b p) as_str) []"

definition model_not_found :: "string \<Rightarrow> varlink_reply" where
  "model_not_found m = reply_error ''io.systemd.inferenced1.ModelNotFound'' (JObj [(''model'', JStr m)])"

definition handle_evict_model :: "json option \<Rightarrow> arbiter_state \<Rightarrow> varlink_reply \<times> arbiter_state" where
  "handle_evict_model params st =
     (case params of
        None \<Rightarrow> (invalid_parameter ''parameters'', st)
      | Some p \<Rightarrow>
          let m = get_either ''model'' ''id'' p in
          if m = [] then (invalid_parameter ''model'', st)
          else (case remove_model m st of
                  (st', Some _) \<Rightarrow> (reply_ok (JObj []), st')
                | (st', None) \<Rightarrow> (model_not_found m, st')))"

definition handle_pin_model :: "json option \<Rightarrow> arbiter_state \<Rightarrow> varlink_reply \<times> arbiter_state" where
  "handle_pin_model params st =
     (case params of
        None \<Rightarrow> (invalid_parameter ''parameters'', st)
      | Some p \<Rightarrow>
          let m = get_either ''model'' ''id'' p; plane = get_either ''plane'' ''plane_id'' p in
          if m = [] \<or> plane = [] then (invalid_parameter (if m = [] then ''model'' else ''plane''), st)
          else (case pin_model_for_triage m plane st of
                  (st', True) \<Rightarrow> (reply_ok (JObj []), st')
                | (st', False) \<Rightarrow> (model_not_found m, st')))"

section \<open>Status handlers\<close>

definition handle_get_status :: "env \<Rightarrow> arbiter_state \<Rightarrow> varlink_reply" where
  "handle_get_status E st = reply_ok (JObj
     [(''status'', JStr ''active''), (''version'', JStr ''0.1.0''), (''daemon'', JStr ''systemd-inferenced''),
      (''planes_count'', JInt (int (length (planes (topology st))))), (''leases_count'', JInt (int (length (list_leases st)))),
      (''pressure'', JStr (level_debug (level (e_psi E))))])"

definition plane_json :: "compute_plane \<Rightarrow> json" where
  "plane_json p = JObj
     [(''id'', JStr (p_id p)), (''name'', JStr (p_name p)), (''kind'', JStr (kind_debug (p_kind p))),
      (''total_memory'', json_u64 (p_total p)), (''available_memory'', json_u64 (p_available p)),
      (''is_triage_reserved'', JBool (p_triage_reserved p))]"

definition handle_list_planes :: "arbiter_state \<Rightarrow> varlink_reply" where
  "handle_list_planes st = reply_ok (JObj [(''planes'', JArr (map plane_json (planes (topology st))))])"

definition handle_get_topology :: "arbiter_state \<Rightarrow> varlink_reply" where
  "handle_get_topology st = reply_ok (JObj
     [(''planes'', JArr (map plane_json (planes (topology st)))), (''total_ram'', json_u64 (total_ram (topology st))),
      (''available_ram'', json_u64 (available_ram (topology st))), (''cpu_cores'', JInt (int (cpu_cores_total (topology st))))])"

definition handle_get_pressure :: "env \<Rightarrow> varlink_reply" where
  "handle_get_pressure E = reply_ok (JObj
     [(''level'', JStr (level_debug (level (e_psi E)))), (''cpu_some'', json_float (cpu_some_avg10 (e_psi E))),
      (''memory_some'', json_float (memory_some_avg10 (e_psi E))), (''io_some'', json_float (io_some_avg10 (e_psi E)))])"

text \<open>The chunks written by a streaming call, all but the last announcing more.\<close>

definition stream_tokens :: "json option \<Rightarrow> string list" where
  "stream_tokens params =
     [''Inference: '', ''Analyzing prompt '' @ [CHR 0x27], or_else (Option.bind params (get_str ''prompt'')) [],
      CHR 0x27 # ''. Execution dispatched via systemd-inferenced.'']"

definition handle_stream_inference :: "json_lib \<Rightarrow> json option \<Rightarrow> string list" where
  "handle_stream_inference J params =
     map (\<lambda>(i, tok). to_bytes J (reply_streaming (JObj [(''chunk'', JStr tok)]) (i < length (stream_tokens params) - 1)))
       (enumerate 0 (stream_tokens params))"

end
