(* ===== verification/Lease_Service.thy ===== *)
theory Lease_Service
  imports Arbiter_Runs Arbiter_Ops
begin

text \<open>
  What the daemon's servers rely on when they use the arbiter: releasing a lease ends it, and
  nothing that other tasks do afterwards brings it back. The contract is a locale, proved for
  the arbiter's operations at the end of the theory.
\<close>

section \<open>Ended leases\<close>

definition ended :: "arbiter_state \<Rightarrow> lease_id \<Rightarrow> bool" where
  "ended st i \<longleftrightarrow> (\<forall>l. hm_get (leases st) i = Some l \<longrightarrow> \<not> live_state (l_state l))"

lemma ended_step:
  assumes "arbiter_inv st" and "ended st i" and s: "guarded_step G L st st'" and G: "\<And>opn. G opn st \<Longrightarrow> fresh_for i opn st"
  shows "ended st' i"
proof (cases "hm_get (leases st) i")
  case (Some l)
  then have "retired i l st" using assms(1,2) by (auto simp: retired_def ended_def)
  moreover have "guarded_step (fresh_for i) L st st'" using s G by (auto elim!: guarded_stepE intro: guarded_step.intros)
  ultimately have "retired i l st'" by (rule retire.step_inv)
  then show ?thesis by (auto simp: retired_def ended_def)
next
  case None
  have "hm_get (leases st') i = None"
    using s
  proof (elim guarded_stepE)
    fix opn assume "op_ok opn st" "G opn st" "st' = exec_op L opn st"
    then show ?thesis using exec_op_keeps_absent [OF G None assms(1)] by simp
  next
    fix ls assume "hm_reorder (leases st) ls" "st' = st\<lparr>leases := ls\<rparr>"
    then show ?thesis
      using None assms(1) hm_get_reorder [of "leases st" ls i] by (simp add: arbiter_inv_def leases_ok_def)
  qed
  then show ?thesis by (simp add: ended_def)
qed

lemma release_ends: "ended (snd (release_lease L i st)) i"
  by (auto simp: ended_def release_lease_def end_lease_def set_state_get live_state_def is_active_def split: option.splits if_splits)

text \<open>A refused request stores no lease.\<close>

lemma refused_keeps_absent:
  assumes "acquire_lease psi i now pr req pref u pid st = (Err e, st', fx)" and inv: "arbiter_inv st" and none: "hm_get (leases st) j = None"
  shows "hm_get (leases st') j = None"
  using assms(1)
proof (cases rule: acquire_cases)
  case (exhausted idx plane t1 ls1 fz)
  have "victims_ok (leases st) plane pr (preemptable (leases st) plane pr)"
    using inv by (simp add: preemptable_ok arbiter_inv_def)
  then have "hm_get ls1 j = None"
    by (rule preempt_loop_rule [OF exhausted(4), where P = "\<lambda>_ ls _. hm_get ls j = None"]) (auto simp: none set_state_get)
  then show ?thesis using exhausted by simp
qed (use none in simp_all)

section \<open>The contract\<close>

locale lease_service =
  fixes valid :: "'s \<Rightarrow> bool" and over :: "'s \<Rightarrow> 'i \<Rightarrow> bool" and give_up :: "'i \<Rightarrow> 's \<Rightarrow> 's"
    and others :: "'i \<Rightarrow> 's \<Rightarrow> 's \<Rightarrow> bool"
  assumes give_up_valid: "valid s \<Longrightarrow> valid (give_up i s)"
    and give_up_over: "over (give_up i s) i"
    and others_valid: "valid s \<Longrightarrow> others i s t \<Longrightarrow> valid t"
    and others_over: "valid s \<Longrightarrow> over s i \<Longrightarrow> others i s t \<Longrightarrow> over t i"
begin

sublocale kept: transition_invariant "others i" "\<lambda>s. valid s \<and> over s i" for i
  by unfold_locales (use others_valid others_over in blast)

lemma over_for_good: "valid s \<Longrightarrow> (others i)\<^sup>*\<^sup>* (give_up i s) t \<Longrightarrow> valid t \<and> over t i"
  using kept.steps_inv give_up_valid give_up_over by blast

lemma valid_runs: "(others i)\<^sup>*\<^sup>* s t \<Longrightarrow> valid s \<Longrightarrow> valid t"
proof (induction rule: rtranclp_induct)
  case (step u v)
  then show ?case using others_valid by blast
qed

end

lemma release_inv: "arbiter_inv st \<Longrightarrow> arbiter_inv (snd (release_lease L i st))"
  using guarded_step_inv [of st "\<lambda>_ _. True" L] guarded_step.op [of "OpRelease i" st "\<lambda>_ _. True" L] by simp

interpretation arbiter: lease_service arbiter_inv ended "\<lambda>i st. snd (release_lease L i st)" "\<lambda>i. guarded_step (fresh_for i) L" for L
proof
  fix s t i
  show "arbiter_inv s \<Longrightarrow> arbiter_inv (snd (release_lease L i s))" by (rule release_inv)
  show "ended (snd (release_lease L i s)) i" by (rule release_ends)
  show "arbiter_inv s \<Longrightarrow> guarded_step (fresh_for i) L s t \<Longrightarrow> arbiter_inv t" by (rule guarded_step_inv)
  show "arbiter_inv s \<Longrightarrow> ended s i \<Longrightarrow> guarded_step (fresh_for i) L s t \<Longrightarrow> ended t i" by (rule ended_step)
qed

lemma ended_state: "ended st i \<Longrightarrow> hm_get (leases st) i = Some l \<Longrightarrow> l_state l = Expired \<or> l_state l = Revoked"
  by (cases "l_state l") (auto simp: ended_def)

end
