(* ===== verification/Varlink_Conn.thy ===== *)
theory Varlink_Conn
  imports Varlink Lease_Service
begin

text \<open>
  Dispatch and connections of the Varlink server (\<^verbatim>\<open>varlink/inferenced1.rs\<close> and
  \<^verbatim>\<open>varlink/mod.rs\<close>). A connection is a step relation: it handles frames, other tasks act
  on the arbiter in between, and once the client is gone it releases the leases it still holds.
\<close>

section \<open>Dispatch\<close>

text \<open>The result of a call: the reply, streamed output, the new state, the connection's leases and effects.\<close>

type_synonym call_result = "varlink_reply option \<times> string list \<times> arbiter_state \<times> lease_id list \<times> effect list"

definition plain :: "lease_id list \<Rightarrow> varlink_reply \<times> arbiter_state \<Rightarrow> call_result" where
  "plain active r = (Some (fst r), [], snd r, active, [])"

definition sub_call :: "string \<Rightarrow> string option" where
  "sub_call m =
     (case strip_prefix ''io.syntrop.Inference1.'' m of
        Some s \<Rightarrow> Some s
      | None \<Rightarrow> strip_prefix ''io.systemd.inferenced1.'' m)"

definition handle_method ::
  "text_lib \<Rightarrow> json_lib \<Rightarrow> env \<Rightarrow> string \<Rightarrow> json option \<Rightarrow> peer_info option \<Rightarrow> arbiter_state \<Rightarrow> lease_id list \<Rightarrow> call_result" where
  "handle_method L J E m params peer st active =
     (case sub_call m of
        None \<Rightarrow> (None, [], st, active, [])
      | Some sub \<Rightarrow>
          if sub = ''GetStatus'' \<or> sub = ''GetInfo'' then plain active (handle_get_status E st, st)
          else if sub = ''ListPlanes'' \<or> sub = ''ListDevices'' then plain active (handle_list_planes st, st)
          else if sub = ''GetTopology'' then plain active (handle_get_topology st, st)
          else if sub = ''GetPressure'' then plain active (handle_get_pressure E, st)
          else if sub = ''AcquireLease''
          then (let (r, st', active', fx) = handle_acquire_lease L E params peer st active in (Some r, [], st', active', fx))
          else if sub = ''ReleaseLease''
          then (let (r, st', active') = handle_release_lease L params st active in (Some r, [], st', active', []))
          else if sub = ''Yield'' then plain active (handle_yield L params st)
          else if sub = ''Freeze'' \<or> sub = ''FreezeLease'' then plain active (handle_freeze L params st)
          else if sub = ''Thaw'' \<or> sub = ''ThawLease'' then plain active (handle_thaw L params st)
          else if sub = ''ListLeases'' then plain active (handle_list_leases L st, st)
          else if sub = ''ListModels'' then plain active (handle_list_models st, st)
          else if sub = ''RegisterModel'' then plain active (handle_register_model E params st)
          else if sub = ''EvictModel'' then plain active (handle_evict_model params st)
          else if sub = ''PinModel'' then plain active (handle_pin_model params st)
          else if sub = ''StreamInference'' then (None, handle_stream_inference J params, st, active, [])
          else (None, [], st, active, []))"

definition call ::
  "text_lib \<Rightarrow> json_lib \<Rightarrow> env \<Rightarrow> string \<Rightarrow> json option \<Rightarrow> peer_info option \<Rightarrow> arbiter_state \<Rightarrow> lease_id list \<Rightarrow> call_result" where
  "call L J E m params peer st active =
     (if m = ''org.varlink.service.GetInfo'' then plain active (handle_get_info, st)
      else if m = ''org.varlink.service.GetInterfaceDescription''
      then plain active (handle_get_interface_description params, st)
      else handle_method L J E m params peer st active)"

section \<open>Frames\<close>

definition MAX_FRAME :: nat where
  "MAX_FRAME = 1024 * 1024"

text \<open>\<open>take(MAX_FRAME).read_until(0)\<close> on what the client sends before it closes.\<close>

definition next_frame :: "string \<Rightarrow> string \<times> string" where
  "next_frame s =
     (let limited = take MAX_FRAME s; body = takeWhile (\<lambda>c. c \<noteq> nul) limited;
          buf = (if length body < length limited then body @ [nul] else body)
      in (buf, drop (length buf) s))"

text \<open>
  One turn of the loop on a frame: the output with the new state, and whether the loop goes
  on. \<open>write_ok\<close> tells whether the reply can be written.
\<close>

definition handle_frame ::
  "text_lib \<Rightarrow> json_lib \<Rightarrow> env \<Rightarrow> peer_info option \<Rightarrow> bool \<Rightarrow> string \<Rightarrow> arbiter_state \<Rightarrow> lease_id list
   \<Rightarrow> bool \<times> string list \<times> arbiter_state \<times> lease_id list \<times> effect list" where
  "handle_frame L J E peer write_ok buf st active =
     (case parse_request J buf of
        Err _ \<Rightarrow> (False, [], st, active, [])
      | Ok req \<Rightarrow>
          let m = q_method req; (reply, streamed, st', active', fx) = call L J E m (q_parameters req) peer st active
          in (case reply of
                Some r \<Rightarrow> if write_ok then (True, streamed @ [to_bytes J r], st', active', fx)
                          else (False, streamed, st', active', fx)
              | None \<Rightarrow> (True, streamed @ (if \<not> contains ''StreamInference'' m then [make_method_not_found J m] else []),
                         st', active', fx)))"

section \<open>Connections\<close>

record conn_state =
  c_arb :: arbiter_state
  c_active :: "lease_id list"
  c_acquired :: "lease_id list" \<comment> \<open>every lease granted on this connection\<close>
  c_closing :: bool

definition fresh_ids :: "lease_id list \<Rightarrow> arbiter_op \<Rightarrow> arbiter_state \<Rightarrow> bool" where
  "fresh_ids is opn st = list_all (\<lambda>i. fresh_for i opn st) is"

text \<open>A new identifier was granted if the arbiter's table has it afterwards.\<close>

definition granted_ids :: "lease_id \<Rightarrow> arbiter_state \<Rightarrow> lease_id list" where
  "granted_ids i st = (if hm_get (leases st) i \<noteq> None then [i] else [])"

inductive conn_step :: "text_lib \<Rightarrow> json_lib \<Rightarrow> peer_info option \<Rightarrow> conn_state \<Rightarrow> conn_state \<Rightarrow> bool" for L J peer where
  other: "guarded_step (fresh_ids (c_acquired c)) L (c_arb c) st' \<Longrightarrow> conn_step L J peer c (c\<lparr>c_arb := st'\<rparr>)"
| frame: "\<not> c_closing c \<Longrightarrow> hm_get (leases (c_arb c)) (e_id E) = None \<Longrightarrow> e_id E \<notin> set (c_acquired c)
    \<Longrightarrow> handle_frame L J E peer w buf (c_arb c) (c_active c) = (goes_on, outp, st', active', fx)
    \<Longrightarrow> conn_step L J peer c \<lparr>c_arb = st', c_active = active',
          c_acquired = granted_ids (e_id E) st' @ c_acquired c, c_closing = (\<not> goes_on)\<rparr>"
| gone: "conn_step L J peer c (c\<lparr>c_closing := True\<rparr>)"
| reclaim: "c_closing c \<Longrightarrow> c_active c = i # is
    \<Longrightarrow> conn_step L J peer c (c\<lparr>c_arb := snd (release_lease L i (c_arb c)), c_active := is\<rparr>)"

inductive_cases conn_stepE: "conn_step L J peer c c'"

definition new_conn :: "arbiter_state \<Rightarrow> conn_state" where
  "new_conn st = \<lparr>c_arb = st, c_active = [], c_acquired = [], c_closing = False\<rparr>"

section \<open>Reclaiming\<close>

definition conn_inv :: "conn_state \<Rightarrow> bool" where
  "conn_inv c \<longleftrightarrow> arbiter_inv (c_arb c) \<and> (\<forall>i \<in> set (c_acquired c). i \<in> set (c_active c) \<or> ended (c_arb c) i)"

text \<open>What a call may do to the arbiter and to the connection's list of leases.\<close>

definition call_effect :: "text_lib \<Rightarrow> env \<Rightarrow> arbiter_state \<Rightarrow> lease_id list \<Rightarrow> arbiter_state \<Rightarrow> lease_id list \<Rightarrow> bool" where
  "call_effect L E st active st' active' \<longleftrightarrow>
     (st' = st \<or> (\<exists>opn. op_ok opn st \<and> st' = exec_op L opn st \<and> (\<forall>i. i \<noteq> e_id E \<longrightarrow> fresh_for i opn st)))
   \<and> (active' = active \<or> active' = active @ [e_id E] \<or> (\<exists>i. active' = filter (\<lambda>j. j \<noteq> i) active \<and> ended st' i))
   \<and> (arbiter_inv st \<longrightarrow> hm_get (leases st) (e_id E) = None \<longrightarrow> hm_get (leases st') (e_id E) \<noteq> None \<longrightarrow> e_id E \<in> set active')"

lemma call_effect_same [simp]: "call_effect L E st active st active"
  by (simp add: call_effect_def)

lemma call_effect_op:
  "st' = exec_op L opn st \<Longrightarrow> op_ok opn st \<Longrightarrow> (\<And>i. fresh_for i opn st) \<Longrightarrow> call_effect L E st active st' active"
  using exec_op_keeps_absent [of "e_id E" opn st L] by (auto simp: call_effect_def)

lemma acquire_effect:
  assumes "handle_acquire_lease L E params peer st active = (r, st', active', fx)" and fresh: "hm_get (leases st) (e_id E) = None"
  shows "call_effect L E st active st' active'"
proof (cases params)
  case (Some p)
  obtain u pid pr where at: "attribution p peer = (u, pid, pr)" by (metis prod_cases3)
  let ?mem = "or_else (get_u64 ''memory_bytes'' p) (1024 * 1024 * 1024)"
  obtain res s f where acq: "acquire_lease (e_psi E) (e_id E) (e_now E) pr ?mem (get_str ''plane'' p) u pid st = (res, s, f)"
    by (metis prod_cases3)
  have st': "st' = s" using assms(1) Some at acq by (auto simp: handle_acquire_lease_def Let_def split: sum.splits)
  have "active' = active \<or> active' = active @ [e_id E]"
  proof (cases res)
    case (Inr l)
    with acq have "l_id l = e_id E" by (cases rule: acquire_cases) (auto simp: new_lease_def)
    with Inr assms(1) Some at acq show ?thesis by (simp add: handle_acquire_lease_def Let_def)
  qed (use assms(1) Some at acq in \<open>simp add: handle_acquire_lease_def Let_def\<close>)
  moreover have "s = exec_op L (OpAcquire (e_psi E) (e_id E) (e_now E) pr ?mem (get_str ''plane'' p) u pid) st"
    using acq by simp
  moreover have "op_ok (OpAcquire (e_psi E) (e_id E) (e_now E) pr ?mem (get_str ''plane'' p) u pid) st" using fresh by simp
  moreover have "e_id E \<in> set active'" if "arbiter_inv st" "hm_get (leases s) (e_id E) \<noteq> None"
  proof (cases res)
    case (Inl e)
    from refused_keeps_absent [OF acq [unfolded Inl] that(1) fresh] that(2) show ?thesis by simp
  next
    case (Inr l)
    with acq have "l_id l = e_id E" by (cases rule: acquire_cases) (auto simp: new_lease_def)
    with Inr assms(1) Some at acq show ?thesis by (auto simp: handle_acquire_lease_def Let_def)
  qed
  ultimately show ?thesis unfolding call_effect_def st' by (metis fresh_for.simps(1))
qed (use assms(1) in \<open>simp add: handle_acquire_lease_def\<close>)

lemma release_effect:
  assumes "handle_release_lease L params st active = (r, st', active')"
  shows "call_effect L E st active st' active'"
proof (cases "parse_lease_id L params")
  case (Inr i)
  obtain res s where rel: "release_lease L i st = (res, s)" by (cases "release_lease L i st")
  have "st' = exec_op L (OpRelease i) st" using assms Inr rel by (auto simp: handle_release_lease_def split: sum.splits)
  moreover have "active' = active \<or> active' = filter (\<lambda>j. j \<noteq> i) active \<and> ended st' i"
    using assms Inr rel release_ends [of L i st] by (auto simp: handle_release_lease_def split: sum.splits)
  moreover have "arbiter_inv st \<longrightarrow> hm_get (leases st) (e_id E) = None \<longrightarrow> hm_get (leases st') (e_id E) = None"
    using exec_op_keeps_absent [of "e_id E" "OpRelease i" st L] calculation(1) by simp
  ultimately show ?thesis unfolding call_effect_def by (metis fresh_for.simps(2) op_ok.simps(3))
qed (use assms in \<open>simp add: handle_release_lease_def\<close>)

lemma transition_effect:
  assumes "\<And>i. \<exists>opn. op_ok opn st \<and> snd (oper L i st) = exec_op L opn st \<and> (\<forall>j. fresh_for j opn st)"
  shows "call_effect L E st active (snd (handle_transition oper kind L params st)) active"
proof (cases "parse_lease_id L params")
  case (Inr i)
  obtain res s where "oper L i st = (res, s)" by (cases "oper L i st")
  with Inr have "snd (handle_transition oper kind L params st) = snd (oper L i st)"
    by (simp add: handle_transition_def split: sum.splits)
  then show ?thesis using assms [of i] call_effect_op by metis
qed (simp add: handle_transition_def)

lemma yield_effect: "call_effect L E st active (snd (handle_yield L params st)) active"
  unfolding handle_yield_def by (rule transition_effect) (metis exec_op.simps(4) fresh_for.simps(4) op_ok.simps(5))

lemma freeze_effect: "call_effect L E st active (snd (handle_freeze L params st)) active"
  unfolding handle_freeze_def by (rule transition_effect) (metis exec_op.simps(5) fresh_for.simps(5) op_ok.simps(6))

lemma thaw_effect: "call_effect L E st active (snd (handle_thaw L params st)) active"
  unfolding handle_thaw_def by (rule transition_effect) (metis exec_op.simps(6) fresh_for.simps(6) op_ok.simps(7))

lemma register_effect: "call_effect L E st active (snd (handle_register_model E params st)) active"
proof (cases params)
  case (Some p)
  then obtain d where "snd (handle_register_model E params st) = exec_op L (OpRegister d) st"
    by (simp add: handle_register_model_def Let_def)
  then show ?thesis by (rule call_effect_op) simp_all
qed (simp add: handle_register_model_def)

lemma evict_effect: "call_effect L E st active (snd (handle_evict_model params st)) active"
proof (cases "\<exists>p. params = Some p \<and> get_either ''model'' ''id'' p \<noteq> []")
  case True
  then obtain p where p: "params = Some p" "get_either ''model'' ''id'' p \<noteq> []" by blast
  then have "snd (handle_evict_model params st) = exec_op L (OpRemove (get_either ''model'' ''id'' p)) st"
    by (simp add: handle_evict_model_def Let_def split: prod.splits option.splits)
  then show ?thesis by (rule call_effect_op) simp_all
qed (cases params; auto simp: handle_evict_model_def)

lemma pin_effect: "call_effect L E st active (snd (handle_pin_model params st)) active"
proof (cases "\<exists>p. params = Some p \<and> get_either ''model'' ''id'' p \<noteq> [] \<and> get_either ''plane'' ''plane_id'' p \<noteq> []")
  case True
  then obtain p where p: "params = Some p" "get_either ''model'' ''id'' p \<noteq> []" "get_either ''plane'' ''plane_id'' p \<noteq> []" by blast
  then have "snd (handle_pin_model params st)
      = exec_op L (OpPin (get_either ''model'' ''id'' p) (get_either ''plane'' ''plane_id'' p)) st"
    by (simp add: handle_pin_model_def Let_def split: prod.splits bool.splits)
  then show ?thesis by (rule call_effect_op) simp_all
qed (cases params; auto simp: handle_pin_model_def Let_def)

lemmas handler_effects = yield_effect freeze_effect thaw_effect register_effect evict_effect pin_effect

definition result_effect :: "text_lib \<Rightarrow> env \<Rightarrow> arbiter_state \<Rightarrow> lease_id list \<Rightarrow> call_result \<Rightarrow> bool" where
  "result_effect L E st active r = (case r of (_, _, st', active', _) \<Rightarrow> call_effect L E st active st' active')"

lemma result_effect_if: "result_effect L E st active a \<Longrightarrow> result_effect L E st active b \<Longrightarrow> result_effect L E st active (if c then a else b)"
  by simp

lemma result_effect_plain: "call_effect L E st active (snd x) active \<Longrightarrow> result_effect L E st active (plain active x)"
  by (simp add: result_effect_def plain_def)

lemma method_effect:
  assumes fresh: "hm_get (leases st) (e_id E) = None"
  shows "result_effect L E st active (handle_method L J E m params peer st active)"
proof (cases "sub_call m")
  case (Some sub)
  have acq: "result_effect L E st active (let (r, st', active', fx) = handle_acquire_lease L E params peer st active in (Some r, [], st', active', fx))"
    using acquire_effect [OF _ fresh] by (cases "handle_acquire_lease L E params peer st active") (simp add: result_effect_def)
  have rel: "result_effect L E st active (let (r, st', active') = handle_release_lease L params st active in (Some r, [], st', active', []))"
    using release_effect [where L = L and params = params and st = st and active = active]
    by (cases "handle_release_lease L params st active") (simp add: result_effect_def)
  have none: "result_effect L E st active (None, s, st, active, [])" for s by (simp add: result_effect_def)
  show ?thesis
    unfolding handle_method_def Some option.case
    by (intro result_effect_if result_effect_plain handler_effects acq rel none) simp_all
qed (simp add: handle_method_def result_effect_def)

lemma call_has_effect:
  "hm_get (leases st) (e_id E) = None \<Longrightarrow> result_effect L E st active (call L J E m params peer st active)"
  unfolding call_def by (intro result_effect_if result_effect_plain method_effect) simp_all

lemma frame_effect:
  assumes "handle_frame L J E peer w buf st active = (g, out, st', active', fx)" and "hm_get (leases st) (e_id E) = None"
  shows "call_effect L E st active st' active'"
proof (cases "parse_request J buf")
  case (Inr req)
  obtain reply s st1 a1 f1 where c: "call L J E (q_method req) (q_parameters req) peer st active = (reply, s, st1, a1, f1)"
    by (metis prod_cases5)
  with assms(1) Inr have "st' = st1" "active' = a1"
    by (auto simp: handle_frame_def Let_def split: option.splits if_splits)
  with call_has_effect [OF assms(2), of L active J "q_method req" "q_parameters req" peer] c show ?thesis
    by (simp add: result_effect_def)
qed (use assms(1) in \<open>simp add: handle_frame_def\<close>)

lemma effect_keeps:
  assumes inv: "arbiter_inv st" and eff: "call_effect L E st active st' active'"
  shows "arbiter_inv st'" and "ended st i \<Longrightarrow> i \<noteq> e_id E \<Longrightarrow> ended st' i"
proof -
  from eff consider "st' = st"
    | opn where "op_ok opn st" "st' = exec_op L opn st" "\<forall>i. i \<noteq> e_id E \<longrightarrow> fresh_for i opn st"
    by (auto simp: call_effect_def)
  then have "arbiter_inv st' \<and> (ended st i \<longrightarrow> i \<noteq> e_id E \<longrightarrow> ended st' i)"
  proof cases
    case (2 opn)
    have "guarded_step (\<lambda>x s. \<forall>i. i \<noteq> e_id E \<longrightarrow> fresh_for i x s) L st st'"
      unfolding 2(2) by (rule guarded_step.op) (use 2 in auto)
    then show ?thesis using guarded_step_inv [OF inv] ended_step [OF inv] by blast
  qed (use inv in simp)
  then show "arbiter_inv st'" and "ended st i \<Longrightarrow> i \<noteq> e_id E \<Longrightarrow> ended st' i" by blast+
qed

lemma conn_inv_frame:
  assumes inv: "conn_inv c" and fresh: "hm_get (leases (c_arb c)) (e_id E) = None" "e_id E \<notin> set (c_acquired c)"
    and eff: "call_effect L E (c_arb c) (c_active c) st' active'"
  shows "conn_inv \<lparr>c_arb = st', c_active = active', c_acquired = granted_ids (e_id E) st' @ c_acquired c, c_closing = b\<rparr>"
proof -
  have arb: "arbiter_inv (c_arb c)" using inv by (simp add: conn_inv_def)
  note keep = effect_keeps [OF arb eff]
  have "i \<in> set active' \<or> ended st' i" if i: "i \<in> set (c_acquired c)" for i
  proof -
    have ne: "i \<noteq> e_id E" using i fresh(2) by blast
    from inv i consider "i \<in> set (c_active c)" | "ended (c_arb c) i" by (auto simp: conn_inv_def)
    then show ?thesis
    proof cases
      case 1
      then show ?thesis using eff by (auto simp: call_effect_def)
    qed (use keep(2) ne in blast)
  qed
  moreover have "i \<in> set active' \<or> ended st' i" if "i \<in> set (granted_ids (e_id E) st')" for i
    using that eff arb fresh(1) by (auto simp: granted_ids_def call_effect_def split: if_splits)
  ultimately show ?thesis using keep(1) by (auto simp: conn_inv_def)
qed

interpretation conn: transition_invariant "conn_step L J peer" conn_inv for L J peer
proof
  fix c c' assume inv: "conn_inv c" and s: "conn_step L J peer c c'"
  have arb: "arbiter_inv (c_arb c)" using inv by (simp add: conn_inv_def)
  from s show "conn_inv c'"
  proof (cases rule: conn_step.cases)
    case (other st')
    have "ended st' i" if "i \<in> set (c_acquired c)" "ended (c_arb c) i" for i
      by (rule ended_step [OF arb that(2) other(2)]) (use that(1) in \<open>simp add: fresh_ids_def list_all_iff\<close>)
    then show ?thesis using inv other guarded_step_inv [OF arb other(2)] by (auto simp: conn_inv_def)
  next
    case (frame E w buf g outp st' active' fx)
    show ?thesis unfolding frame(1) by (rule conn_inv_frame [OF inv frame(3,4) frame_effect [OF frame(5,3)]])
  next
    case gone
    then show ?thesis using inv by (simp add: conn_inv_def)
  next
    case (reclaim i "is")
    let ?st = "snd (release_lease L i (c_arb c))"
    have st: "guarded_step (\<lambda>opn _. opn = OpRelease i) L (c_arb c) ?st"
      using guarded_step.op [of "OpRelease i" "c_arb c" "\<lambda>opn _. opn = OpRelease i" L] by simp
    have "ended ?st j" if "ended (c_arb c) j" for j
      by (rule ended_step [OF arb that st]) simp
    then show ?thesis
      using inv reclaim guarded_step_inv [OF arb st] release_ends [of L i "c_arb c"] by (auto simp: conn_inv_def)
  qed
qed

text \<open>C5: a client that disconnects leaves nothing behind. When its connection has finished
  reclaiming, every lease that was ever granted on it has ended, whatever the client sent,
  whatever other clients did meanwhile and however the connection broke off.\<close>

theorem disconnect_reclaims_leases:
  assumes "arbiter_inv st" and run: "(conn_step L J peer)\<^sup>*\<^sup>* (new_conn st) c"
    and fin: "c_closing c" "c_active c = []" and i: "i \<in> set (c_acquired c)" and l: "hm_get (leases (c_arb c)) i = Some l"
  shows "l_state l = Expired \<or> l_state l = Revoked"
proof -
  have "conn_inv (new_conn st)" using assms(1) by (simp add: conn_inv_def new_conn_def)
  from conn.steps_inv [OF run this] fin(2) i have "ended (c_arb c) i" by (auto simp: conn_inv_def)
  with l show ?thesis by (cases "l_state l") (auto simp: ended_def)
qed

definition ex_json :: json_lib where
  "ex_json = \<lparr>decode_request = (\<lambda>s. if s = ''acquire'' then Ok \<lparr>q_method = ''io.syntrop.Inference1.AcquireLease'',
        q_parameters = Some (JObj [(''priority'', JStr ''Batch''), (''memory_bytes'', JInt 500)]), q_more = None, q_oneway = None\<rparr>
        else Err ''bad''), encode_reply = (\<lambda>r. ''reply'')\<rparr>"

definition ex_env :: env where
  "ex_env = \<lparr>e_psi = calm, e_id = 5, e_now = 0\<rparr>"

definition ex_served :: arbiter_state where
  "ex_served = fst (snd (snd (handle_frame ex_lib ex_json ex_env None True (''acquire'' @ [nul]) ex_zero [])))"

theorem disconnect_reclaims_leases_witness:
  "l_state (the (hm_get (leases (snd (release_lease ex_lib 5 ex_served))) 5)) = Expired
   \<or> l_state (the (hm_get (leases (snd (release_lease ex_lib 5 ex_served))) 5)) = Revoked"
proof -
  let ?r = "handle_frame ex_lib ex_json ex_env None True (''acquire'' @ [nul]) ex_zero []"
  let ?c1 = "\<lparr>c_arb = ex_served, c_active = [5], c_acquired = [5], c_closing = False\<rparr>"
  let ?l = "(new_lease 5 0 ''gpu0'' 500 Batch None None)\<lparr>l_state := Expired\<rparr>"
  have e: "e_id ex_env = 5" "hm_get (leases ex_zero) 5 = None" "fst ?r" "fst (snd (snd (snd ?r))) = [5]"
    "hm_get (leases ex_served) 5 \<noteq> None" by code_simp+
  have r: "?r = (True, fst (snd ?r), ex_served, [5], snd (snd (snd (snd ?r))))" using e(3,4) by (simp add: ex_served_def prod_eq_iff)
  have n: "c_arb (new_conn ex_zero) = ex_zero" "c_active (new_conn ex_zero) = []" "c_acquired (new_conn ex_zero) = []"
    "\<not> c_closing (new_conn ex_zero)" by (simp_all add: new_conn_def)
  have 1: "conn_step ex_lib ex_json None (new_conn ex_zero) ?c1"
    using conn_step.frame [of "new_conn ex_zero" ex_env ex_lib ex_json None True "''acquire'' @ [nul]", unfolded n, OF _ _ _ r] e
    by (simp add: granted_ids_def n)
  have 2: "conn_step ex_lib ex_json None ?c1 (?c1\<lparr>c_closing := True\<rparr>)" by (rule conn_step.gone)
  have 3: "conn_step ex_lib ex_json None (?c1\<lparr>c_closing := True\<rparr>)
      (?c1\<lparr>c_closing := True, c_arb := snd (release_lease ex_lib 5 ex_served), c_active := []\<rparr>)"
    using conn_step.reclaim [of "?c1\<lparr>c_closing := True\<rparr>" 5 "[]" ex_lib ex_json None] by simp
  have run: "(conn_step ex_lib ex_json None)\<^sup>*\<^sup>* (new_conn ex_zero)
      (?c1\<lparr>c_closing := True, c_arb := snd (release_lease ex_lib 5 ex_served), c_active := []\<rparr>)"
  proof -
    have "(conn_step ex_lib ex_json None)\<^sup>*\<^sup>* (new_conn ex_zero) ?c1" using 1 by simp
    then have "(conn_step ex_lib ex_json None)\<^sup>*\<^sup>* (new_conn ex_zero) (?c1\<lparr>c_closing := True\<rparr>)"
      using 2 by (rule rtranclp.rtrancl_into_rtrancl)
    then show ?thesis using 3 by (rule rtranclp.rtrancl_into_rtrancl)
  qed
  have l: "hm_get (leases (snd (release_lease ex_lib 5 ex_served))) 5 = Some ?l" by code_simp
  from disconnect_reclaims_leases [OF ex_inv(1) run, of 5 ?l] l show ?thesis by simp
qed

section \<open>Framing\<close>

lemma next_frame_shorter: "s \<noteq> [] \<Longrightarrow> length (snd (next_frame s)) < length s"
  by (cases s) (simp_all add: next_frame_def MAX_FRAME_def Let_def)

function frames :: "string \<Rightarrow> string list" where
  "frames s = (if s = [] then [] else fst (next_frame s) # frames (snd (next_frame s)))"
  by auto
termination by (relation "measure length") (auto simp: next_frame_shorter)

declare frames.simps [simp del]

lemma next_frame_message:
  assumes "nul \<notin> set m" and "length m < MAX_FRAME"
  shows "next_frame (m @ nul # s) = (m @ [nul], s)"
proof -
  obtain k where k: "MAX_FRAME - length m = Suc k" using assms(2) by (metis Suc_diff_Suc)
  have "takeWhile (\<lambda>c. c \<noteq> nul) (m @ nul # take k s) = m"
    using assms(1) by (subst takeWhile_append2) auto
  with k assms(2) show ?thesis by (simp add: next_frame_def Let_def)
qed

text \<open>Messages are recovered from the byte stream exactly: a sequence of messages without NUL
  inside, each shorter than a mebibyte and followed by NUL, is cut into these messages,
  whatever their number.\<close>

lemma frames_recover_messages:
  assumes "\<forall>m \<in> set ms. nul \<notin> set m \<and> length m < MAX_FRAME"
  shows "frames (concat (map (\<lambda>m. m @ [nul]) ms)) = map (\<lambda>m. m @ [nul]) ms"
  using assms
proof (induction ms)
  case (Cons m ms)
  then show ?case by (subst frames.simps) (simp add: next_frame_message)
qed (simp add: frames.simps)

section \<open>Answers\<close>

definition declared_calls :: "string \<Rightarrow> string list" where
  "declared_calls idl =
     map (takeWhile (\<lambda>c. c \<noteq> CHR ''('')) (List.map_filter (strip_prefix ''method '') (str_lines idl))"

lemma declared_calls_join:
  "list_all (\<lambda>l. nl \<notin> set l \<and> cr \<notin> set l) ls
    \<Longrightarrow> declared_calls (join_lines ls) = map (takeWhile (\<lambda>c. c \<noteq> CHR ''('')) (List.map_filter (strip_prefix ''method '') ls)"
  by (simp add: declared_calls_def str_lines_join list_all_iff)

lemma declared_list:
  "declared_calls IO_SYNTROP_INFERENCE1_IDL = [''GetStatus'', ''ListPlanes'', ''GetTopology'', ''GetPressure'', ''AcquireLease'',
     ''ReleaseLease'', ''Yield'', ''Freeze'', ''Thaw'', ''ListLeases'', ''ListModels'', ''RegisterModel'', ''EvictModel'',
     ''PinModel'', ''StreamInference'']"
  unfolding IO_SYNTROP_INFERENCE1_IDL_def by (subst declared_calls_join) code_simp+

lemma declared_list_legacy: "declared_calls IO_SYSTEMD_INFERENCED1_IDL = declared_calls IO_SYNTROP_INFERENCE1_IDL"
  unfolding declared_list unfolding IO_SYSTEMD_INFERENCED1_IDL_def by (subst declared_calls_join) code_simp+

definition answered :: "call_result \<Rightarrow> bool" where
  "answered r \<longleftrightarrow> fst r \<noteq> None \<or> fst (snd r) \<noteq> []"

text \<open>Every call that the two published interface descriptions declare is implemented: it is
  answered by a reply or by streamed chunks, whatever its parameters and the daemon's state.\<close>

theorem declared_calls_answered:
  assumes "m \<in> set (declared_calls idl)" and "(idl, pre) = (IO_SYNTROP_INFERENCE1_IDL, ''io.syntrop.Inference1.'')
      \<or> (idl, pre) = (IO_SYSTEMD_INFERENCED1_IDL, ''io.systemd.inferenced1.'')"
  shows "answered (call L J E (pre @ m) params peer st active)"
proof -
  have m: "m \<in> set (declared_calls IO_SYNTROP_INFERENCE1_IDL)" using assms declared_list_legacy by auto
  have "sub_call (pre @ m) = Some m"
    using assms(2) by (auto simp: sub_call_def strip_prefix_def starts_with_def)
  moreover have "pre @ m \<noteq> ''org.varlink.service.GetInfo''" "pre @ m \<noteq> ''org.varlink.service.GetInterfaceDescription''"
    using assms(2) by auto
  ultimately have c: "call L J E (pre @ m) params peer st active = handle_method L J E (pre @ m) params peer st active"
    and s: "sub_call (pre @ m) = Some m" by (simp_all add: call_def)
  have acq: "answered (let (r, st', active', fx) = handle_acquire_lease L E params peer st active in (Some r, [], st', active', fx))"
    by (simp add: answered_def case_prod_beta)
  have rel: "answered (let (r, st', active') = handle_release_lease L params st active in (Some r, [], st', active', []))"
    by (simp add: answered_def case_prod_beta)
  have pl: "answered (plain active x)" for x by (simp add: answered_def plain_def)
  have str: "answered (None, handle_stream_inference J params, st, active, [])"
    by (simp add: answered_def handle_stream_inference_def stream_tokens_def)
  show ?thesis
    using m unfolding c declared_list handle_method_def s option.case list.set insert_iff empty_iff
    by (elim disjE) (simp_all add: acq [unfolded Let_def] rel [unfolded Let_def] pl str)
qed

theorem declared_calls_answered_witness:
  "answered (call ex_lib ex_json ex_env ''io.syntrop.Inference1.Thaw'' None None ex_zero [])"
  using declared_calls_answered [of "''Thaw''" IO_SYNTROP_INFERENCE1_IDL "''io.syntrop.Inference1.''"] by (simp add: declared_list)

lemma containsD: "contains n s \<Longrightarrow> \<exists>a b. s = a @ n @ b"
proof (induction s)
  case (Cons c s)
  show ?case
  proof (cases "starts_with n (c # s)")
    case True
    then show ?thesis using starts_with_iff [of n "c # s"] by (metis append_Nil)
  next
    case False
    then have "contains n s" using Cons.prems by simp
    with Cons.IH show ?thesis by (metis append_Cons)
  qed
qed simp

text \<open>The names that \<open>handle_method\<close> matches, \<open>StreamInference\<close> apart.\<close>

lemma replying_names:
  assumes "sub_call m = Some sub" and "contains ''StreamInference'' sub" and "sub \<noteq> ''StreamInference''"
  shows "handle_method L J E m params peer st active = (None, [], st, active, [])"
proof -
  have no: "\<not> contains ''StreamInference'' x" if "x \<in> set [''GetStatus'', ''GetInfo'', ''ListPlanes'', ''ListDevices'', ''GetTopology'',
      ''GetPressure'', ''AcquireLease'', ''ReleaseLease'', ''Yield'', ''Freeze'', ''FreezeLease'', ''Thaw'', ''ThawLease'', ''ListLeases'',
      ''ListModels'', ''RegisterModel'', ''EvictModel'', ''PinModel'']" for x
  proof -
    have "list_all (\<lambda>x. \<not> contains ''StreamInference'' x) [''GetStatus'', ''GetInfo'', ''ListPlanes'', ''ListDevices'', ''GetTopology'',
      ''GetPressure'', ''AcquireLease'', ''ReleaseLease'', ''Yield'', ''Freeze'', ''FreezeLease'', ''Thaw'', ''ThawLease'', ''ListLeases'',
      ''ListModels'', ''RegisterModel'', ''EvictModel'', ''PinModel'']" by code_simp
    with that show ?thesis unfolding list_all_iff by blast
  qed
  have "sub \<notin> set [''GetStatus'', ''GetInfo'', ''ListPlanes'', ''ListDevices'', ''GetTopology'',
      ''GetPressure'', ''AcquireLease'', ''ReleaseLease'', ''Yield'', ''Freeze'', ''FreezeLease'', ''Thaw'', ''ThawLease'', ''ListLeases'',
      ''ListModels'', ''RegisterModel'', ''EvictModel'', ''PinModel'']" using no assms(2) by blast
  then show ?thesis using assms(1,3) unfolding handle_method_def by simp
qed

lemma streaming_only:
  assumes "call L J E m params peer st active = (reply, str, st', active', fx)" and "\<not> contains ''StreamInference'' m"
  shows "str = []"
proof (rule ccontr)
  assume "str \<noteq> []"
  with assms(1) have "sub_call m = Some ''StreamInference''"
    by (auto simp: call_def handle_method_def plain_def case_prod_beta Let_def split: option.splits if_splits)
  then consider "m = ''io.syntrop.Inference1.'' @ ''StreamInference'' @ []" | "m = ''io.systemd.inferenced1.'' @ ''StreamInference'' @ []"
    by (auto simp: sub_call_def strip_prefix_Some_iff split: option.splits)
  then show False using assms(2) by cases (simp_all only: contains_append not_True_eq_False)
qed



section \<open>Attribution\<close>

text \<open>C29: a lease is attributed to the peer the kernel reports, not to what the request claims. With
  peer credentials a granted lease carries the peer's slice and process id, and the priority
  of a peer in a batch slice is Batch whatever it asked for; without them it carries what
  the client says.\<close>

theorem peer_attribution_enforced:
  assumes h: "handle_acquire_lease L E (Some p) peer st active = (r, st', active @ [i], fx)"
  shows "\<exists>l. hm_get (leases st') i = Some l \<and> l_state l = Active
    \<and> (case peer of
         Some info \<Rightarrow> l_client_unit l = Some (slice info) \<and> (0 < peer_pid info \<longrightarrow> l_client_pid l = Some (peer_pid info))
           \<and> l_priority l = (if is_batch info then Batch else requested_priority p)
       | None \<Rightarrow> l_client_unit l = get_str ''unit'' p \<and> l_priority l = requested_priority p)"
proof -
  obtain u pid pr where at: "attribution p peer = (u, pid, pr)" by (metis prod_cases3)
  let ?mem = "or_else (get_u64 ''memory_bytes'' p) (1024 * 1024 * 1024)"
  obtain res s f where acq: "acquire_lease (e_psi E) (e_id E) (e_now E) pr ?mem (get_str ''plane'' p) u pid st = (res, s, f)"
    by (metis prod_cases3)
  obtain l where l: "res = Ok l" "i = l_id l" "st' = s" using h at acq by (auto simp: handle_acquire_lease_def Let_def split: sum.splits)
  from acq l have "hm_get (leases st') i = Some l \<and> l_state l = Active \<and> l_client_unit l = u \<and> l_client_pid l = pid \<and> l_priority l = pr"
    by (cases rule: acquire_cases) (auto simp: new_lease_def hm_get_insert)
  then show ?thesis using at by (auto simp: attribution_def Let_def split: option.splits)
qed

definition ex_peer :: peer_info where
  "ex_peer = \<lparr>peer_pid = 42, peer_uid = 1000, peer_gid = 1000, cgroup_path = [], slice = ''user.slice'', is_container = False, is_batch = True\<rparr>"

theorem peer_attribution_enforced_witness:
  "l_priority (the (hm_get (leases (fst (snd (handle_acquire_lease ex_lib ex_env
      (Some (JObj [(''priority'', JStr ''EmergencyTriage''), (''memory_bytes'', JInt 500)])) (Some ex_peer) ex_zero [])))) 5)) = Batch"
proof -
  let ?p = "JObj [(''priority'', JStr ''EmergencyTriage''), (''memory_bytes'', JInt 500)]"
  let ?r = "handle_acquire_lease ex_lib ex_env (Some ?p) (Some ex_peer) ex_zero []"
  have "fst (snd (snd ?r)) = [] @ [5]" by code_simp
  then have "?r = (fst ?r, fst (snd ?r), [] @ [5], snd (snd (snd ?r)))" by (simp add: prod_eq_iff)
  moreover have "is_batch ex_peer" by (simp add: ex_peer_def)
  ultimately show ?thesis using peer_attribution_enforced [of ex_lib ex_env ?p "Some ex_peer" ex_zero "[]"] by fastforce
qed

end
