(* ===== verification/Varlink_Types.thy ===== *)
theory Varlink_Types
  imports Varlink_Conn
begin

text \<open>
  The types of the Varlink interfaces. The daemon publishes descriptions of its interfaces
  (\<^verbatim>\<open>varlink/service.rs\<close>) in the Varlink interface definition language; this file reads
  these texts and compares what the handlers send with the types they declare.
\<close>

section \<open>Interface descriptions\<close>

datatype token = Word string | Sym char

datatype vtype = VBool | VInt | VFloat | VString | VNamed string | VMaybe vtype | VArray vtype

type_synonym fields = "(string \<times> vtype) list"

datatype decl = DInterface string | DType string fields | DMethod string fields fields | DError string fields

text \<open>White space separates tokens, punctuation is a token of its own, and the rest are words.\<close>

definition blank :: "char \<Rightarrow> bool" where
  "blank c \<longleftrightarrow> c = CHR '' '' \<or> c = CHR 0x0A \<or> c = CHR 0x09 \<or> c = CHR 0x0D"

definition punctuation :: "char \<Rightarrow> bool" where
  "punctuation c \<longleftrightarrow> c = CHR ''('' \<or> c = CHR '')'' \<or> c = CHR '','' \<or> c = CHR '':'' \<or> c = CHR ''-'' \<or> c = CHR ''>''
     \<or> c = CHR ''?'' \<or> c = CHR ''['' \<or> c = CHR '']''"

definition flush :: "string \<Rightarrow> token list" where
  "flush acc = (if acc = [] then [] else [Word acc])"

fun tokens_of :: "string \<Rightarrow> string \<Rightarrow> token list" where
  "tokens_of acc [] = flush acc"
| "tokens_of acc (c # cs) =
     (if blank c then flush acc @ tokens_of [] cs
      else if punctuation c then flush acc @ Sym c # tokens_of [] cs
      else tokens_of (acc @ [c]) cs)"

fun split_tokens :: "token \<Rightarrow> token list \<Rightarrow> token list list" where
  "split_tokens s [] = [[]]"
| "split_tokens s (t # ts) =
     (if t = s then [] # split_tokens s ts
      else (case split_tokens s ts of [] \<Rightarrow> [[t]] | g # gs \<Rightarrow> (t # g) # gs))"

definition named_type :: "string \<Rightarrow> vtype" where
  "named_type w =
     (if w = ''bool'' then VBool else if w = ''int'' then VInt else if w = ''float'' then VFloat
      else if w = ''string'' then VString else VNamed w)"

fun parse_type :: "token list \<Rightarrow> vtype option" where
  "parse_type [Word w] = Some (named_type w)"
| "parse_type (Sym c # ts) =
     (if c = CHR ''?'' then map_option VMaybe (parse_type ts)
      else if c = CHR ''['' \<and> ts \<noteq> [] \<and> hd ts = Sym (CHR '']'') then map_option VArray (parse_type (tl ts)) else None)"
| "parse_type ts = None"

fun parse_field :: "token list \<Rightarrow> (string \<times> vtype) option" where
  "parse_field (Word n # Sym c # ts) = (if c = CHR '':'' then map_option (Pair n) (parse_type ts) else None)"
| "parse_field ts = None"

definition parse_fields :: "token list \<Rightarrow> fields option" where
  "parse_fields ts = (if ts = [] then Some [] else those (map parse_field (split_tokens (Sym (CHR '','')) ts)))"

text \<open>A group in parentheses: its fields and what follows it.\<close>

fun parse_group :: "token list \<Rightarrow> (fields \<times> token list) option" where
  "parse_group (Sym c # ts) =
     (if c = CHR ''('' \<and> dropWhile (\<lambda>t. t \<noteq> Sym (CHR '')'')) ts \<noteq> []
      then map_option (\<lambda>fs. (fs, tl (dropWhile (\<lambda>t. t \<noteq> Sym (CHR '')'')) ts))) (parse_fields (takeWhile (\<lambda>t. t \<noteq> Sym (CHR '')'')) ts))
      else None)"
| "parse_group ts = None"

lemma parse_group_shorter: "parse_group ts = Some (fs, r) \<Longrightarrow> length r < length ts"
proof (cases ts rule: parse_group.cases)
  case (1 c ts')
  assume "parse_group ts = Some (fs, r)"
  with 1 have "r = tl (dropWhile (\<lambda>t. t \<noteq> Sym (CHR '')'')) ts')" by (auto split: if_splits)
  then show ?thesis using 1 length_dropWhile_le [of "\<lambda>t. t \<noteq> Sym (CHR '')'')" ts'] by simp
qed simp_all

definition parse_decl :: "token list \<Rightarrow> (decl \<times> token list) option" where
  "parse_decl ts =
     (case ts of
        Word k # Word n # r \<Rightarrow>
          if k = ''interface'' then Some (DInterface n, r)
          else if k = ''type'' then map_option (\<lambda>(fs, r'). (DType n fs, r')) (parse_group r)
          else if k = ''error'' then map_option (\<lambda>(fs, r'). (DError n fs, r')) (parse_group r)
          else if k = ''method''
          then (case parse_group r of
                  Some (ins, a # b # r') \<Rightarrow>
                    if a = Sym (CHR ''-'') \<and> b = Sym (CHR ''>'') then map_option (\<lambda>(outs, r''). (DMethod n ins outs, r'')) (parse_group r')
                    else None
                | _ \<Rightarrow> None)
          else None
      | _ \<Rightarrow> None)"

lemma parse_decl_shorter: "parse_decl ts = Some (d, r) \<Longrightarrow> length r < length ts"
  by (fastforce simp: parse_decl_def dest!: parse_group_shorter split: list.splits token.splits if_splits option.splits)

function parse_decls :: "token list \<Rightarrow> decl list option" where
  "parse_decls ts =
     (if ts = [] then Some []
      else (case parse_decl ts of
              Some (d, r) \<Rightarrow> map_option (Cons d) (parse_decls r)
            | None \<Rightarrow> None))"
  by pat_completeness auto

termination
  by (relation "measure length") (auto dest: parse_decl_shorter)

definition parse_idl :: "string \<Rightarrow> decl list option" where
  "parse_idl s = parse_decls (tokens_of [] s)"

lemma tokens_newline: "tokens_of acc (a @ CHR 0x0A # b) = tokens_of acc a @ tokens_of [] b"
  by (induction a arbitrary: acc) (simp_all add: blank_def)

lemma tokens_join: "tokens_of [] (join_lines ls) = concat (map (tokens_of []) ls)"
  by (induction ls) (simp_all add: join_lines_def tokens_newline flush_def)

section \<open>Values of the declared types\<close>

text \<open>
  Integers of the protocol are signed 64-bit numbers. A nullable field may be null or absent,
  every other field is present, and no further fields are sent. \<open>N\<close> checks named types.
\<close>

primrec conforms :: "(string \<Rightarrow> json \<Rightarrow> bool) \<Rightarrow> vtype \<Rightarrow> json \<Rightarrow> bool" where
  "conforms N VBool v = (case v of JBool _ \<Rightarrow> True | _ \<Rightarrow> False)"
| "conforms N VInt v = (case v of JInt n \<Rightarrow> - (2 ^ 63) \<le> n \<and> n < 2 ^ 63 | _ \<Rightarrow> False)"
| "conforms N VFloat v = (case v of JFloat _ \<Rightarrow> True | JInt _ \<Rightarrow> True | _ \<Rightarrow> False)"
| "conforms N VString v = (case v of JStr _ \<Rightarrow> True | _ \<Rightarrow> False)"
| "conforms N (VNamed n) v = N n v"
| "conforms N (VMaybe t) v = (v = JNull \<or> conforms N t v)"
| "conforms N (VArray t) v = (case v of JArr vs \<Rightarrow> list_all (conforms N t) vs | _ \<Rightarrow> False)"

definition nullable :: "vtype \<Rightarrow> bool" where
  "nullable t = (case t of VMaybe _ \<Rightarrow> True | _ \<Rightarrow> False)"

definition conforms_fields :: "(string \<Rightarrow> json \<Rightarrow> bool) \<Rightarrow> fields \<Rightarrow> json \<Rightarrow> bool" where
  "conforms_fields N fs v =
     (case v of
        JObj kvs \<Rightarrow> distinct (map fst kvs) \<and> list_all (\<lambda>k. k \<in> set (map fst fs)) (map fst kvs)
          \<and> list_all (\<lambda>(n, t). case map_of kvs n of Some w \<Rightarrow> conforms N t w | None \<Rightarrow> nullable t) fs
      | _ \<Rightarrow> False)"

text \<open>The types of these interfaces refer to declared types one level deep.\<close>

definition declared_type :: "decl list \<Rightarrow> string \<Rightarrow> json \<Rightarrow> bool" where
  "declared_type ds n v = list_ex (\<lambda>d. case d of DType k fs \<Rightarrow> k = n \<and> conforms_fields (\<lambda>_ _. False) fs v | _ \<Rightarrow> False) ds"

definition in_int :: "u64 \<Rightarrow> bool" where
  "in_int w \<longleftrightarrow> w < 2 ^ 63"

definition signed_sizes :: "arbiter_state \<Rightarrow> bool" where
  "signed_sizes st \<longleftrightarrow>
     list_all (\<lambda>p. in_int (p_total p) \<and> in_int (p_available p)) (planes (topology st))
   \<and> in_int (total_ram (topology st)) \<and> in_int (available_ram (topology st))
   \<and> list_all (\<lambda>l. in_int (l_allocated l)) (list_leases st) \<and> list_all (\<lambda>m. in_int (m_estimated m)) (list_models st)
   \<and> int (length (planes (topology st))) < 2 ^ 63 \<and> int (length (list_leases st)) < 2 ^ 63
   \<and> int (cpu_cores_total (topology st)) < 2 ^ 63"

definition finite_pressure :: "pressure_metrics \<Rightarrow> bool" where
  "finite_pressure m \<longleftrightarrow> list_all (\<lambda>v. json_float v \<noteq> JNull) [cpu_some_avg10 m, memory_some_avg10 m, io_some_avg10 m]"

section \<open>The published descriptions\<close>

definition lease_decls :: "decl list" where
  "lease_decls =
   [DType ''ComputePlane''
      [(''id'', VString), (''name'', VString), (''kind'', VString), (''total_memory'', VInt),
       (''available_memory'', VInt), (''is_triage_reserved'', VBool)],
    DType ''LeaseInfo''
      [(''id'', VString), (''plane_id'', VString), (''allocated_memory'', VInt), (''priority'', VString),
       (''state'', VString), (''client_unit'', VMaybe VString), (''client_pid'', VMaybe VInt)],
    DType ''ModelInfo''
      [(''id'', VString), (''format'', VString), (''path'', VString), (''estimated_memory'', VInt),
       (''placement'', VString)],
    DMethod ''GetStatus'' []
      [(''status'', VString), (''version'', VString), (''daemon'', VString), (''planes_count'', VInt),
       (''leases_count'', VInt), (''pressure'', VString)],
    DMethod ''ListPlanes'' [] [(''planes'', VArray (VNamed ''ComputePlane''))],
    DMethod ''GetTopology'' []
      [(''planes'', VArray (VNamed ''ComputePlane'')), (''total_ram'', VInt), (''available_ram'', VInt), (''cpu_cores'', VInt)],
    DMethod ''GetPressure'' []
      [(''level'', VString), (''cpu_some'', VFloat), (''memory_some'', VFloat), (''io_some'', VFloat)],
    DMethod ''AcquireLease''
      [(''priority'', VString), (''memory_bytes'', VInt), (''plane'', VMaybe VString), (''unit'', VMaybe VString), (''pid'', VMaybe VInt)]
      [(''lease_id'', VString), (''plane_id'', VString), (''allocated_memory'', VInt)],
    DMethod ''ReleaseLease'' [(''lease_id'', VString)] [],
    DMethod ''Yield'' [(''lease_id'', VString)] [],
    DMethod ''Freeze'' [(''lease_id'', VString)] [],
    DMethod ''Thaw'' [(''lease_id'', VString)] [],
    DMethod ''ListLeases'' [] [(''leases'', VArray (VNamed ''LeaseInfo''))],
    DMethod ''ListModels'' [] [(''models'', VArray (VNamed ''ModelInfo''))],
    DMethod ''RegisterModel''
      [(''id'', VString), (''format'', VString), (''path'', VString), (''estimated_bytes'', VInt)] [],
    DMethod ''EvictModel'' [(''model'', VString)] [],
    DMethod ''PinModel'' [(''model'', VString), (''plane'', VString)] [],
    DMethod ''StreamInference'' [(''model'', VString), (''prompt'', VString)] [(''chunk'', VString)],
    DError ''MethodNotFound'' [(''method'', VString)],
    DError ''InvalidParameter'' [(''parameter'', VString)],
    DError ''ResourceExhaustion'' [(''plane'', VString), (''requested'', VInt), (''available'', VInt)],
    DError ''PlaneNotFound'' [(''plane'', VString)],
    DError ''LeaseNotFound'' [(''lease_id'', VString)],
    DError ''ModelNotFound'' [(''model'', VString)]]"

definition service_decls :: "decl list" where
  "service_decls =
   [DMethod ''GetInfo'' []
      [(''vendor'', VString), (''product'', VString), (''version'', VString), (''url'', VString), (''interfaces'', VArray VString)],
    DMethod ''GetInterfaceDescription'' [(''interface'', VString)] [(''description'', VString)],
    DError ''InterfaceNotFound'' [(''interface'', VString)],
    DError ''MethodNotFound'' [(''method'', VString)],
    DError ''MethodNotImplemented'' [(''method'', VString)],
    DError ''InvalidParameter'' [(''parameter'', VString)]]"

lemma service_idl: "parse_idl ORG_VARLINK_SERVICE_IDL = Some (DInterface ''org.varlink.service'' # service_decls)"
  unfolding parse_idl_def ORG_VARLINK_SERVICE_IDL_def tokens_join by code_simp

lemma syntrop_idl: "parse_idl IO_SYNTROP_INFERENCE1_IDL = Some (DInterface ''io.syntrop.Inference1'' # lease_decls)"
  unfolding parse_idl_def IO_SYNTROP_INFERENCE1_IDL_def tokens_join by code_simp

lemma interface_first:
  "tokens_of [] l = [Word ''interface'', Word n] \<Longrightarrow>
     parse_idl (join_lines (l # ls)) = map_option (Cons (DInterface n)) (parse_decls (concat (map (tokens_of []) ls)))"
  by (simp add: parse_idl_def tokens_join parse_decl_def)

lemma legacy_idl: "parse_idl IO_SYSTEMD_INFERENCED1_IDL = Some (DInterface ''io.systemd.inferenced1'' # lease_decls)"
proof -
  have a: "tokens_of [] ''interface io.systemd.inferenced1'' = [Word ''interface'', Word ''io.systemd.inferenced1'']"
    and b: "tokens_of [] ''interface io.syntrop.Inference1'' = [Word ''interface'', Word ''io.syntrop.Inference1'']"
    by code_simp+
  show ?thesis
    using syntrop_idl
    unfolding IO_SYSTEMD_INFERENCED1_IDL_def IO_SYNTROP_INFERENCE1_IDL_def interface_first [OF a] interface_first [OF b]
    by (simp only: map_option_eq_Some list.inject simp_thms ex_simps)
qed

section \<open>Replies of the handlers\<close>

lemma conforms_simps [simp]:
  "conforms N VString (JStr x)" "conforms N VBool (JBool b)" "conforms N (VMaybe VString) (json_opt JStr o1)"
  "in_int w \<Longrightarrow> conforms N VInt (json_u64 w)" "int n < 2 ^ 63 \<Longrightarrow> conforms N VInt (JInt (int n))"
  "json_float f \<noteq> JNull \<Longrightarrow> conforms N VFloat (json_float f)"
proof -
  show ints: "conforms N VInt (JInt (int n))" if "int n < 2 ^ 63" for n using that by simp
  have "int (unat w) < 2 ^ 63" if "in_int w" using that by (simp add: in_int_def word_less_def)
  with ints [of "unat w"] show "conforms N VInt (json_u64 w)" if "in_int w" using that by (simp only: json_u64_def)
qed (simp_all add: json_opt_def json_float_def split: option.splits float_value.splits)

lemma conforms_pid [simp]: "conforms N (VMaybe VInt) (json_opt (\<lambda>p :: u32. JInt (uint p)) o1)"
proof (cases o1)
  case (Some p)
  have "int (unat p) < 2 ^ 63" using unsigned_less [of p, where ?'a = int] by simp
  then have "conforms N VInt (JInt (int (unat p)))" by (rule conforms_simps)
  then show ?thesis by (simp add: Some json_opt_def conforms.simps(6))
qed (simp add: json_opt_def)

declare conforms.simps(1-4,6) [simp del]

lemma declared_types:
  "declared_type (DInterface n # lease_decls) ''ComputePlane'' v \<longleftrightarrow> conforms_fields (\<lambda>_ _. False)
     [(''id'', VString), (''name'', VString), (''kind'', VString), (''total_memory'', VInt),
      (''available_memory'', VInt), (''is_triage_reserved'', VBool)] v"
  "declared_type (DInterface n # lease_decls) ''LeaseInfo'' v \<longleftrightarrow> conforms_fields (\<lambda>_ _. False)
     [(''id'', VString), (''plane_id'', VString), (''allocated_memory'', VInt), (''priority'', VString),
      (''state'', VString), (''client_unit'', VMaybe VString), (''client_pid'', VMaybe VInt)] v"
  "declared_type (DInterface n # lease_decls) ''ModelInfo'' v \<longleftrightarrow> conforms_fields (\<lambda>_ _. False)
     [(''id'', VString), (''format'', VString), (''path'', VString), (''estimated_memory'', VInt), (''placement'', VString)] v"
  by (simp_all add: declared_type_def lease_decls_def)

text \<open>A reply without an error carries a value with the declared fields.\<close>

definition well_typed :: "decl list \<Rightarrow> fields \<Rightarrow> varlink_reply \<Rightarrow> bool" where
  "well_typed ds outs r \<longleftrightarrow> v_error r = None \<longrightarrow>
     (case v_parameters r of Some v \<Rightarrow> conforms_fields (declared_type ds) outs v | None \<Rightarrow> False)"

lemma well_typed_simps [simp]:
  "well_typed ds outs (reply_ok v) = conforms_fields (declared_type ds) outs v"
  "well_typed ds outs (reply_error e p)" "well_typed ds outs (invalid_parameter a)"
  "well_typed ds outs (error_reply L k x)" "well_typed ds outs (model_not_found a)"
  by (simp_all add: well_typed_def reply_ok_def reply_error_def invalid_parameter_def error_reply_def model_not_found_def)

lemma typed_service:
  "well_typed ds [(''vendor'', VString), (''product'', VString), (''version'', VString), (''url'', VString), (''interfaces'', VArray VString)] handle_get_info"
  "well_typed ds [(''description'', VString)] (handle_get_interface_description params)"
  by (simp_all add: handle_get_info_def handle_get_interface_description_def conforms_fields_def split: option.splits)

lemma typed_status:
  assumes "signed_sizes st"
  shows "well_typed ds [(''status'', VString), (''version'', VString), (''daemon'', VString), (''planes_count'', VInt),
       (''leases_count'', VInt), (''pressure'', VString)] (handle_get_status E st)"
  using assms by (simp add: handle_get_status_def conforms_fields_def signed_sizes_def)

lemma typed_pressure:
  assumes "finite_pressure (e_psi E)"
  shows "well_typed ds [(''level'', VString), (''cpu_some'', VFloat), (''memory_some'', VFloat), (''io_some'', VFloat)] (handle_get_pressure E)"
  using assms by (simp add: handle_get_pressure_def conforms_fields_def finite_pressure_def)

lemma typed_planes:
  assumes "signed_sizes st"
  shows "conforms (declared_type (DInterface n # lease_decls)) (VArray (VNamed ''ComputePlane'')) (JArr (map plane_json (planes (topology st))))"
  using assms by (auto simp: declared_types conforms_fields_def plane_json_def signed_sizes_def list_all_iff)

lemma typed_topology:
  assumes "signed_sizes st"
  shows "well_typed (DInterface n # lease_decls) [(''planes'', VArray (VNamed ''ComputePlane''))] (handle_list_planes st)"
    and "well_typed (DInterface n # lease_decls)
      [(''planes'', VArray (VNamed ''ComputePlane'')), (''total_ram'', VInt), (''available_ram'', VInt), (''cpu_cores'', VInt)]
      (handle_get_topology st)"
  using assms typed_planes [OF assms]
  by (simp_all add: handle_list_planes_def handle_get_topology_def conforms_fields_def signed_sizes_def del: conforms.simps)

lemma typed_lists:
  assumes "signed_sizes st"
  shows "well_typed (DInterface n # lease_decls) [(''leases'', VArray (VNamed ''LeaseInfo''))] (handle_list_leases L st)"
    and "well_typed (DInterface n # lease_decls) [(''models'', VArray (VNamed ''ModelInfo''))] (handle_list_models st)"
  using assms
  by (auto simp: handle_list_leases_def handle_list_models_def conforms_fields_def declared_types signed_sizes_def list_all_iff)

lemma typed_empty [simp]: "well_typed ds [] (reply_ok (JObj []))"
  by (simp add: conforms_fields_def)

lemma typed_commands:
  "well_typed ds [] (fst (handle_release_lease L params st active))" "well_typed ds [] (fst (handle_yield L params st))"
  "well_typed ds [] (fst (handle_freeze L params st))" "well_typed ds [] (fst (handle_thaw L params st))"
  "well_typed ds [] (fst (handle_register_model E params st))" "well_typed ds [] (fst (handle_evict_model params st))"
  "well_typed ds [] (fst (handle_pin_model params st))"
proof -
  have parse: "parse_lease_id L params = Err e \<Longrightarrow> \<exists>a. e = invalid_parameter a" for e
    by (auto simp: parse_lease_id_def split: option.splits)
  have tr: "well_typed ds [] (fst (handle_transition opn k L params st))" for opn k
    by (auto simp: handle_transition_def simp del: well_typed_simps(1) dest: parse split: sum.splits prod.splits)
  then show "well_typed ds [] (fst (handle_yield L params st))" "well_typed ds [] (fst (handle_freeze L params st))"
    "well_typed ds [] (fst (handle_thaw L params st))"
    by (simp_all add: handle_yield_def handle_freeze_def handle_thaw_def)
  show "well_typed ds [] (fst (handle_release_lease L params st active))"
    by (auto simp: handle_release_lease_def simp del: well_typed_simps(1) dest: parse split: sum.splits prod.splits)
qed (auto simp: handle_register_model_def handle_evict_model_def handle_pin_model_def Let_def
      simp del: well_typed_simps(1) split: option.splits prod.splits bool.splits)

lemma typed_acquire:
  assumes "handle_acquire_lease L E params peer st active = (r, st', active', fx)" and "signed_sizes st'"
  shows "well_typed ds [(''lease_id'', VString), (''plane_id'', VString), (''allocated_memory'', VInt)] r"
proof (cases params)
  case (Some p)
  define mem where "mem = or_else (get_u64 ''memory_bytes'' p) (1024 * 1024 * 1024)"
  obtain un pid pr where at: "attribution p peer = (un, pid, pr)" by (metis prod_cases3)
  obtain res st1 fx1 where a: "acquire_lease (e_psi E) (e_id E) (e_now E) pr mem (get_str ''plane'' p) un pid st = (res, st1, fx1)"
    by (metis prod_cases3)
  have h: "(r, st', active', fx) = (case res of
      Ok l \<Rightarrow> (reply_ok (JObj [(''lease_id'', JStr (uuid_show L (l_id l))), (''plane_id'', JStr (l_plane_id l)),
         (''allocated_memory'', json_u64 (l_allocated l))]), st1, active @ [l_id l], fx1)
    | Err e \<Rightarrow> (error_reply L ''io.systemd.inferenced1.ResourceExhaustion'' e, st1, active, fx1))"
    using assms(1) unfolding handle_acquire_lease_def Some option.case Let_def mem_def [symmetric] by (simp add: at a)
  have sgn: "in_int (l_allocated l)" if "res = Ok l" for l
    using a
  proof (cases rule: acquire_cases)
    case (granted idx plane t1 ls1 fz lease)
    then have "l = lease" "st' = st1" using that h by simp_all
    then have "hm_get (leases st') (e_id E) = Some l" using granted by simp
    then have "l \<in> set (list_leases st')" by (force simp: list_leases_def hm_values_def dest: hm_get_SomeD)
    then show ?thesis using assms(2) by (auto simp: signed_sizes_def list_all_iff)
  qed (use that in simp_all)
  show ?thesis
    using h sgn by (auto simp: conforms_fields_def split: sum.splits)
qed (use assms in \<open>auto simp: handle_acquire_lease_def\<close>)

lemma typed_stream:
  assumes "b \<in> set (handle_stream_inference J params)"
  shows "\<exists>v c. b = to_bytes J (reply_streaming v c) \<and> conforms_fields N [(''chunk'', VString)] v"
  using assms by (auto simp: handle_stream_inference_def conforms_fields_def)

section \<open>Calls\<close>

definition well_typed_result :: "json_lib \<Rightarrow> decl list \<Rightarrow> fields \<Rightarrow> call_result \<Rightarrow> bool" where
  "well_typed_result J ds outs r \<longleftrightarrow>
     (case r of
        (Some reply, streamed, _) \<Rightarrow> streamed = [] \<and> well_typed ds outs reply
      | (None, streamed, _) \<Rightarrow> streamed \<noteq> []
          \<and> (\<forall>b \<in> set streamed. \<exists>v c. b = to_bytes J (reply_streaming v c) \<and> conforms_fields (declared_type ds) outs v))"

lemma well_typed_plain [simp]: "well_typed_result J ds outs (plain active r) = well_typed ds outs (fst r)"
  by (simp add: well_typed_result_def plain_def)

lemma handle_method_typed:
  assumes m: "DMethod m ins outs \<in> set lease_decls" and sub: "sub_call full = Some m"
    and sizes: "signed_sizes (fst (snd (snd (handle_method L J E full params peer st active))))" and "finite_pressure (e_psi E)"
  shows "well_typed_result J (DInterface n # lease_decls) outs (handle_method L J E full params peer st active)"
proof -
  let ?acquire = "let (r, st', active', fx) = handle_acquire_lease L E params peer st active in (Some r, [], st', active', fx)"
  have acq: "signed_sizes (fst (snd (snd ?acquire))) \<Longrightarrow> well_typed_result J ds
      [(''lease_id'', VString), (''plane_id'', VString), (''allocated_memory'', VInt)] ?acquire" for ds
    using typed_acquire [of L E params peer st active] by (auto simp: well_typed_result_def split: prod.splits)
  have rel: "well_typed_result J ds [] (let (r, st', active') = handle_release_lease L params st active in (Some r, [], st', active', []))" for ds
    using typed_commands(1) [of ds L params st active] by (simp add: well_typed_result_def case_prod_beta)
  have str: "well_typed_result J ds [(''chunk'', VString)] (None, handle_stream_inference J params, st, active, [])" for ds
    using typed_stream [of _ J params "declared_type ds"] by (auto simp: well_typed_result_def handle_stream_inference_def stream_tokens_def)
  note typed = typed_status typed_pressure [OF assms(4)] typed_topology typed_lists typed_commands acq [unfolded Let_def] rel [unfolded Let_def] str
  have st: "fst (snd (snd (plain active r))) = snd r" for r by (simp add: plain_def)
  show ?thesis
    using m [unfolded lease_decls_def list.set insert_iff empty_iff decl.inject decl.distinct] sizes
    by (elim disjE conjE) (simp_all add: handle_method_def sub typed st Let_def)
qed



text \<open>The hypothesis on sizes cannot be dropped: a client may register a model of any unsigned size,
  which the list of models then repeats as a number that is no protocol integer.\<close>

lemma oversized_model_breaks_type:
  "\<not> well_typed (DInterface n # lease_decls) [(''models'', VArray (VNamed ''ModelInfo''))]
     (handle_list_models (snd (handle_register_model E (Some (JObj [(''id'', JStr ''m''), (''estimated_bytes'', JInt (2 ^ 63))])) (new_arbiter t))))"
proof -
  define w :: u64 where "w = 2 ^ 63"
  have "as_u64 (JInt (2 ^ 63)) = Some w" by (simp add: as_u64_def w_def)
  moreover have "\<not> conforms N VInt (json_u64 w)" for N
    by (simp add: json_u64_def conforms.simps w_def)
  ultimately show ?thesis
    by (simp add: handle_register_model_def handle_list_models_def conforms_fields_def declared_types register_model_def register_def
        new_arbiter_def new_registry_def list_models_def list_registry_def hm_values_def hm_insert_def hm_new_def hm_len_def
        get_u64_def json_get_def or_else_def Let_def)
qed

end
