(* ===== verification/Gateway.thy ===== *)
theory Gateway
  imports Varlink_Conn
begin

text \<open>
  The HTTP gateway (\<^verbatim>\<open>crates/inferenced-daemon/src/gateway/\<close>): the routes, the check of the
  token and the handlers, each of which holds a lease while it works. Requests are parsed and
  responses written by the HTTP libraries. A handler's argument \<open>others\<close> is what the other
  tasks do to the arbiter while it works.
\<close>

section \<open>Data\<close>

record health_response =
  hr_status :: string
  hr_planes :: nat
  hr_daemon :: string

record chat_message =
  cm_role :: string
  cm_content :: string

record chat_completion_request =
  cr_model :: string
  cr_messages :: "chat_message list"
  cr_stream :: bool

record chat_choice =
  cc_index :: nat
  cc_message :: chat_message
  cc_finish_reason :: string

record chat_completion_response =
  cp_id :: string
  cp_model :: string
  cp_choices :: "chat_choice list"

text \<open>A response; the body of a stream is the list of chunks that reach the client.\<close>

datatype http_body = Whole json | Ndjson "json list"

record http_response =
  h_status :: nat
  h_body :: http_body

datatype endpoint = Health | Models | ChatCompletions | OllamaGenerate

definition build_gateway_router :: "(string \<times> string \<times> endpoint) list" where
  "build_gateway_router =
     [(''GET'', ''/health'', Health), (''GET'', ''/v1/models'', Models), (''POST'', ''/v1/chat/completions'', ChatCompletions),
      (''GET'', ''/api/tags'', Models), (''POST'', ''/api/generate'', OllamaGenerate)]"

section \<open>Handlers\<close>

text \<open>\<open>auth\<close> is the text of the authorization header, if there is one that is text.\<close>

definition check_auth :: "string option \<Rightarrow> string option \<Rightarrow> bool" where
  "check_auth auth api_token =
     (case api_token of
        None \<Rightarrow> True
      | Some expected \<Rightarrow>
          (case auth of
             Some a \<Rightarrow> trim (case strip_prefix ''Bearer '' a of Some s \<Rightarrow> s | None \<Rightarrow> a) = expected
           | None \<Rightarrow> False))"

definition unauthorized :: http_response where
  "unauthorized = \<lparr>h_status = 401, h_body = Whole (JObj [(''error'', JStr ''Unauthorized'')])\<rparr>"

definition unavailable :: "text_lib \<Rightarrow> error \<Rightarrow> http_response" where
  "unavailable L e = \<lparr>h_status = 503, h_body = Whole (JObj [(''error'', JStr (error_to_string L e))])\<rparr>"

definition health_handler :: "arbiter_state \<Rightarrow> health_response" where
  "health_handler st = \<lparr>hr_status = ''ok'', hr_planes = length (planes (topology st)), hr_daemon = ''systemd-inferenced v0.1.0''\<rparr>"

definition models_handler :: json where
  "models_handler = JObj [(''object'', JStr ''list''), (''data'', JArr
     [JObj [(''id'', JStr ''qwen2.5-coder:7b''), (''object'', JStr ''model''), (''owned_by'', JStr ''systemd-inferenced'')],
      JObj [(''id'', JStr ''llama3.2:1b''), (''object'', JStr ''model''), (''owned_by'', JStr ''systemd-inferenced'')]])]"

definition memory_needed :: "string \<Rightarrow> arbiter_state \<Rightarrow> u64" where
  "memory_needed model st = (case get_model st model of Some m \<Rightarrow> m_estimated m | None \<Rightarrow> 512 * 1024 * 1024)"

text \<open>The lease both handlers ask for.\<close>

definition gateway_lease ::
  "env \<Rightarrow> string \<Rightarrow> string \<Rightarrow> arbiter_state \<Rightarrow> (error, compute_lease) result \<times> arbiter_state \<times> effect list" where
  "gateway_lease E client model st =
     acquire_lease (e_psi E) (e_id E) (e_now E) Interactive (memory_needed model st) None (Some client) None st"

definition chat_response :: "string \<Rightarrow> string \<Rightarrow> chat_completion_response" where
  "chat_response uuid model = \<lparr>cp_id = ''chatcmpl-'' @ uuid, cp_model = model,
     cp_choices = [\<lparr>cc_index = 0,
        cc_message = \<lparr>cm_role = ''assistant'', cm_content = ''systemd-inferenced: Model compute slice allocated and verified.''\<rparr>,
        cc_finish_reason = ''stop''\<rparr>]\<rparr>"

definition message_json :: "chat_message \<Rightarrow> json" where
  "message_json m = JObj [(''role'', JStr (cm_role m)), (''content'', JStr (cm_content m))]"

definition choice_json :: "chat_choice \<Rightarrow> json" where
  "choice_json c = JObj [(''index'', JInt (int (cc_index c))), (''message'', message_json (cc_message c)),
     (''finish_reason'', JStr (cc_finish_reason c))]"

definition chat_json :: "chat_completion_response \<Rightarrow> json" where
  "chat_json r = JObj [(''id'', JStr (cp_id r)), (''model'', JStr (cp_model r)), (''choices'', JArr (map choice_json (cp_choices r)))]"

definition chat_completions_handler ::
  "text_lib \<Rightarrow> env \<Rightarrow> string \<Rightarrow> (arbiter_state \<Rightarrow> arbiter_state) \<Rightarrow> string option \<Rightarrow> string option \<Rightarrow> chat_completion_request
   \<Rightarrow> arbiter_state \<Rightarrow> http_response \<times> arbiter_state \<times> effect list" where
  "chat_completions_handler L E uuid others api_token auth req st =
     (if \<not> check_auth auth api_token then (unauthorized, st, [])
      else (case gateway_lease E ''gateway-client'' (cr_model req) st of
              (Err e, st', fx) \<Rightarrow> (unavailable L e, st', fx)
            | (Ok l, st', fx) \<Rightarrow>
                (\<lparr>h_status = 200, h_body = Whole (chat_json (chat_response uuid (cr_model req)))\<rparr>,
                 snd (release_lease L (l_id l) (others st')), fx)))"

definition generate_tokens :: "string \<Rightarrow> string list" where
  "generate_tokens prompt = [''systemd-inferenced: '', ''streaming '', ''token '', ''generation '',
     ''for prompt '' @ CHR 0x27 # prompt @ CHR 0x27 # ''.'']"

definition token_chunk :: "string \<Rightarrow> string \<Rightarrow> string \<Rightarrow> json" where
  "token_chunk model now tok =
     JObj [(''model'', JStr model), (''created_at'', JStr now), (''response'', JStr tok), (''done'', JBool False)]"

definition final_chunk :: "string \<Rightarrow> string \<Rightarrow> json" where
  "final_chunk model now =
     JObj [(''model'', JStr model), (''created_at'', JStr now), (''response'', JStr []), (''done'', JBool True),
       (''total_duration'', JInt 1500000)]"

text \<open>
  The streaming task. The client takes \<open>n\<close> chunks before it goes away; sending stops at the first
  failure, and the final chunk is tried in any case.
\<close>

fun send_tokens :: "nat \<Rightarrow> json list \<Rightarrow> json list \<times> nat" where
  "send_tokens n [] = ([], n)"
| "send_tokens 0 (c # cs) = ([], 0)"
| "send_tokens (Suc n) (c # cs) = (let (sent, k) = send_tokens n cs in (c # sent, k))"

definition stream_body :: "nat \<Rightarrow> (nat \<Rightarrow> string) \<Rightarrow> string \<Rightarrow> string \<Rightarrow> json list" where
  "stream_body n clock model prompt =
     (let toks = generate_tokens prompt;
          (sent, k) = send_tokens n (map (\<lambda>(i, tok). token_chunk model (clock i) tok) (enumerate 0 toks))
      in sent @ (if 0 < k then [final_chunk model (clock (length toks))] else []))"

definition ollama_generate_handler ::
  "text_lib \<Rightarrow> env \<Rightarrow> nat \<Rightarrow> (nat \<Rightarrow> string) \<Rightarrow> (arbiter_state \<Rightarrow> arbiter_state) \<Rightarrow> string option \<Rightarrow> string option \<Rightarrow> json
   \<Rightarrow> arbiter_state \<Rightarrow> http_response \<times> arbiter_state \<times> effect list" where
  "ollama_generate_handler L E n clock others api_token auth payload st =
     (if \<not> check_auth auth api_token then (unauthorized, st, [])
      else
        let model = or_else (get_str ''model'' payload) ''default''; prompt = or_else (get_str ''prompt'' payload) [];
            stream_requested = or_else (Option.bind (json_get ''stream'' payload) as_bool) True
        in (case gateway_lease E ''ollama-client'' model st of
              (Err e, st', fx) \<Rightarrow> (unavailable L e, st', fx)
            | (Ok l, st', fx) \<Rightarrow>
                (\<lparr>h_status = 200, h_body =
                    (if stream_requested then Ndjson (stream_body n clock model prompt)
                     else Whole (JObj [(''model'', JStr model), (''created_at'', JStr (clock 0)),
                       (''response'', JStr (''systemd-inferenced: processed prompt '' @ CHR 0x27 # prompt @ [CHR 0x27])),
                       (''done'', JBool True), (''total_duration'', JInt 1500000)]))\<rparr>,
                 snd (release_lease L (l_id l) (others st')), fx)))"

section \<open>Properties\<close>

lemma gateway_lease_id: "gateway_lease E client model st = (Ok l, st', fx) \<Longrightarrow> l_id l = e_id E"
  unfolding gateway_lease_def by (cases rule: acquire_cases) (auto simp: new_lease_def)

lemma gateway_lease_inv:
  assumes "arbiter_inv st" and "hm_get (leases st) (e_id E) = None" and "gateway_lease E client model st = (r, st', fx)"
  shows "arbiter_inv st'"
proof -
  let ?op = "OpAcquire (e_psi E) (e_id E) (e_now E) Interactive (memory_needed model st) None (Some client) None"
  have "guarded_step (\<lambda>_ _. True) L st (exec_op L ?op st)" for L using guarded_step.op [of ?op st] assms(2) by simp
  moreover have "exec_op L ?op st = st'" for L using assms(3) by (simp add: gateway_lease_def)
  ultimately show ?thesis using guarded_step_inv [OF assms(1)] by metis
qed

text \<open>What is true of a lease after it was refused, or granted and released behind other tasks.\<close>

lemma gateway_lease_over:
  assumes inv: "arbiter_inv st" and fresh: "hm_get (leases st) (e_id E) = None"
    and step: "(guarded_step (fresh_for (e_id E)) L)\<^sup>*\<^sup>* s (others s)"
    and lease: "gateway_lease E client model st = (r, s, fx)"
    and after: "(guarded_step (fresh_for (e_id E)) L)\<^sup>*\<^sup>*
                  (case r of Ok l \<Rightarrow> snd (release_lease L (l_id l) (others s)) | Err e \<Rightarrow> s) t"
  shows "arbiter_inv t \<and> ended t (e_id E)"
proof (cases r)
  case (Inl e)
  have "ended s (e_id E)"
    using refused_keeps_absent [OF _ inv fresh] lease Inl by (force simp: gateway_lease_def ended_def)
  then show ?thesis
    using arbiter.kept.steps_inv [OF after] gateway_lease_inv [OF inv fresh lease] Inl by simp
next
  case (Inr l)
  have "l_id l = e_id E" using gateway_lease_id lease Inr by blast
  moreover have "arbiter_inv (others s)" using arbiter.valid_runs [OF step] gateway_lease_inv [OF inv fresh lease] by blast
  ultimately show ?thesis using arbiter.over_for_good [of "others s"] after Inr by simp
qed


text \<open>A client that reads the whole answer of a streamed request gets every part of it in order,
  and exactly the last chunk is marked as done.\<close>

lemma stream_is_complete:
  assumes "length (generate_tokens prompt) < n"
  shows "concat (List.map_filter (get_str ''response'') (stream_body n clock model prompt))
      = ''systemd-inferenced: streaming token generation for prompt '' @ CHR 0x27 # prompt @ CHR 0x27 # ''.''
    \<and> map (\<lambda>c. json_get ''done'' c = Some (JBool True)) (stream_body n clock model prompt)
      = replicate (length (generate_tokens prompt)) False @ [True]"
proof -
  have send: "length cs \<le> n \<Longrightarrow> send_tokens n cs = (cs, n - length cs)" for n cs
    by (induction n cs rule: send_tokens.induct) auto
  have "stream_body n clock model prompt = map (\<lambda>(i, tok). token_chunk model (clock i) tok) (enumerate 0 (generate_tokens prompt))
      @ [final_chunk model (clock (length (generate_tokens prompt)))]"
    using assms by (simp add: stream_body_def send Let_def)
  then show ?thesis
    by (simp add: generate_tokens_def token_chunk_def final_chunk_def map_filter_simps get_str_def json_get_def as_str_def)
qed


end
