(* ===== verification/Sentry.thy ===== *)
theory Sentry
  imports Varlink_Conn
begin

text \<open>
  The emergency triage server (\<^verbatim>\<open>crates/inferenced-daemon/src/sentry/mod.rs\<close>): every message on
  a connection gets an emergency lease for as long as the reply takes. The JSON library, the
  reads and whether a reply can be written are arguments, as is what other tasks do to the
  arbiter before a turn (in the state it starts from) and during it (\<open>others\<close>).
\<close>

record sentry_triage_response =
  sr_status :: string
  sr_incident_id :: "string option"
  sr_allocated_plane :: string
  sr_plane_assigned :: string
  sr_queue_latency_us :: u64
  sr_preemption_triggered :: bool
  sr_analysis :: string

text \<open>\<open>serde_json::from_slice\<close> for values; a message that is no JSON is wrapped as it is.\<close>

definition sentry_payload :: "(string \<Rightarrow> json option) \<Rightarrow> string \<Rightarrow> json" where
  "sentry_payload decode buf = (case decode buf of Some v \<Rightarrow> v | None \<Rightarrow> JObj [(''raw'', JStr (utf8_lossy buf))])"

definition sentry_unit :: "json \<Rightarrow> string" where
  "sentry_unit v = or_else (get_str ''unit_name'' v) ''systemd-sentry.service''"

definition sentry_response :: "json \<Rightarrow> compute_lease \<Rightarrow> sentry_triage_response" where
  "sentry_response v l = \<lparr>sr_status = ''accepted'', sr_incident_id = get_str ''incident_id'' v,
     sr_allocated_plane = l_plane_id l, sr_plane_assigned = l_plane_id l, sr_queue_latency_us = 0,
     sr_preemption_triggered = True,
     sr_analysis = ''Emergency compute isolated on plane '' @ l_plane_id l @ ''. AI hardware state preserved.''\<rparr>"

text \<open>One turn of the loop: the reply, whether the loop goes on, the new state and the effects.\<close>

definition sentry_turn ::
  "text_lib \<Rightarrow> (string \<Rightarrow> json option) \<Rightarrow> env \<Rightarrow> (arbiter_state \<Rightarrow> arbiter_state) \<Rightarrow> bool \<Rightarrow> string \<Rightarrow> arbiter_state
   \<Rightarrow> (error, sentry_triage_response \<times> bool) result \<times> arbiter_state \<times> effect list" where
  "sentry_turn L decode E others write_ok buf st =
     (let v = sentry_payload decode buf in
      case acquire_lease (e_psi E) (e_id E) (e_now E) EmergencyTriage (1024 * 1024 * 1024) None (Some (sentry_unit v)) None st of
        (Err e, st', fx) \<Rightarrow> (Err e, st', fx)
      | (Ok l, st', fx) \<Rightarrow> (Ok (sentry_response v l, write_ok), snd (release_lease L (l_id l) (others st')), fx))"

text \<open>A message as it arrives: what the turn reads besides, and whether the reply can be written.\<close>

record sentry_event =
  se_buf :: string
  se_env :: env
  se_write_ok :: bool
  se_others :: "arbiter_state \<Rightarrow> arbiter_state"

fun handle_sentry_connection ::
  "text_lib \<Rightarrow> (string \<Rightarrow> json option) \<Rightarrow> sentry_event list \<Rightarrow> arbiter_state \<Rightarrow> sentry_triage_response list \<times> arbiter_state \<times> effect list" where
  "handle_sentry_connection L decode [] st = ([], st, [])"
| "handle_sentry_connection L decode (e # es) st =
     (if se_buf e = [] then ([], st, [])
      else (case sentry_turn L decode (se_env e) (se_others e) (se_write_ok e) (se_buf e) st of
              (Err _, st', fx) \<Rightarrow> ([], st', fx)
            | (Ok (r, False), st', fx) \<Rightarrow> ([r], st', fx)
            | (Ok (r, True), st', fx) \<Rightarrow>
                (let (rs, st'', fx') = handle_sentry_connection L decode es st' in (r # rs, st'', fx @ fx'))))"

section \<open>Properties\<close>



end
