(* ===== verification/Inhibit.thy ===== *)
theory Inhibit
  imports Lease_Service Os
begin

text \<open>
  The sleep and idle inhibitor (\<^verbatim>\<open>crates/inferenced-daemon/src/inhibit.rs\<close>) and the task of
  \<^verbatim>\<open>main.rs\<close> that drives it from the number of active leases. The manager counts leases,
  takes an inhibitor lock when the count leaves zero and gives it up when the count returns
  to zero. Three mechanisms are tried in turn; what the host answers is an argument.
\<close>

section \<open>The manager\<close>

datatype inhibit_handle = SystemdInhibit | FileLock string | BusSocket

datatype inhibit_mode = ModeSystemdInhibit | ModeStandaloneFileLock | ModeUnixBusSocket

record inhibitor =
  i_active :: usize
  i_inhibited :: bool
  i_handle :: "inhibit_handle option"
  i_lock_path :: string
  i_bus_socket :: "string option"
  i_standalone :: bool

record inhibit_host =
  ih_pid :: u32
  ih_spawn :: bool \<comment> \<open>\<open>systemd-inhibit\<close> can be started\<close>
  ih_open :: "string \<Rightarrow> bool" \<comment> \<open>the lock file can be opened\<close>
  ih_flock :: "string \<Rightarrow> bool"
  ih_connect :: "string \<Rightarrow> bool"
  ih_os :: os

datatype inhibit_effect =
    Spawn "string list"
  | WriteLock string string
  | BusSend string
  | KillChild
  | UnlockAndRemove string

definition with_options :: "string \<Rightarrow> bool \<Rightarrow> inhibitor" where
  "with_options path standalone = \<lparr>i_active = 0, i_inhibited = False, i_handle = None, i_lock_path = path,
     i_bus_socket = None, i_standalone = standalone\<rparr>"

definition with_lock_path :: "string \<Rightarrow> inhibitor" where
  "with_lock_path path = with_options path False"

definition with_bus_socket :: "string \<Rightarrow> inhibitor \<Rightarrow> inhibitor" where
  "with_bus_socket p m = m\<lparr>i_bus_socket := Some p\<rparr>"

text \<open>\<open>mkdir\<close> tells whether \<open>create_dir_all\<close> succeeds; the temporary directory is the host's.\<close>

definition default_lock_path :: "os \<Rightarrow> (string \<Rightarrow> bool) \<Rightarrow> string \<Rightarrow> string" where
  "default_lock_path h mkdir temp_dir =
     (let run_dir = ''/run/systemd-inferenced'' in
      if os_exists h run_dir \<or> mkdir run_dir then path_join run_dir ''inhibit.lock''
      else (case os_env_var h ''XDG_RUNTIME_DIR'' of
              Some rt \<Rightarrow> path_join (path_join rt ''systemd-inferenced'') ''inhibit.lock''
            | None \<Rightarrow> path_join temp_dir ''systemd-inferenced-inhibit.lock''))"

definition new_inhibitor :: "os \<Rightarrow> (string \<Rightarrow> bool) \<Rightarrow> string \<Rightarrow> inhibitor" where
  "new_inhibitor h mkdir temp_dir = with_options (default_lock_path h mkdir temp_dir) False"

definition active_mode :: "inhibitor \<Rightarrow> inhibit_mode option" where
  "active_mode m = map_option (\<lambda>h. case h of SystemdInhibit \<Rightarrow> ModeSystemdInhibit | FileLock _ \<Rightarrow> ModeStandaloneFileLock
     | BusSocket \<Rightarrow> ModeUnixBusSocket) (i_handle m)"

definition active_lease_count :: "inhibitor \<Rightarrow> usize" where
  "active_lease_count m = i_active m"

definition acquire_standalone_fd_lock :: "inhibit_host \<Rightarrow> inhibitor \<Rightarrow> bool \<times> inhibitor \<times> inhibit_effect list" where
  "acquire_standalone_fd_lock H m =
     (if ih_open H (i_lock_path m) \<and> ih_flock H (i_lock_path m)
      then (True, m\<lparr>i_handle := Some (FileLock (i_lock_path m)), i_inhibited := True\<rparr>,
            [WriteLock (i_lock_path m) (''pid='' @ show_nat (unat (ih_pid H)) @ nl # ''state=inhibited'' @ nl # ''leases=''
               @ show_nat (unat (i_active m)) @ [nl, nl])])
      else (False, m, []))"

definition bus_path :: "os \<Rightarrow> inhibitor \<Rightarrow> string option" where
  "bus_path h m =
     (case i_bus_socket m of
        Some p \<Rightarrow> Some p
      | None \<Rightarrow> (case os_env_var h ''INHIBIT_SOCKET'' of
                   Some p \<Rightarrow> Some p
                 | None \<Rightarrow> if os_exists h ''/run/systemd/inhibit.sock'' then Some ''/run/systemd/inhibit.sock'' else None))"

definition acquire_unix_bus_socket :: "inhibit_host \<Rightarrow> inhibitor \<Rightarrow> inhibitor \<times> inhibit_effect list" where
  "acquire_unix_bus_socket H m =
     (case bus_path (ih_os H) m of
        None \<Rightarrow> (m, [])
      | Some p \<Rightarrow>
          if ih_connect H p
          then (m\<lparr>i_handle := Some BusSocket, i_inhibited := True\<rparr>,
                [BusSend (''INHIBIT:sleep:idle pid='' @ show_nat (unat (ih_pid H)) @ '' leases='' @ show_nat (unat (i_active m)) @ [nl])])
          else (m, []))"

definition acquire_inhibit_lock :: "inhibit_host \<Rightarrow> inhibitor \<Rightarrow> inhibitor \<times> inhibit_effect list" where
  "acquire_inhibit_lock H m =
     (if i_handle m \<noteq> None then (m, [])
      else if \<not> i_standalone m \<and> ih_spawn H
      then (m\<lparr>i_handle := Some SystemdInhibit, i_inhibited := True\<rparr>,
            [Spawn [''--what=sleep:idle'', ''--who=systemd-inferenced'', ''--why=Active AI model inference lease executing'',
                    ''--mode=delay'', ''sleep'', ''infinity'']])
      else (case acquire_standalone_fd_lock H m of
              (True, m', fx) \<Rightarrow> (m', fx)
            | (False, m', fx) \<Rightarrow> acquire_unix_bus_socket H m'))"

definition release_inhibit_lock :: "inhibitor \<Rightarrow> inhibitor \<times> inhibit_effect list" where
  "release_inhibit_lock m =
     (case i_handle m of
        None \<Rightarrow> (m, [])
      | Some h \<Rightarrow> (m\<lparr>i_handle := None, i_inhibited := False\<rparr>,
          [case h of SystemdInhibit \<Rightarrow> KillChild | FileLock p \<Rightarrow> UnlockAndRemove p | BusSocket \<Rightarrow> BusSend (''RELEASE'' @ [nl])]))"

definition on_lease_acquired :: "inhibit_host \<Rightarrow> inhibitor \<Rightarrow> inhibitor \<times> inhibit_effect list" where
  "on_lease_acquired H m =
     (let m' = m\<lparr>i_active := i_active m + 1\<rparr> in if i_active m = 0 then acquire_inhibit_lock H m' else (m', []))"

definition on_lease_released :: "inhibitor \<Rightarrow> inhibitor \<times> inhibit_effect list" where
  "on_lease_released m =
     (let m' = m\<lparr>i_active := i_active m - 1\<rparr> in if i_active m = 1 then release_inhibit_lock m' else (m', []))"

section \<open>The monitor\<close>

fun acquire_many :: "inhibit_host list \<Rightarrow> inhibitor \<Rightarrow> inhibitor \<times> inhibit_effect list" where
  "acquire_many [] m = (m, [])"
| "acquire_many (H # Hs) m = (let (m1, fx1) = on_lease_acquired H m; (m2, fx2) = acquire_many Hs m1 in (m2, fx1 @ fx2))"

fun release_many :: "nat \<Rightarrow> inhibitor \<Rightarrow> inhibitor \<times> inhibit_effect list" where
  "release_many 0 m = (m, [])"
| "release_many (Suc n) m = (let (m1, fx1) = on_lease_released m; (m2, fx2) = release_many n m1 in (m2, fx1 @ fx2))"

definition active_count :: "arbiter_state \<Rightarrow> nat" where
  "active_count st = length (filter is_active (list_leases st))"

text \<open>One tick of the monitor; \<open>host k\<close> is how the host answers during the \<open>k\<close>-th call.\<close>

definition monitor_tick ::
  "(nat \<Rightarrow> inhibit_host) \<Rightarrow> arbiter_state \<Rightarrow> nat \<times> inhibitor \<Rightarrow> (nat \<times> inhibitor) \<times> inhibit_effect list" where
  "monitor_tick host st s =
     (let (prev_count, m) = s; n = active_count st;
          (m', fx) = (if prev_count < n then acquire_many (map host [0..<n - prev_count]) m
                      else if n < prev_count then release_many (prev_count - n) m
                      else (m, []))
      in ((n, m'), fx))"

fun monitor :: "((nat \<Rightarrow> inhibit_host) \<times> arbiter_state) list \<Rightarrow> nat \<times> inhibitor \<Rightarrow> nat \<times> inhibitor" where
  "monitor [] s = s"
| "monitor ((host, st) # ticks) s = monitor ticks (fst (monitor_tick host st s))"

section \<open>Properties\<close>

definition inhibitor_ok :: "nat \<Rightarrow> inhibitor \<Rightarrow> bool" where
  "inhibitor_ok n m \<longleftrightarrow> unat (i_active m) = n \<and> (i_inhibited m \<longleftrightarrow> i_handle m \<noteq> None) \<and> (i_handle m \<noteq> None \<longrightarrow> 0 < n)"

text \<open>A host on which one of the first two mechanisms works.\<close>

definition can_inhibit :: "inhibitor \<Rightarrow> inhibit_host \<Rightarrow> bool" where
  "can_inhibit m H \<longleftrightarrow> \<not> i_standalone m \<and> ih_spawn H \<or> ih_open H (i_lock_path m) \<and> ih_flock H (i_lock_path m)"

definition options_of :: "inhibitor \<Rightarrow> string \<times> string option \<times> bool" where
  "options_of m = (i_lock_path m, i_bus_socket m, i_standalone m)"

lemma can_inhibit_options: "options_of m = options_of m' \<Longrightarrow> can_inhibit m H = can_inhibit m' H"
  by (simp add: options_of_def can_inhibit_def)

lemma acquire_lock_cases:
  assumes "i_handle m = None"
  shows "fst (acquire_inhibit_lock H m) = m \<or> (\<exists>h. fst (acquire_inhibit_lock H m) = m\<lparr>i_handle := Some h, i_inhibited := True\<rparr>)"
    and "can_inhibit m H \<Longrightarrow> \<exists>h. fst (acquire_inhibit_lock H m) = m\<lparr>i_handle := Some h, i_inhibited := True\<rparr>"
  using assms by (auto simp: acquire_inhibit_lock_def acquire_standalone_fd_lock_def acquire_unix_bus_socket_def can_inhibit_def split: option.splits)

lemma acquired_ok:
  assumes ok: "inhibitor_ok n m" and n: "Suc n < 2 ^ 64"
  shows "inhibitor_ok (Suc n) (fst (on_lease_acquired H m))" and "options_of (fst (on_lease_acquired H m)) = options_of m"
    and "can_inhibit m H \<or> i_handle m \<noteq> None \<Longrightarrow> i_handle (fst (on_lease_acquired H m)) \<noteq> None \<or> 0 < n"
    and "0 < n \<Longrightarrow> i_handle (fst (on_lease_acquired H m)) = i_handle m"
proof -
  let ?m = "m\<lparr>i_active := i_active m + 1\<rparr>"
  have a: "unat (i_active m + 1) = Suc n" "i_active m = 0 \<longleftrightarrow> n = 0"
    using ok n by (auto simp: inhibitor_ok_def unat_word_ariths unat_eq_zero)
  have c: "can_inhibit ?m H = can_inhibit m H" by (simp add: can_inhibit_def)
  show "inhibitor_ok (Suc n) (fst (on_lease_acquired H m))" "options_of (fst (on_lease_acquired H m)) = options_of m"
    "can_inhibit m H \<or> i_handle m \<noteq> None \<Longrightarrow> i_handle (fst (on_lease_acquired H m)) \<noteq> None \<or> 0 < n"
    "0 < n \<Longrightarrow> i_handle (fst (on_lease_acquired H m)) = i_handle m"
    using ok a c acquire_lock_cases [of ?m H]
    by (cases "n = 0"; auto simp: on_lease_acquired_def Let_def inhibitor_ok_def options_of_def)+
qed

lemma released_ok:
  assumes ok: "inhibitor_ok (Suc n) m"
  shows "inhibitor_ok n (fst (on_lease_released m))" and "options_of (fst (on_lease_released m)) = options_of m"
    and "0 < n \<Longrightarrow> i_handle (fst (on_lease_released m)) = i_handle m"
proof -
  have u: "unat (i_active m) = Suc n" using ok by (simp add: inhibitor_ok_def)
  have a: "unat (i_active m - 1) = n" using u by (simp add: unat_sub word_le_nat_alt)
  have "i_active m = 1 \<longleftrightarrow> unat (i_active m) = unat (1 :: usize)" by (metis unsigned_word_eqI)
  then have b: "i_active m = 1 \<longleftrightarrow> n = 0" using u by simp
  show "inhibitor_ok n (fst (on_lease_released m))" "options_of (fst (on_lease_released m)) = options_of m"
    "0 < n \<Longrightarrow> i_handle (fst (on_lease_released m)) = i_handle m"
    using ok a b by (cases "i_handle m"; auto simp: on_lease_released_def release_inhibit_lock_def Let_def inhibitor_ok_def options_of_def)+
qed

lemma acquire_many_ok:
  assumes "inhibitor_ok n m" and "n + length Hs < 2 ^ 64"
  shows "inhibitor_ok (n + length Hs) (fst (acquire_many Hs m)) \<and> options_of (fst (acquire_many Hs m)) = options_of m
    \<and> (list_all (can_inhibit m) Hs \<longrightarrow> (0 < n \<longrightarrow> i_handle m \<noteq> None) \<longrightarrow> 0 < n + length Hs \<longrightarrow> i_handle (fst (acquire_many Hs m)) \<noteq> None)
    \<and> (0 < n \<longrightarrow> i_handle (fst (acquire_many Hs m)) = i_handle m)"
  using assms
proof (induction Hs arbitrary: n m)
  case (Cons H Hs)
  let ?m = "fst (on_lease_acquired H m)"
  have n: "Suc n < 2 ^ 64" using Cons.prems(2) by simp
  note a = acquired_ok [OF Cons.prems(1) n, of H]
  have "can_inhibit ?m = can_inhibit m" using can_inhibit_options [OF a(2)] by blast
  moreover have "fst (acquire_many (H # Hs) m) = fst (acquire_many Hs ?m)" by (simp add: case_prod_beta)
  ultimately show ?case using Cons.IH [OF a(1)] Cons.prems(2) a(2-4) by auto
qed simp

lemma release_many_ok:
  assumes "inhibitor_ok (n + k) m"
  shows "inhibitor_ok n (fst (release_many k m)) \<and> options_of (fst (release_many k m)) = options_of m
    \<and> (0 < n \<longrightarrow> i_handle (fst (release_many k m)) = i_handle m)"
  using assms
proof (induction k arbitrary: m)
  case (Suc k)
  note r = released_ok [of "n + k" m]
  show ?case using Suc.IH [of "fst (on_lease_released m)"] r Suc.prems by (simp add: case_prod_beta)
qed simp

lemma tick_ok:
  assumes "inhibitor_ok n m" and "active_count st < 2 ^ 64" and "monitor_tick host st (n, m) = ((n', m'), fx)"
  shows "n' = active_count st \<and> inhibitor_ok n' m' \<and> options_of m' = options_of m
    \<and> ((\<forall>k. can_inhibit m (host k)) \<longrightarrow> (0 < n \<longrightarrow> i_handle m \<noteq> None) \<longrightarrow> 0 < n' \<longrightarrow> i_handle m' \<noteq> None)
    \<and> (0 < n \<longrightarrow> 0 < n' \<longrightarrow> i_handle m' = i_handle m)"
proof -
  let ?c = "active_count st"
  consider "n < ?c" | "?c < n" | "n = ?c" by linarith
  then show ?thesis
  proof cases
    case 1
    then have "n' = ?c" "m' = fst (acquire_many (map host [0..<?c - n]) m)"
      using assms(3) by (auto simp: monitor_tick_def Let_def split: prod.splits)
    with 1 acquire_many_ok [OF assms(1), of "map host [0..<?c - n]"] assms(2) show ?thesis by (simp add: list_all_iff)
  next
    case 2
    then have "n' = ?c" "m' = fst (release_many (n - ?c) m)" using assms(3) by (auto simp: monitor_tick_def Let_def split: prod.splits)
    with 2 release_many_ok [of ?c "n - ?c" m] assms(1) show ?thesis by auto
  next
    case 3
    then have "n' = ?c" "m' = m" using assms(3) by (auto simp: monitor_tick_def Let_def)
    with 3 assms(1) show ?thesis by simp
  qed
qed

lemma monitor_ok:
  assumes "inhibitor_ok n m" and "list_all (\<lambda>(host, st). active_count st < 2 ^ 64) ticks" and "monitor ticks (n, m) = (n', m')"
  shows "(ticks \<noteq> [] \<longrightarrow> n' = active_count (snd (last ticks))) \<and> inhibitor_ok n' m' \<and> options_of m' = options_of m
    \<and> (list_all (\<lambda>(host, st). \<forall>k. can_inhibit m (host k)) ticks \<longrightarrow> (0 < n \<longrightarrow> i_handle m \<noteq> None) \<longrightarrow> 0 < n' \<longrightarrow> i_handle m' \<noteq> None)
    \<and> (0 < n \<longrightarrow> list_all (\<lambda>(host, st). 0 < active_count st) ticks \<longrightarrow> i_handle m' = i_handle m)"
  using assms
proof (induction ticks arbitrary: n m)
  case (Cons t ticks)
  obtain host st where t: "t = (host, st)" by fastforce
  obtain n1 m1 fx where tick: "monitor_tick host st (n, m) = ((n1, m1), fx)" by (metis prod.collapse)
  have c: "active_count st < 2 ^ 64" using Cons.prems(2) t by simp
  note k = tick_ok [OF Cons.prems(1) c tick]
  have "can_inhibit m1 = can_inhibit m" using k can_inhibit_options by blast
  moreover have "monitor ticks (n1, m1) = (n', m')" using Cons.prems(3) tick t by simp
  ultimately show ?case using Cons.IH [of n1 m1] k Cons.prems(2) t by auto
qed simp


definition ex_awake :: inhibit_host where
  "ex_awake = \<lparr>ih_pid = 1, ih_spawn = True, ih_open = (\<lambda>_. False), ih_flock = (\<lambda>_. False), ih_connect = (\<lambda>_. False), ih_os = empty_os\<rparr>"


text \<open>A mechanism that fails when the first lease appears is not tried again while leases are active.\<close>

lemma failed_inhibit_not_retried:
  assumes "inhibitor_ok n m" and "i_handle m = None" and "0 < n" and "list_all (\<lambda>(host, st). 0 < active_count st) ticks"
    and "list_all (\<lambda>(host, st). active_count st < 2 ^ 64) ticks" and "monitor ticks (n, m) = (n', m')"
  shows "\<not> i_inhibited m'"
  using monitor_ok [OF assms(1,5,6)] assms(2-4) by (simp add: inhibitor_ok_def)

end
