(* ===== verification/Activation.thy ===== *)
theory Activation
  imports Utf8 Os "HOL-Library.Multiset"
begin

text \<open>
  Socket activation (\<^verbatim>\<open>crates/inferenced-daemon/src/activation.rs\<close>): the descriptors that the
  service manager passes are sorted into the slots of the daemon's four servers. Environment
  and system calls are arguments. A descriptor whose owner is dropped is closed: the model
  keeps the list of closed descriptors.
\<close>

section \<open>Data\<close>

definition SD_LISTEN_FDS_START :: int where "SD_LISTEN_FDS_START = 3"

definition SOCKET_VARLINK :: string where "SOCKET_VARLINK = ''io.syntrop.Inference1''"
definition SOCKET_SENTRY :: string where "SOCKET_SENTRY = ''sentry.sock''"
definition SOCKET_FD :: string where "SOCKET_FD = ''fd.sock''"
definition SOCKET_GATEWAY_UNIX :: string where "SOCKET_GATEWAY_UNIX = ''gateway.sock''"

datatype gateway_listener = Tcp int | Unix int

record activated_sockets =
  a_varlink :: "int option"
  a_sentry :: "int option"
  a_fd_server :: "int option"
  a_gateway :: "gateway_listener option"

definition no_sockets :: activated_sockets where
  "no_sockets = \<lparr>a_varlink = None, a_sentry = None, a_fd_server = None, a_gateway = None\<rparr>"

text \<open>\<open>SocketAddrAny\<close>; a Unix address may have no path.\<close>

datatype sock_addr = AddrUnix "string option" | AddrV4 | AddrV6 | AddrOther

record sock_calls =
  k_getsockname :: "int \<Rightarrow> sock_addr option"
  k_setup :: "int \<Rightarrow> bool" \<comment> \<open>the listener can be made non-blocking and registered\<close>

section \<open>Environment\<close>

definition parse_i32 :: "string \<Rightarrow> int option" where
  "parse_i32 s =
     (case s of
        CHR ''-'' # ds \<Rightarrow>
          if ds \<noteq> [] \<and> list_all is_ascii_digit ds \<and> digits_value ds \<le> 2 ^ 31 then Some (- int (digits_value ds)) else None
      | _ \<Rightarrow>
          let ds = (case s of CHR ''+'' # r \<Rightarrow> r | _ \<Rightarrow> s) in
          if ds \<noteq> [] \<and> list_all is_ascii_digit ds \<and> digits_value ds < 2 ^ 31 then Some (int (digits_value ds)) else None)"

definition is_socket_activated :: "os \<Rightarrow> u32 \<Rightarrow> bool" where
  "is_socket_activated h own_pid =
     ((case Option.bind (os_env_var h ''LISTEN_PID'') parse_u32 of Some pid \<Rightarrow> pid = own_pid | None \<Rightarrow> False)
    \<and> (case Option.bind (os_env_var h ''LISTEN_FDS'') parse_i32 of Some n \<Rightarrow> 0 < n | None \<Rightarrow> False))"

section \<open>Classification\<close>

datatype slot = SlotVarlink | SlotSentry | SlotFd | SlotGateway

definition classify_unix_socket :: "string \<Rightarrow> slot option" where
  "classify_unix_socket path =
     (case Option.bind (path_file_name path) from_utf8 of
        None \<Rightarrow> None
      | Some name \<Rightarrow>
          if name = SOCKET_VARLINK then Some SlotVarlink
          else if name = SOCKET_SENTRY then Some SlotSentry
          else if name = SOCKET_FD then Some SlotFd
          else if name = SOCKET_GATEWAY_UNIX then Some SlotGateway
          else if name = ''io.systemd.inferenced1'' then Some SlotVarlink
          else None)"

definition slot_of_index :: "int \<Rightarrow> slot option" where
  "slot_of_index i = (if i = 0 then Some SlotVarlink else if i = 1 then Some SlotSentry else if i = 2 then Some SlotGateway
     else if i = 3 then Some SlotFd else None)"

definition gateway_fd :: "gateway_listener \<Rightarrow> int" where
  "gateway_fd g = (case g of Tcp d \<Rightarrow> d | Unix d \<Rightarrow> d)"

definition occupant :: "slot \<Rightarrow> activated_sockets \<Rightarrow> int option" where
  "occupant k s = (case k of SlotVarlink \<Rightarrow> a_varlink s | SlotSentry \<Rightarrow> a_sentry s | SlotFd \<Rightarrow> a_fd_server s
     | SlotGateway \<Rightarrow> map_option gateway_fd (a_gateway s))"

definition put_unix :: "slot \<Rightarrow> int \<Rightarrow> activated_sockets \<Rightarrow> activated_sockets" where
  "put_unix k d s = (case k of SlotVarlink \<Rightarrow> s\<lparr>a_varlink := Some d\<rparr> | SlotSentry \<Rightarrow> s\<lparr>a_sentry := Some d\<rparr>
     | SlotFd \<Rightarrow> s\<lparr>a_fd_server := Some d\<rparr> | SlotGateway \<Rightarrow> s\<lparr>a_gateway := Some (Unix d)\<rparr>)"

definition dropped :: "int option \<Rightarrow> int list" where
  "dropped o1 = (case o1 of Some d \<Rightarrow> [d] | None \<Rightarrow> [])"

section \<open>Adoption\<close>

definition adopt_unix :: "int \<Rightarrow> int \<Rightarrow> string option \<Rightarrow> activated_sockets \<times> int list \<Rightarrow> activated_sockets \<times> int list" where
  "adopt_unix i d path acc =
     (let (s, shut) = acc in
      case Option.bind path classify_unix_socket of
        Some k \<Rightarrow> (put_unix k d s, shut @ dropped (occupant k s))
      | None \<Rightarrow>
          (case slot_of_index i of
             Some k \<Rightarrow> if occupant k s = None then (put_unix k d s, shut) else (s, shut @ [d])
           | None \<Rightarrow> (s, shut @ [d])))"

definition adopt_tcp :: "int \<Rightarrow> activated_sockets \<times> int list \<Rightarrow> activated_sockets \<times> int list" where
  "adopt_tcp d acc = (let (s, shut) = acc in (s\<lparr>a_gateway := Some (Tcp d)\<rparr>, shut @ dropped (occupant SlotGateway s)))"

text \<open>One turn of the loop; None when a listener cannot be set up, which ends the daemon's start.\<close>

definition adopt_one :: "sock_calls \<Rightarrow> int \<Rightarrow> activated_sockets \<times> int list \<Rightarrow> (activated_sockets \<times> int list) option" where
  "adopt_one K i acc =
     (let d = SD_LISTEN_FDS_START + i in
      case k_getsockname K d of
        None \<Rightarrow> Some (fst acc, snd acc @ [d])
      | Some (AddrUnix path) \<Rightarrow> if k_setup K d then Some (adopt_unix i d path acc) else None
      | Some AddrV4 \<Rightarrow> if k_setup K d then Some (adopt_tcp d acc) else None
      | Some AddrV6 \<Rightarrow> if k_setup K d then Some (adopt_tcp d acc) else None
      | Some AddrOther \<Rightarrow> Some (fst acc, snd acc @ [d]))"

fun adopt_all :: "sock_calls \<Rightarrow> int list \<Rightarrow> activated_sockets \<times> int list \<Rightarrow> (activated_sockets \<times> int list) option" where
  "adopt_all K [] acc = Some acc"
| "adopt_all K (i # is) acc = Option.bind (adopt_one K i acc) (adopt_all K is)"

definition listen_fds :: "os \<Rightarrow> int" where
  "listen_fds h = (case parse_i32 (case os_env_var h ''LISTEN_FDS'' of Some s \<Rightarrow> s | None \<Rightarrow> []) of Some n \<Rightarrow> n | None \<Rightarrow> 0)"

definition check_and_adopt_sockets :: "sock_calls \<Rightarrow> os \<Rightarrow> u32 \<Rightarrow> (activated_sockets \<times> int list) option" where
  "check_and_adopt_sockets K h own_pid =
     (if \<not> is_socket_activated h own_pid then Some (no_sockets, [])
      else adopt_all K [0..listen_fds h - 1] (no_sockets, []))"

section \<open>Properties\<close>

definition slots :: "activated_sockets \<Rightarrow> int list" where
  "slots s = dropped (a_varlink s) @ dropped (a_sentry s) @ dropped (a_fd_server s) @ dropped (occupant SlotGateway s)"

text \<open>Why a descriptor may serve a slot: its path names the slot, it is an unnamed socket at the
  slot's position, or, for the gateway, it is a TCP socket.\<close>

definition entitled :: "sock_calls \<Rightarrow> slot \<Rightarrow> int \<Rightarrow> bool" where
  "entitled K k d =
     (case k_getsockname K d of
        Some (AddrUnix path) \<Rightarrow> (case Option.bind path classify_unix_socket of
            Some k' \<Rightarrow> k' = k
          | None \<Rightarrow> slot_of_index (d - SD_LISTEN_FDS_START) = Some k)
      | Some AddrV4 \<Rightarrow> k = SlotGateway
      | Some AddrV6 \<Rightarrow> k = SlotGateway
      | _ \<Rightarrow> False)"

definition adopt_inv :: "sock_calls \<Rightarrow> int list \<Rightarrow> activated_sockets \<times> int list \<Rightarrow> bool" where
  "adopt_inv K seen acc \<longleftrightarrow> mset (slots (fst acc)) + mset (snd acc) = mset seen
     \<and> (\<forall>k d. occupant k (fst acc) = Some d \<longrightarrow> entitled K k d)"

lemma occupant_put: "occupant k' (put_unix k d s) = (if k' = k then Some d else occupant k' s)"
  by (cases k; cases k') (auto simp: occupant_def put_unix_def gateway_fd_def)

lemma slots_put: "mset (slots (put_unix k d s)) + mset (dropped (occupant k s)) = add_mset d (mset (slots s))"
  by (cases k) (auto simp: slots_def put_unix_def occupant_def gateway_fd_def dropped_def ac_simps split: option.splits)

lemma slots_tcp: "mset (slots (s\<lparr>a_gateway := Some (Tcp d)\<rparr>)) + mset (dropped (occupant SlotGateway s)) = add_mset d (mset (slots s))"
  by (auto simp: slots_def occupant_def gateway_fd_def dropped_def ac_simps split: option.splits)

lemma occupant_tcp: "occupant k (s\<lparr>a_gateway := Some (Tcp d)\<rparr>) = (if k = SlotGateway then Some d else occupant k s)"
  by (cases k) (auto simp: occupant_def gateway_fd_def)

lemma put_inv:
  assumes "adopt_inv K seen (s, shut)" and "entitled K k d"
  shows "adopt_inv K (seen @ [d]) (put_unix k d s, shut @ dropped (occupant k s))"
  using assms slots_put [of k d s] by (auto simp: adopt_inv_def occupant_put ac_simps split: if_splits)

lemma drop_inv: "adopt_inv K seen (s, shut) \<Longrightarrow> adopt_inv K (seen @ [d]) (s, shut @ [d])"
  by (simp add: adopt_inv_def)

lemma adopt_one_inv:
  assumes inv: "adopt_inv K seen acc" and one: "adopt_one K i acc = Some acc'"
  shows "adopt_inv K (seen @ [SD_LISTEN_FDS_START + i]) acc'"
proof -
  obtain s shut where acc: "acc = (s, shut)" by fastforce
  let ?d = "SD_LISTEN_FDS_START + i"
  have tcp: "adopt_inv K (seen @ [?d]) (adopt_tcp ?d acc)" if "entitled K SlotGateway ?d"
    using inv that slots_tcp [of ?d s] by (auto simp: adopt_inv_def acc adopt_tcp_def occupant_tcp ac_simps split: if_splits)
  show ?thesis
  proof (cases "k_getsockname K ?d")
    case None
    then show ?thesis using inv one drop_inv by (auto simp: adopt_one_def acc Let_def)
  next
    case (Some a)
    show ?thesis
    proof (cases a)
      case (AddrUnix path)
      have ok: "acc' = adopt_unix i ?d path (s, shut)" using one Some AddrUnix acc by (auto simp: adopt_one_def Let_def split: if_splits)
      show ?thesis
      proof (cases "Option.bind path classify_unix_socket")
        case k: (Some k)
        then have "entitled K k ?d" using Some AddrUnix by (simp add: entitled_def)
        then show ?thesis using put_inv inv ok k acc by (simp add: adopt_unix_def)
      next
        case n: None
        show ?thesis
        proof (cases "\<exists>k. slot_of_index i = Some k \<and> occupant k s = None")
          case True
          then obtain k where k: "slot_of_index i = Some k" "occupant k s = None" by blast
          then have "entitled K k ?d" using Some AddrUnix n by (simp add: entitled_def)
          from put_inv [OF inv [unfolded acc] this] k ok n show ?thesis by (simp add: adopt_unix_def dropped_def)
        next
          case False
          then have "acc' = (s, shut @ [?d])" using ok n by (auto simp: adopt_unix_def split: option.splits)
          then show ?thesis using drop_inv inv acc by simp
        qed
      qed
    qed (use inv one Some tcp drop_inv acc in \<open>auto simp: adopt_one_def entitled_def Let_def split: if_splits\<close>)
  qed
qed

lemma adopt_all_inv:
  "adopt_all K is acc = Some acc' \<Longrightarrow> adopt_inv K seen acc \<Longrightarrow> adopt_inv K (seen @ map ((+) SD_LISTEN_FDS_START) is) acc'"
proof (induction "is" arbitrary: acc seen)
  case (Cons i "is")
  then obtain a where a: "adopt_one K i acc = Some a" "adopt_all K is a = Some acc'" by (auto simp: Option.bind_eq_Some_conv)
  from Cons.IH [OF a(2) adopt_one_inv [OF Cons.prems(2) a(1)]] show ?case by simp
qed simp

text \<open>C23: activation accounts for every descriptor. Each descriptor passed to the daemon ends up in
  exactly one slot or is closed; a slot is served only by a socket whose path names it, by an
  unnamed or unknown socket at the slot's position or, for the gateway, by a TCP socket; and a
  daemon that was not activated adopts nothing.\<close>

theorem adopted_sockets_accounted:
  assumes "check_and_adopt_sockets K h own_pid = Some (s, shut)"
  shows "mset (slots s @ shut) = mset (if is_socket_activated h own_pid then [3..2 + listen_fds h] else [])
    \<and> distinct (slots s @ shut) \<and> (\<forall>k d. occupant k s = Some d \<longrightarrow> entitled K k d)"
proof -
  let ?fds = "if is_socket_activated h own_pid then [3..2 + listen_fds h] else []"
  have init: "adopt_inv K [] (no_sockets, [])"
    by (auto simp: adopt_inv_def slots_def no_sockets_def occupant_def dropped_def split: slot.splits)
  have up: "map ((+) SD_LISTEN_FDS_START) [0..n - 1] = [3..2 + n]" for n
  proof (rule sorted_distinct_set_unique)
    show "set (map ((+) SD_LISTEN_FDS_START) [0..n - 1]) = set [3..2 + n]"
      by (simp add: SD_LISTEN_FDS_START_def)
  qed (auto simp: SD_LISTEN_FDS_START_def distinct_map sorted_map sorted_wrt_map intro: sorted_wrt_mono_rel [of _ "(\<le>)"])
  have inv: "adopt_inv K ?fds (s, shut)"
    using assms init adopt_all_inv [of K "[0..listen_fds h - 1]" "(no_sockets, [])" "(s, shut)" "[]"]
    by (auto simp: check_and_adopt_sockets_def up split: if_splits)
  then have m: "mset (slots s @ shut) = mset ?fds" by (simp add: adopt_inv_def)
  moreover have "distinct ?fds" by simp
  ultimately have "distinct (slots s @ shut)" by (metis mset_eq_imp_distinct_iff)
  with m inv show ?thesis by (simp add: adopt_inv_def)
qed

definition ex_listen :: os where
  "ex_listen = empty_os\<lparr>os_env_var := (\<lambda>v. if v = ''LISTEN_PID'' then Some ''7'' else if v = ''LISTEN_FDS'' then Some ''2'' else None)\<rparr>"

definition ex_socks :: sock_calls where
  "ex_socks = \<lparr>k_getsockname = (\<lambda>d. if d = 3 then Some (AddrUnix (Some ''/run/sentry.sock'')) else Some AddrV4), k_setup = (\<lambda>_. True)\<rparr>"

theorem adopted_sockets_accounted_witness:
  "entitled ex_socks SlotSentry 3 \<and> distinct (slots (no_sockets\<lparr>a_sentry := Some 3, a_gateway := Some (Tcp 4)\<rparr>) @ [])"
proof -
  let ?s = "no_sockets\<lparr>a_sentry := Some 3, a_gateway := Some (Tcp 4)\<rparr>"
  have p: "parse_i32 ''2'' = Some 2" "parse_u32 ''7'' = Some 7"
    by (simp_all add: parse_i32_def parse_u32_def parse_uint_def digits_value_def digit_value_def is_ascii_digit_def)
  then have "is_socket_activated ex_listen 7" "listen_fds ex_listen = 2"
    by (simp_all add: is_socket_activated_def listen_fds_def ex_listen_def)
  moreover have "[0..1] = [0, 1 :: int]" by code_simp
  moreover have "adopt_all ex_socks [0, 1] (no_sockets, []) = Some (?s, [])" by code_simp
  ultimately have "check_and_adopt_sockets ex_socks ex_listen 7 = Some (?s, [])" by (simp add: check_and_adopt_sockets_def)
  from adopted_sockets_accounted [OF this] show ?thesis by (simp add: occupant_def)
qed

end
