(* ===== verification/Notify.thy ===== *)
theory Notify
  imports Os
begin

text \<open>
  Notifications to the service manager and service credentials
  (\<^verbatim>\<open>crates/inferenced-daemon/src/notify.rs\<close> and \<^verbatim>\<open>creds.rs\<close>). Building socket addresses and
  sending a datagram are calls into the system, given as arguments.
\<close>

section \<open>Notifications\<close>

definition NOTIFY_MAX :: nat where
  "NOTIFY_MAX = 8 * 1024 * 1024"

datatype notify_addr = Abstract string | Pathname string

datatype notify_error = InvalidInput string | OtherError string

record notify_calls =
  y_addr_ok :: "notify_addr \<Rightarrow> bool" \<comment> \<open>the address fits into a socket address\<close>
  y_socket :: "(string, unit) result"
  y_sendto :: "notify_addr \<Rightarrow> string \<Rightarrow> (string, nat) result"

definition notify_address :: "notify_calls \<Rightarrow> string \<Rightarrow> notify_addr option" where
  "notify_address K socket_path =
     (case strip_prefix ''@'' socket_path of
        Some name \<Rightarrow> if name = [] \<or> nul \<in> set name then None
                     else if y_addr_ok K (Abstract name) then Some (Abstract name) else None
      | None \<Rightarrow> if socket_path = [] then None
                else if y_addr_ok K (Pathname socket_path) then Some (Pathname socket_path) else None)"

definition sanitize_value :: "string \<Rightarrow> string" where
  "sanitize_value s = filter (\<lambda>c. c \<noteq> nl \<and> c \<noteq> cr) s"

text \<open>The datagrams sent, next to the value returned.\<close>

definition send_notification_to :: "notify_calls \<Rightarrow> string \<Rightarrow> string \<Rightarrow> (notify_error, nat) result \<times> (notify_addr \<times> string) list" where
  "send_notification_to K socket_path msg =
     (case notify_address K socket_path of
        None \<Rightarrow> (Err (InvalidInput (''invalid NOTIFY_SOCKET target '' @ CHR 0x27 # socket_path @ [CHR 0x27])), [])
      | Some addr \<Rightarrow>
          (case y_socket K of
             Err e \<Rightarrow> (Err (OtherError e), [])
           | Ok _ \<Rightarrow> (map_sum OtherError (\<lambda>n. n) (y_sendto K addr msg), [(addr, msg)])))"

definition send_notification :: "notify_calls \<Rightarrow> os \<Rightarrow> string \<Rightarrow> (notify_error, nat) result \<times> (notify_addr \<times> string) list" where
  "send_notification K h msg =
     (if NOTIFY_MAX < length msg then (Err (InvalidInput ''notification exceeds 8 MiB systemd cap''), [])
      else (case os_env_var h ''NOTIFY_SOCKET'' of
              Some p \<Rightarrow> if p \<noteq> [] then send_notification_to K p msg else (Ok 0, [])
            | None \<Rightarrow> (Ok 0, [])))"

definition ready_message :: string where
  "ready_message = join_lines [''READY=1'', ''STATUS=Hardware planes active'']"

definition stopping_message :: string where
  "stopping_message = join_lines [''STOPPING=1'', ''STATUS=Shutting down cleanly'']"

definition watchdog_message :: string where
  "watchdog_message = join_lines [''WATCHDOG=1'']"

definition status_message :: "string \<Rightarrow> string" where
  "status_message status = ''STATUS='' @ sanitize_value status @ [nl]"

definition notify_systemd_ready :: "notify_calls \<Rightarrow> os \<Rightarrow> (notify_addr \<times> string) list" where
  "notify_systemd_ready K h = snd (send_notification K h ready_message)"

definition notify_systemd_status :: "notify_calls \<Rightarrow> os \<Rightarrow> string \<Rightarrow> (notify_addr \<times> string) list" where
  "notify_systemd_status K h status = snd (send_notification K h (status_message status))"

definition notify_systemd_watchdog :: "notify_calls \<Rightarrow> os \<Rightarrow> (notify_addr \<times> string) list" where
  "notify_systemd_watchdog K h = snd (send_notification K h watchdog_message)"

definition notify_systemd_stopping :: "notify_calls \<Rightarrow> os \<Rightarrow> (notify_addr \<times> string) list" where
  "notify_systemd_stopping K h = snd (send_notification K h stopping_message)"

section \<open>Credentials\<close>

definition trim_end_newlines :: "string \<Rightarrow> string" where
  "trim_end_newlines s = rev (dropWhile (\<lambda>c. c = cr \<or> c = nl) (rev s))"

definition load_credential :: "os \<Rightarrow> string \<Rightarrow> string option" where
  "load_credential h name =
     Option.bind (os_env_var h ''CREDENTIALS_DIRECTORY'') (\<lambda>dir.
       map_option trim_end_newlines (os_read_to_string h (path_join dir name)))"

text \<open>\<open>read_bytes\<close> is \<open>fs::read\<close>.\<close>

definition load_credential_bytes :: "os \<Rightarrow> (string \<Rightarrow> string option) \<Rightarrow> string \<Rightarrow> string option" where
  "load_credential_bytes h read_bytes name =
     Option.bind (os_env_var h ''CREDENTIALS_DIRECTORY'') (\<lambda>dir. read_bytes (path_join dir name))"

definition resolve_secret :: "os \<Rightarrow> string \<Rightarrow> string \<Rightarrow> string option" where
  "resolve_secret h var name = (case load_credential h name of Some c \<Rightarrow> Some c | None \<Rightarrow> os_env_var h var)"

section \<open>Properties\<close>

text \<open>The assignments the service manager reads from a datagram: its non-empty lines.\<close>

definition assignments :: "string \<Rightarrow> string list" where
  "assignments msg = filter (\<lambda>l. l \<noteq> []) (split_on nl msg)"

text \<open>C39: a status text cannot smuggle in another assignment. Whatever the text contains, every
  datagram that reports it carries exactly one assignment, to \<open>STATUS\<close>, at most eight mebibytes
  long, and goes to the address named by the environment; without one nothing is sent.\<close>

theorem status_cannot_inject:
  assumes "(addr, msg) \<in> set (notify_systemd_status K h status)"
  shows "assignments msg = [''STATUS='' @ filter (\<lambda>c. c \<noteq> nl \<and> c \<noteq> cr) status] \<and> length msg \<le> NOTIFY_MAX
    \<and> (\<exists>p. os_env_var h ''NOTIFY_SOCKET'' = Some p \<and> (p = (case addr of Abstract n \<Rightarrow> CHR ''@'' # n | Pathname q \<Rightarrow> q))
          \<and> (\<forall>n. addr = Abstract n \<longrightarrow> nul \<notin> set n))"
proof -
  have m: "msg = status_message status" and len: "\<not> NOTIFY_MAX < length msg"
    and p: "\<exists>p. os_env_var h ''NOTIFY_SOCKET'' = Some p \<and> notify_address K p = Some addr"
    using assms by (auto simp: notify_systemd_status_def send_notification_def send_notification_to_def split: if_splits option.splits sum.splits)
  have "split_on nl (''STATUS='' @ sanitize_value status @ nl # []) = [''STATUS='' @ sanitize_value status, []]"
    by (subst append_assoc [symmetric], subst split_on_append) (auto simp: sanitize_value_def)
  then have "assignments msg = [''STATUS='' @ filter (\<lambda>c. c \<noteq> nl \<and> c \<noteq> cr) status]"
    by (simp add: m assignments_def status_message_def sanitize_value_def)
  moreover have "p = (case addr of Abstract n \<Rightarrow> CHR ''@'' # n | Pathname q \<Rightarrow> q) \<and> (\<forall>n. addr = Abstract n \<longrightarrow> nul \<notin> set n)"
    if "notify_address K p = Some addr" for p
    using that by (auto simp: notify_address_def strip_prefix_Some_iff split: option.splits if_splits)
  ultimately show ?thesis using len p by (metis not_less)
qed

definition ex_notify :: notify_calls where
  "ex_notify = \<lparr>y_addr_ok = (\<lambda>_. True), y_socket = Ok (), y_sendto = (\<lambda>_ m. Ok (length m))\<rparr>"

theorem status_cannot_inject_witness:
  "assignments (status_message ([CHR ''x'', nl] @ ''MAINPID=1'')) = [''STATUS='' @ ''xMAINPID=1'']"
proof -
  let ?h = "empty_os\<lparr>os_env_var := (\<lambda>_. Some ''@n'')\<rparr>" and ?s = "[CHR ''x'', nl] @ ''MAINPID=1''"
  have "(Abstract ''n'', status_message ?s) \<in> set (notify_systemd_status ex_notify ?h ?s)"
    by (simp add: notify_systemd_status_def send_notification_def send_notification_to_def notify_address_def ex_notify_def
      NOTIFY_MAX_def status_message_def sanitize_value_def strip_prefix_def starts_with_def)
  from status_cannot_inject [OF this] show ?thesis by simp
qed

end
