(* ===== verification/Netlink.thy ===== *)
theory Netlink
  imports Utf8
begin

text \<open>
  Kernel device events (\<^verbatim>\<open>crates/inferenced-core/src/netlink.rs\<close>): parsing of the
  NUL-separated message and the two predicates the monitor uses. Opening the socket is in
  \<open>Sockets\<close>.
\<close>

record uevent =
  action :: string
  devpath :: string
  subsystem :: string
  devname :: "string option"
  properties :: "(string, string) hashmap"

text \<open>One turn of the loop over the properties.\<close>

definition uevent_prop ::
  "(string \<times> string option \<times> (string, string) hashmap) \<Rightarrow> string
   \<Rightarrow> string \<times> string option \<times> (string, string) hashmap" where
  "uevent_prop acc prop =
     (let (sub, dev, props) = acc in
      case split_once (CHR ''='') prop of
        None \<Rightarrow> acc
      | Some (k, v) \<Rightarrow>
          (if k = ''SUBSYSTEM'' then v else sub,
           if k = ''DEVNAME'' then Some v else dev,
           hm_insert k v props))"

definition parse_uevent :: "string \<Rightarrow> uevent option" where
  "parse_uevent buf =
     (case from_utf8 buf of
        None \<Rightarrow> None
      | Some t \<Rightarrow>
          (case filter (\<lambda>s. s \<noteq> []) (split_on nul t) of
             [] \<Rightarrow> None
           | header # ls \<Rightarrow>
               (case split_once (CHR ''@'') header of
                  None \<Rightarrow> None
                | Some (a, d) \<Rightarrow>
                    let (sub, dev, props) = foldl uevent_prop ([], None, hm_new) ls;
                        sub' = (if sub = [] then (case hm_get props ''SUBSYSTEM'' of Some s \<Rightarrow> s | None \<Rightarrow> sub) else sub)
                    in Some \<lparr>action = a, devpath = d, subsystem = sub', devname = dev, properties = props\<rparr>)))"

definition is_compute_device :: "uevent \<Rightarrow> bool" where
  "is_compute_device e \<longleftrightarrow>
     subsystem e = ''drm'' \<or> subsystem e = ''accel''
     \<or> (subsystem e = ''misc'' \<and> (case devname e of Some n \<Rightarrow> contains ''hailo'' n | None \<Rightarrow> False))
     \<or> subsystem e = ''kfd''"

definition is_reset_event :: "uevent \<Rightarrow> bool" where
  "is_reset_event e \<longleftrightarrow> action e = ''change'' \<and> (case hm_get (properties e) ''RESET'' of Some v \<Rightarrow> v = ''1'' | None \<Rightarrow> False)"

section \<open>Parsing\<close>

text \<open>The message the kernel sends for an action on a device with the given properties.\<close>

definition uevent_message :: "string \<Rightarrow> string \<Rightarrow> (string \<times> string) list \<Rightarrow> string" where
  "uevent_message a d kvs = a @ ''@'' @ d @ [nul] @ concat (map (\<lambda>(k, v). k @ ''='' @ v @ [nul]) kvs)"

lemma split_on_concat:
  "\<forall>s \<in> set ss. c \<notin> set s \<Longrightarrow> split_on c (concat (map (\<lambda>s. s @ [c]) ss)) = ss @ [[]]"
  by (induction ss) (auto simp: split_on_append)

lemma fold_props:
  assumes "\<forall>(k, v) \<in> set kvs. CHR ''='' \<notin> set k"
  shows "foldl uevent_prop (sub, dev, props) (map (\<lambda>(k, v). k @ ''='' @ v) kvs) =
    (case map_of (rev kvs) ''SUBSYSTEM'' of Some v \<Rightarrow> v | None \<Rightarrow> sub,
     case map_of (rev kvs) ''DEVNAME'' of Some v \<Rightarrow> Some v | None \<Rightarrow> dev,
     foldl (\<lambda>m (k, v). hm_insert k v m) props kvs)"
  using assms
proof (induction kvs arbitrary: sub dev props)
  case (Cons e kvs)
  obtain k v where e: "e = (k, v)" by (cases e)
  have "split_once (CHR ''='') (k @ CHR ''='' # v) = Some (k, v)" using Cons.prems e by (simp add: split_once_Some_iff)
  then have "uevent_prop (sub, dev, props) (k @ ''='' @ v)
      = (if k = ''SUBSYSTEM'' then v else sub, if k = ''DEVNAME'' then Some v else dev, hm_insert k v props)"
    by (simp add: uevent_prop_def)
  then show ?case
    using Cons e by (auto simp: map_add_def split: option.splits)
qed simp

lemma get_inserted: "hm_get (foldl (\<lambda>m (k, v). hm_insert k v m) props kvs) j
    = (case map_of (rev kvs) j of Some v \<Rightarrow> Some v | None \<Rightarrow> hm_get props j)"
proof (induction kvs arbitrary: props)
  case (Cons e kvs)
  show ?case by (cases e) (use Cons in \<open>auto simp: map_add_def split: option.splits\<close>)
qed simp

text \<open>The message the kernel sends is parsed to the action, the device path and the
  properties it was built from, the last value counting where a key repeats; subsystem and
  device name are those of the properties, and whether the event is a device reset is read off
  the action and the \<open>RESET\<close> property.\<close>

theorem uevent_round_trip:
  assumes a: "CHR ''@'' \<notin> set a" "nul \<notin> set (a @ d)"
    and kvs: "\<forall>(k, v) \<in> set kvs. CHR ''='' \<notin> set k \<and> nul \<notin> set (k @ v)"
    and utf: "utf8_valid (uevent_message a d kvs)"
  shows "\<exists>e. parse_uevent (uevent_message a d kvs) = Some e \<and> action e = a \<and> devpath e = d
    \<and> hm_get (properties e) = map_of (rev kvs)
    \<and> subsystem e = (case map_of (rev kvs) ''SUBSYSTEM'' of Some v \<Rightarrow> v | None \<Rightarrow> [])
    \<and> devname e = map_of (rev kvs) ''DEVNAME''
    \<and> (is_reset_event e \<longleftrightarrow> a = ''change'' \<and> map_of (rev kvs) ''RESET'' = Some ''1'')"
proof -
  let ?ps = "map (\<lambda>(k, v). k @ ''='' @ v) kvs" and ?h = "a @ ''@'' @ d"
  let ?ss = "?h # ?ps"
  have "uevent_message a d kvs = concat (map (\<lambda>s. s @ [nul]) ?ss)"
    by (simp add: uevent_message_def comp_def) (intro arg_cong [where f = concat] map_cong refl, auto)
  moreover have "\<forall>s \<in> set ?ss. nul \<notin> set s" using a kvs by auto
  ultimately have "split_on nul (uevent_message a d kvs) = ?ss @ [[]]" by (simp only: split_on_concat)
  moreover have "filter (\<lambda>s. s \<noteq> []) ?ps = ?ps" by (rule filter_True) auto
  ultimately have parts: "filter (\<lambda>s. s \<noteq> []) (split_on nul (uevent_message a d kvs)) = ?h # ?ps" by simp
  have h: "split_once (CHR ''@'') ?h = Some (a, d)" using a by (simp add: split_once_Some_iff)
  have "\<forall>(k, v) \<in> set kvs. CHR ''='' \<notin> set k" using kvs by auto
  note props = fold_props [OF this, of "[]" None hm_new]
  let ?P = "foldl (\<lambda>m (k, v). hm_insert k v m) hm_new kvs" and ?get = "map_of (rev kvs)"
  have get: "hm_get ?P = ?get" by (simp add: fun_eq_iff get_inserted split: option.splits)
  have "parse_uevent (uevent_message a d kvs) = Some \<lparr>action = a, devpath = d,
      subsystem = (case ?get ''SUBSYSTEM'' of Some v \<Rightarrow> v | None \<Rightarrow> []),
      devname = (case ?get ''DEVNAME'' of Some v \<Rightarrow> Some v | None \<Rightarrow> None), properties = ?P\<rparr>"
    by (simp only: parse_uevent_def from_utf8_def utf if_True option.case parts list.case h prod.case props Let_def get)
      (simp split: option.splits)
  then show ?thesis by (auto simp: get is_reset_event_def split: option.splits)
qed

theorem uevent_round_trip_witness:
  "\<exists>e. parse_uevent (uevent_message ''change'' ''/devices/drm/card0'' [(''SUBSYSTEM'', ''drm''), (''RESET'', ''1'')]) = Some e
     \<and> is_reset_event e \<and> subsystem e = ''drm''"
proof -
  have "CHR ''@'' \<notin> set ''change''" "nul \<notin> set (''change'' @ ''/devices/drm/card0'')"
    "\<forall>(k, v) \<in> set [(''SUBSYSTEM'', ''drm''), (''RESET'', ''1'')]. CHR ''='' \<notin> set k \<and> nul \<notin> set (k @ v)"
    "utf8_valid (uevent_message ''change'' ''/devices/drm/card0'' [(''SUBSYSTEM'', ''drm''), (''RESET'', ''1'')])" by code_simp+
  from uevent_round_trip [OF this] show ?thesis by auto
qed

end
