(* ===== verification/Topology_Props.thy ===== *)
theory Topology_Props
  imports Arbiter_Inv
begin

text \<open>
  Properties of hardware discovery: the topology it builds is one the arbiter may start from,
  the triage enclave is chosen as documented, and what the crash-log audit quarantines.
\<close>

section \<open>Well-formed topologies\<close>

text \<open>A directory has no two entries of one name.\<close>

definition fs_sound :: "os \<Rightarrow> bool" where
  "fs_sound h \<longleftrightarrow> (\<forall>p ns. os_read_dir h p = Some ns \<longrightarrow> distinct ns)"

lemma distinct_prefixed_ids:
  "(\<And>n. p_id (f n) = pre @ n) \<Longrightarrow> distinct ns \<Longrightarrow> distinct (map p_id (map f (filter P ns)))"
  by (simp add: comp_def distinct_map inj_on_def)

lemma accel_id: "p_id (accel_plane d n) = ''npu-'' @ n"
  by (simp add: accel_plane_def)

lemma hailo_id: "p_id (hailo_plane d) = ''npu-hailo0''"
  by (simp add: hailo_plane_def)

lemma drm_id: "p_id (drm_plane h a b c d n) = ''drm-'' @ n"
  by (simp add: drm_plane_def case_prod_beta)

lemma npu_planes_cases:
  obtains ns hs where "discover_npu_planes h a b = map (accel_plane a) (filter (starts_with ''accel'') ns) @ hs"
    and "os_read_dir h a = Some ns \<or> ns = []" and "hs = [] \<or> hs = [hailo_plane b]"
proof -
  let ?ns = "if os_exists h a then (case os_read_dir h a of Some ns \<Rightarrow> ns | None \<Rightarrow> []) else []"
  have "discover_npu_planes h a b
      = map (accel_plane a) (filter (starts_with ''accel'') ?ns) @ (if os_exists h b then [hailo_plane b] else [])"
    unfolding discover_npu_planes_def by (cases "os_exists h a"; cases "os_read_dir h a"; simp only: if_True if_False option.case filter.simps list.map)
  moreover have "os_read_dir h a = Some ?ns \<or> ?ns = []" by (cases "os_read_dir h a") simp_all
  ultimately show thesis by (rule that) simp
qed

lemma npu_ids:
  assumes "fs_sound h"
  shows "distinct (map p_id (discover_npu_planes h a b))"
    and "q \<in> p_id ` set (discover_npu_planes h a b) \<Longrightarrow> starts_with ''npu-'' q"
proof -
  obtain ns hs where d: "discover_npu_planes h a b = map (accel_plane a) (filter (starts_with ''accel'') ns) @ hs"
    and ns: "os_read_dir h a = Some ns \<or> ns = []" and hs: "hs = [] \<or> hs = [hailo_plane b]"
    by (rule npu_planes_cases)
  have ne: "''npu-hailo0'' \<notin> p_id ` accel_plane a ` set (filter (starts_with ''accel'') ns)"
    by (auto simp: accel_id starts_with_def)
  have "distinct ns" using ns assms by (auto simp: fs_sound_def)
  then have "distinct (map p_id (map (accel_plane a) (filter (starts_with ''accel'') ns)))"
    by (rule distinct_prefixed_ids [OF accel_id])
  with ne hs show "distinct (map p_id (discover_npu_planes h a b))"
    unfolding d map_append distinct_append by (elim disjE) (simp_all add: hailo_id del: map_map)
  have "starts_with ''npu-'' (''npu-'' @ n)" "starts_with ''npu-'' ''npu-hailo0''" for n
    by (simp_all add: starts_with_def)
  with hs show "q \<in> p_id ` set (discover_npu_planes h a b) \<Longrightarrow> starts_with ''npu-'' q"
    unfolding d by (auto simp: accel_id hailo_id)
qed

lemma drm_ids:
  assumes "fs_sound h"
  shows "distinct (map p_id (discover_drm_planes h a b c d))"
    and "q \<in> p_id ` set (discover_drm_planes h a b c d) \<Longrightarrow> starts_with ''drm-'' q"
proof -
  have "distinct (map p_id (map (drm_plane h a b c d) (filter (starts_with ''renderD'') ns)))" if "os_read_dir h a = Some ns" for ns
    using that assms by (intro distinct_prefixed_ids [OF drm_id]) (simp add: fs_sound_def)
  then show "distinct (map p_id (discover_drm_planes h a b c d))"
    by (simp add: discover_drm_planes_def del: map_map split: option.splits)
  have "starts_with ''drm-'' (''drm-'' @ n)" for n by (simp add: starts_with_def)
  then show "q \<in> p_id ` set (discover_drm_planes h a b c d) \<Longrightarrow> starts_with ''drm-'' q"
    unfolding discover_drm_planes_def
    by (auto simp only: set_map image_image drm_id list.set image_empty split: option.splits if_splits)
qed

lemma cpu_id: "p_id (build_cpu_plane h p a) = ''cpu-host''"
  by (simp add: build_cpu_plane_def case_prod_beta Let_def)

lemma three_quarters_le: "three_quarters a \<le> a"
proof (cases "a = 0")
  case True
  then show ?thesis by (simp add: three_quarters_def f64_of_u64_def u64_of_f64_def)
next
  case False
  define x y where "x = (of_nat (unat a) :: rat)" and "y = f64_round x"
  have "1 \<le> unat a" using False by (simp add: unat_gt_0 Suc_le_eq)
  then have x: "1 \<le> x" unfolding x_def by (metis of_nat_1 of_nat_le_iff)
  have y: "0 \<le> y" "y \<le> x + (x + 1) / 1000000" using x by (simp_all add: y_def f64_round_nonneg f64_round_upper)
  have "f64_round (y * (3 / 4)) \<le> y * (3 / 4) + (y * (3 / 4) + 1) / 1000000" using y by (intro f64_round_upper) simp
  also have "\<dots> \<le> x" using x y(2) by (simp add: field_simps)
  finally have "f64_round (y * (3 / 4)) \<le> of_nat (unat a)" by (simp add: x_def)
  then show ?thesis
    using y(1) unfolding three_quarters_def f64_of_u64_def x_def [symmetric] y_def [symmetric]
    by (intro u64_of_f64_le f64_round_nonneg) (simp_all add: x_def)
qed

definition all_planes :: "os \<Rightarrow> compute_plane list" where
  "all_planes h =
     (let (ram_total, ram_avail) = read_meminfo_from h ''/proc/meminfo'' in
      discover_npu_planes h ''/dev/accel'' ''/dev/hailo0''
      @ discover_drm_planes h ''/dev/dri'' ''/sys/class/drm'' ram_total ram_avail
      @ [build_cpu_plane h ''/proc/cpuinfo'' ram_avail])"

lemma discover_planes:
  "planes (discover h) =
     fst (assign_triage_enclave (map (quarantine (quarantined_drivers (read_default h))) (all_planes h)))"
  by (simp add: discover_def all_planes_def case_prod_beta Let_def)

lemma all_planes_ids: "fs_sound h \<Longrightarrow> distinct (map p_id (all_planes h))"
proof -
  assume fs: "fs_sound h"
  have no: "\<not> (starts_with ''npu-'' q \<and> starts_with ''drm-'' q)" for q by (auto simp: starts_with_iff)
  have cpu: "\<not> starts_with ''npu-'' ''cpu-host''" "\<not> starts_with ''drm-'' ''cpu-host''" by (simp_all add: starts_with_def)
  obtain a b where ram: "read_meminfo_from h ''/proc/meminfo'' = (a, b)" by (cases "read_meminfo_from h ''/proc/meminfo''")
  let ?n = "discover_npu_planes h ''/dev/accel'' ''/dev/hailo0''"
    and ?d = "discover_drm_planes h ''/dev/dri'' ''/sys/class/drm'' a b"
  have all: "all_planes h = ?n @ ?d @ [build_cpu_plane h ''/proc/cpuinfo'' b]" by (simp add: all_planes_def ram)
  have "p_id ` set ?n \<inter> p_id ` set ?d = {}" "''cpu-host'' \<notin> p_id ` set ?n" "''cpu-host'' \<notin> p_id ` set ?d"
    using npu_ids(2) [OF fs] drm_ids(2) [OF fs] no cpu by blast+
  then show ?thesis
    unfolding all map_append distinct_append using npu_ids(1) [OF fs] drm_ids(1) [OF fs]
    by (simp only: list.map cpu_id set_append set_map list.set distinct.simps) auto
qed

lemma npu_bounded: "bounded_planes (discover_npu_planes h a b)"
  by (rule npu_planes_cases [of h a b]) (auto simp: bounded_planes_def accel_plane_def hailo_plane_def)

lemma drm_bounded: "bounded_planes (discover_drm_planes h a b c d)"
proof -
  have "p_available (drm_plane h a b c d n) \<le> p_total (drm_plane h a b c d n)" for n
    by (simp add: drm_plane_def case_prod_beta)
  then show ?thesis by (cases "os_read_dir h a") (auto simp: bounded_planes_def discover_drm_planes_def)
qed

lemma cpu_bounded: "bounded_planes [build_cpu_plane h p a]"
  by (simp add: bounded_planes_def build_cpu_plane_def case_prod_beta Let_def three_quarters_le)

lemma all_planes_bounded: "bounded_planes (all_planes h)"
  using npu_bounded drm_bounded cpu_bounded by (auto simp: all_planes_def case_prod_beta bounded_planes_def)

lemma quarantine_frame: "p_id (quarantine ds p) = p_id p" "p_total (quarantine ds p) = p_total p"
  "p_available (quarantine ds p) = p_available p" "p_kind (quarantine ds p) = p_kind p"
  "p_triage_reserved (quarantine ds p) = p_triage_reserved p"
  by (simp_all add: quarantine_def)

lemma reserve_bounded: "p_available p \<le> p_total p \<Longrightarrow> p_available (reserve_cpu_quota p) \<le> p_total (reserve_cpu_quota p)"
  by (simp add: reserve_cpu_quota_def Let_def word_le_nat_alt bytes_simps)

lemma enclave_ids: "map p_id (fst (assign_triage_enclave ps)) = map p_id ps"
  by (simp add: assign_triage_enclave_def reserve_cpu_quota_def Let_def split: option.splits)

lemma enclave_bounded: "bounded_planes ps \<Longrightarrow> bounded_planes (fst (assign_triage_enclave ps))"
  by (auto simp: assign_triage_enclave_def keeps_bound_def reserve_bounded intro!: modify_first_bound split: option.splits)

text \<open>Whatever the host looks like, discovery builds a topology the arbiter may start from:
  plane ids are distinct and no plane has more memory available than it is large.\<close>

lemma discover_well_formed:
  assumes "fs_sound h"
  shows "topo_ok (discover h)"
proof -
  have "map p_id (planes (discover h)) = map p_id (all_planes h)"
    by (simp add: discover_planes enclave_ids quarantine_frame comp_def)
  moreover have "bounded_planes (map (quarantine ds) (all_planes h))" for ds
    using all_planes_bounded [of h] by (simp add: bounded_planes_def quarantine_frame)
  ultimately show ?thesis
    using all_planes_ids [OF assms] by (simp add: topo_ok_def ids_distinct_def) (simp add: discover_planes enclave_bounded)
qed

text \<open>A host with an accelerator, an AMD card that logged a reset, and an NVIDIA card that fell off the bus.\<close>

definition ex_host :: os where
  "ex_host = empty_os\<lparr>
     os_exists := (\<lambda>p. p \<in> {''/dev/accel'', ''/dev/dri'', ''/sys/fs/pstore''}),
     os_is_dir := (\<lambda>p. p = ''/sys/fs/pstore''),
     os_read_dir := (\<lambda>p. if p = ''/dev/accel'' then Some [''accel0'']
        else if p = ''/dev/dri'' then Some [''card0'', ''renderD128'', ''renderD129'']
        else if p = ''/sys/fs/pstore'' then Some [''dmesg-efi-1''] else None),
     os_read_lines := (\<lambda>p. if p = ''/sys/fs/pstore/dmesg-efi-1''
        then Some [''amdgpu: GPU reset begin'', ''NVRM: Xid 79, GPU has fallen off the bus''] else None),
     os_read_to_string := (\<lambda>p. if p = ''/sys/class/drm/renderD128/device/vendor'' then Some (''0x1002'' @ [nl])
        else if p = ''/sys/class/drm/renderD129/device/vendor'' then Some (''0x10de'' @ [nl]) else None)\<rparr>"

lemma ex_host_sound: "fs_sound ex_host"
  by (simp add: fs_sound_def ex_host_def)

section \<open>The triage enclave\<close>

lemma enclave_npu:
  assumes "\<And>p. p \<in> set ps \<Longrightarrow> \<not> p_triage_reserved p" and "find triage_npu ps = Some npu"
  shows "filter p_triage_reserved (modify_first triage_npu (\<lambda>p. p\<lparr>p_triage_reserved := True\<rparr>) ps) = [npu\<lparr>p_triage_reserved := True\<rparr>]"
  using assms
proof (induction ps)
  case (Cons p ps)
  have "filter p_triage_reserved ps = []" using Cons.prems(1) by (auto simp: filter_empty_conv)
  note rest = this
  have p: "\<not> p_triage_reserved p" using Cons.prems(1) by simp
  show ?case
  proof (cases "triage_npu p")
    case True
    then have "npu = p" using Cons.prems(2) by simp
    then show ?thesis using True rest by simp
  next
    case False
    then have "find triage_npu ps = Some npu" using Cons.prems(2) by simp
    from Cons.IH [OF _ this] Cons.prems(1) show ?thesis using False p by simp
  qed
qed simp

lemma enclave_cpu:
  assumes "\<And>p. p \<in> set ps \<Longrightarrow> \<not> p_triage_reserved p"
  shows "filter p_triage_reserved (modify_first P reserve_cpu_quota ps) = []"
  using assms by (induction ps) (auto simp: reserve_cpu_quota_def Let_def)

lemma all_planes_unreserved: "p \<in> set (all_planes h) \<Longrightarrow> \<not> p_triage_reserved p"
proof -
  have npu: "\<not> p_triage_reserved p" if "p \<in> set (discover_npu_planes h a b)" for a b p
    by (rule npu_planes_cases [of h a b]) (use that in \<open>auto simp: accel_plane_def hailo_plane_def\<close>)
  have drm: "\<not> p_triage_reserved p" if "p \<in> set (discover_drm_planes h a b c d)" for a b c d p
    using that by (cases "os_read_dir h a") (auto simp: discover_drm_planes_def drm_plane_def case_prod_beta split: if_splits)
  have cpu: "\<not> p_triage_reserved (build_cpu_plane h a b)" for a b
    by (simp add: build_cpu_plane_def case_prod_beta Let_def)
  assume "p \<in> set (all_planes h)"
  then consider a b where "p \<in> set (discover_npu_planes h a b)" | a b c d where "p \<in> set (discover_drm_planes h a b c d)"
    | a b where "p = build_cpu_plane h a b"
    unfolding all_planes_def case_prod_beta Let_def set_append by (elim UnE) auto
  then show "\<not> p_triage_reserved p" using npu drm cpu by cases auto
qed

text \<open>Discovery reserves one plane for triage when there is an accelerator that is not
  quarantined, and that plane is such an accelerator with its memory unchanged; otherwise it
  reserves none and instead sets aside, on the host CPU plane, two gibibytes or a quarter of what
  is available, whichever is less.\<close>

theorem triage_enclave_choice:
  "let qs = map (quarantine (quarantined_drivers (read_default h))) (all_planes h) in
   case find triage_npu qs of
     Some npu \<Rightarrow> filter p_triage_reserved (planes (discover h)) = [npu\<lparr>p_triage_reserved := True\<rparr>]
       \<and> p_kind npu = NpuAccelerator \<and> \<not> p_quarantined npu
   | None \<Rightarrow> filter p_triage_reserved (planes (discover h)) = []
       \<and> (\<forall>cpu. find triage_cpu qs = Some cpu \<longrightarrow> (\<exists>cpu' \<in> set (planes (discover h)).
            p_id cpu' = p_id cpu
            \<and> unat (p_available cpu') = unat (p_available cpu) - min (2 * 1024 * 1024 * 1024) (unat (p_available cpu) div 4)))"
proof -
  define qs where "qs = map (quarantine (quarantined_drivers (read_default h))) (all_planes h)"
  have un: "\<not> p_triage_reserved p" if "p \<in> set qs" for p
    using that all_planes_unreserved by (auto simp: qs_def quarantine_frame)
  have d: "planes (discover h) = fst (assign_triage_enclave qs)" by (simp add: qs_def discover_planes)
  show ?thesis
  proof (cases "find triage_npu qs")
    case (Some npu)
    then have "triage_npu npu" by (auto dest: find_SomeD)
    with Some enclave_npu [OF un Some] show ?thesis
      by (simp add: d assign_triage_enclave_def triage_npu_def flip: qs_def)
  next
    case None
    have "\<exists>cpu' \<in> set (planes (discover h)). p_id cpu' = p_id cpu
        \<and> unat (p_available cpu') = unat (p_available cpu) - min (2 * 1024 * 1024 * 1024) (unat (p_available cpu) div 4)"
      if f: "find triage_cpu qs = Some cpu" for cpu
    proof (rule bexI)
      have "find P xs = Some x \<Longrightarrow> f x \<in> set (modify_first P f xs)" for P f xs and x :: compute_plane
        by (induction xs) (auto split: if_splits)
      with f None show "reserve_cpu_quota cpu \<in> set (planes (discover h))"
        by (simp add: d assign_triage_enclave_def)
      show "p_id (reserve_cpu_quota cpu) = p_id cpu
          \<and> unat (p_available (reserve_cpu_quota cpu)) = unat (p_available cpu) - min (2 * 1024 * 1024 * 1024) (unat (p_available cpu) div 4)"
        by (simp add: reserve_cpu_quota_def Let_def bytes_simps CPU_TRIAGE_RESERVED_BYTES_def unat_div)
    qed
    moreover have "filter p_triage_reserved (planes (discover h)) = []"
      using None enclave_cpu [OF un] un by (auto simp: d assign_triage_enclave_def filter_empty_conv split: option.splits)
    ultimately show ?thesis using None by (simp flip: qs_def)
  qed
qed

theorem triage_enclave_choice_witness: "map p_id (filter p_triage_reserved (planes (discover ex_host))) = [''npu-accel0'']"
proof -
  have "map_option p_id (find triage_npu (map (quarantine (quarantined_drivers (read_default ex_host))) (all_planes ex_host))) = Some ''npu-accel0''"
    by code_simp
  with triage_enclave_choice [of ex_host] show ?thesis by (auto simp: Let_def)
qed

section \<open>Quarantine\<close>

text \<open>The drivers a set of crash logs implicates.\<close>

definition hang_logged :: "os \<Rightarrow> string list \<Rightarrow> string \<Rightarrow> bool" where
  "hang_logged h paths d \<longleftrightarrow> (\<exists>p \<in> set paths. os_exists h p \<and> os_is_dir h p \<and> (\<exists>ns f ls l.
     os_read_dir h p = Some ns \<and> f \<in> set ns \<and> (starts_with ''dmesg-'' f \<or> starts_with ''console-'' f)
     \<and> os_read_lines h (path_join p f) = Some ls \<and> l \<in> set ls \<and> hang_driver l = Some d))"

lemma scan_spec:
  "set (scan_file_for_gpu_hangs ls q) = set q \<union> {d. \<exists>l \<in> set ls. hang_driver l = Some d}"
  "distinct q \<Longrightarrow> distinct (scan_file_for_gpu_hangs ls q)"
proof -
  show "set (scan_file_for_gpu_hangs ls q) = set q \<union> {d. \<exists>l \<in> set ls. hang_driver l = Some d}"
    unfolding scan_file_for_gpu_hangs_def by (induction ls arbitrary: q) (auto split: option.splits)
  show "distinct q \<Longrightarrow> distinct (scan_file_for_gpu_hangs ls q)"
    unfolding scan_file_for_gpu_hangs_def by (induction ls arbitrary: q) (auto split: option.splits)
qed

definition logged_in :: "os \<Rightarrow> string \<Rightarrow> string list \<Rightarrow> string set" where
  "logged_in h p ns = {d. \<exists>f ls l. f \<in> set ns \<and> (starts_with ''dmesg-'' f \<or> starts_with ''console-'' f)
     \<and> os_read_lines h (path_join p f) = Some ls \<and> l \<in> set ls \<and> hang_driver l = Some d}"

lemma audit_entry_spec:
  "set (quarantined_drivers (audit_entry h p a f)) = set (quarantined_drivers a) \<union> logged_in h p [f]"
  "distinct (quarantined_drivers a) \<Longrightarrow> distinct (quarantined_drivers (audit_entry h p a f))"
  by (cases "os_read_lines h (path_join p f)"; simp add: audit_entry_def scan_spec Let_def logged_in_def; auto)+

lemma audit_entries_spec:
  "set (quarantined_drivers (foldl (audit_entry h p) a ns)) = set (quarantined_drivers a) \<union> logged_in h p ns
   \<and> (distinct (quarantined_drivers a) \<longrightarrow> distinct (quarantined_drivers (foldl (audit_entry h p) a ns)))"
proof (induction ns arbitrary: a)
  case (Cons f ns)
  have "logged_in h p (f # ns) = logged_in h p [f] \<union> logged_in h p ns" by (auto simp: logged_in_def)
  then show ?case using Cons audit_entry_spec by (simp add: Un_assoc)
qed (simp add: logged_in_def)

lemma audit_directory_spec:
  "set (quarantined_drivers (audit_directory h a p)) = set (quarantined_drivers a) \<union> {d. hang_logged h [p] d}
   \<and> (distinct (quarantined_drivers a) \<longrightarrow> distinct (quarantined_drivers (audit_directory h a p)))"
proof (cases "os_exists h p \<and> os_is_dir h p \<and> os_read_dir h p \<noteq> None")
  case True
  then obtain ns where ns: "os_read_dir h p = Some ns" by auto
  with True have "{d. hang_logged h [p] d} = logged_in h p ns" by (auto simp: hang_logged_def logged_in_def)
  with True ns audit_entries_spec show ?thesis by (simp add: audit_directory_def)
next
  case False
  then have "audit_directory h a p = a" by (cases "os_read_dir h p") (auto simp: audit_directory_def)
  moreover from False have "{d. hang_logged h [p] d} = {}" by (auto simp: hang_logged_def)
  ultimately show ?thesis by simp
qed


lemma contains_pair:
  assumes "contains n s" and "n = a @ [x, y] @ b"
  shows "(x, y) \<in> set (zip s (tl s))"
proof -
  have "\<exists>u v. s = u @ n @ v" using assms(1)
  proof (induction s)
    case (Cons c s)
    show ?case
    proof (cases "starts_with n (c # s)")
      case True
      then show ?thesis by (auto simp: starts_with_iff intro: exI [of _ "[]"])
    next
      case False
      with Cons obtain u v where "s = u @ n @ v" by auto
      then show ?thesis by (intro exI [of _ "c # u"] exI [of _ v]) simp
    qed
  qed simp
  then obtain w z where "s = w @ x # y # z" using assms(2) by (metis append.assoc append_Cons append_Nil)
  moreover have "(x, y) \<in> set (zip (w @ x # y # z) (tl (w @ x # y # z)))" for w z
    by (induction w) (auto simp: neq_Nil_conv split: list.splits, case_tac w, auto)
  ultimately show ?thesis by simp
qed

lemma pair_append:
  "(x, y) \<in> set (zip (A @ B) (tl (A @ B))) \<Longrightarrow> A \<noteq> [] \<Longrightarrow> (x, y) \<in> set (zip A (tl A)) \<or> x = last A \<or> x \<in> set B"
proof (induction A)
  case (Cons a A)
  show ?case
  proof (cases A)
    case Nil
    with Cons.prems show ?thesis by (auto dest: set_zip_leftD)
  next
    case (Cons c A')
    with Cons.IH Cons.prems show ?thesis by auto
  qed
qed simp

text \<open>
  A render node is called \<open>renderD\<close> and a number; its plane's id and name are lower-cased
  before the search for the driver.
\<close>

lemma lower_append: "to_ascii_lowercase (s @ t) = to_ascii_lowercase s @ to_ascii_lowercase t"
  by (simp add: to_ascii_lowercase_def)

lemma lower_digits: "list_all is_ascii_digit ds \<Longrightarrow> to_ascii_lowercase ds = ds"
  by (induction ds) (auto simp: to_ascii_lowercase_def ascii_lower_char_def is_ascii_digit_def)

lemma drm_name:
  "\<exists>v. p_name (drm_plane h a b c e n) = v @ '' ('' @ n @ '')''
     \<and> v \<in> set [''NVIDIA Corporation'', ''Advanced Micro Devices [AMD/ATI]'', ''Intel Corporation'',
         ''Qualcomm Technologies'', ''Direct Rendering Accelerator'']"
proof -
  have "fst (inspect_drm_sysfs h s t) \<in> set [''NVIDIA Corporation'', ''Advanced Micro Devices [AMD/ATI]'',
      ''Intel Corporation'', ''Qualcomm Technologies'', ''Direct Rendering Accelerator'']" for s t
    unfolding inspect_drm_sysfs_def vendor_label_def Let_def by (auto split: option.split)
  then show ?thesis by (simp add: drm_plane_def case_prod_beta)
qed

definition pair_free :: "char \<Rightarrow> char \<Rightarrow> string \<Rightarrow> bool" where
  "pair_free x y s \<longleftrightarrow> (x, y) \<notin> set (zip s (tl s)) \<and> x \<noteq> last s \<and> s \<noteq> []"

lemma no_driver:
  assumes ds: "list_all is_ascii_digit ds" and x: "x \<notin> set '')''" "\<not> is_ascii_digit x"
    and pf: "pair_free x y s" and n: "n = a @ [x, y] @ b" and t: "t = [] \<or> t = '')''"
  shows "\<not> contains n (s @ ds @ t)"
proof
  assume "contains n (s @ ds @ t)"
  from pair_append [OF contains_pair [OF this n]] pf have "x \<in> set (ds @ t)" by (auto simp: pair_free_def)
  with ds x t show False by (auto simp: list_all_iff)
qed

text \<open>A crash log that implicates the drivers \<open>amdgpu\<close>, \<open>xe\<close> or \<open>i915\<close> never quarantines a
  graphics plane: the audit's driver names are searched in the plane's id and name, which are
  built from the render node and the vendor and contain none of them.\<close>

lemma drm_drivers_never_quarantined:
  assumes ds: "list_all is_ascii_digit ds"
  shows "quarantine [''amdgpu'', ''xe'', ''i915''] (drm_plane h a b c e (''renderD'' @ ds)) = drm_plane h a b c e (''renderD'' @ ds)"
proof -
  let ?p = "drm_plane h a b c e (''renderD'' @ ds)"
  obtain v where v: "p_name ?p = v @ '' ('' @ (''renderD'' @ ds) @ '')''" and vs: "v \<in> set [''NVIDIA Corporation'',
      ''Advanced Micro Devices [AMD/ATI]'', ''Intel Corporation'', ''Qualcomm Technologies'', ''Direct Rendering Accelerator'']"
    using drm_name [of h a b c e "''renderD'' @ ds"] by blast
  have low_id: "to_ascii_lowercase (p_id ?p) = ''drm-renderd'' @ ds @ []"
  proof -
    have "to_ascii_lowercase ''drm-renderD'' = ''drm-renderd''" by code_simp
    then show ?thesis using lower_append [of "''drm-renderD''" ds] by (simp add: drm_id lower_digits [OF ds])
  qed
  have low_name: "to_ascii_lowercase (p_name ?p) = (to_ascii_lowercase v @ '' (renderd'') @ ds @ '')''"
  proof -
    have "to_ascii_lowercase '' (renderD'' = '' (renderd''" "to_ascii_lowercase '')'' = '')''" by code_simp+
    then show ?thesis
      using lower_append [of v "'' (renderD'' @ ds @ '')''"] lower_append [of "'' (renderD''" "ds @ '')''"] lower_append [of ds "'')''"]
      unfolding v by (simp add: lower_digits [OF ds])
  qed
  have pf: "list_all (\<lambda>(x, y). pair_free x y ''drm-renderd'' \<and> pair_free x y (to_ascii_lowercase v @ '' (renderd''))
      [(CHR ''g'', CHR ''p''), (CHR ''x'', CHR ''e''), (CHR ''i'', CHR ''9'')]"
    using vs by (simp only: set_simps insert_iff empty_iff) (elim disjE; simp only: False_implies_equals; code_simp)
  have ch: "CHR ''g'' \<notin> set '')''" "\<not> is_ascii_digit CHR ''g''" "CHR ''x'' \<notin> set '')''" "\<not> is_ascii_digit CHR ''x''"
    "CHR ''i'' \<notin> set '')''" "\<not> is_ascii_digit CHR ''i''" by code_simp+
  have no: "\<not> contains ''amdgpu'' (S @ ds @ t) \<and> \<not> contains ''xe'' (S @ ds @ t) \<and> \<not> contains ''i915'' (S @ ds @ t)"
    if "pair_free CHR ''g'' CHR ''p'' S" "pair_free CHR ''x'' CHR ''e'' S" "pair_free CHR ''i'' CHR ''9'' S" "t = [] \<or> t = '')''" for S t
    using no_driver [OF ds ch(1,2) that(1) _ that(4), of "''amdgpu''" "''amd''" "''u''"]
      no_driver [OF ds ch(3,4) that(2) _ that(4), of "''xe''" "[]" "[]"]
      no_driver [OF ds ch(5,6) that(3) _ that(4), of "''i915''" "[]" "''15''"] by simp
  have id: "\<not> contains ''amdgpu'' (to_ascii_lowercase (p_id ?p)) \<and> \<not> contains ''xe'' (to_ascii_lowercase (p_id ?p))
      \<and> \<not> contains ''i915'' (to_ascii_lowercase (p_id ?p))"
    unfolding low_id by (rule no) (use pf in \<open>simp_all only: list.pred_inject prod.case simp_thms\<close>)
  have "\<not> contains ''amdgpu'' (to_ascii_lowercase (p_name ?p)) \<and> \<not> contains ''xe'' (to_ascii_lowercase (p_name ?p))
      \<and> \<not> contains ''i915'' (to_ascii_lowercase (p_name ?p))"
    unfolding low_name by (rule no) (use pf in \<open>simp_all only: list.pred_inject prod.case simp_thms\<close>)
  with id show ?thesis unfolding quarantine_def list_ex_iff by (simp only: list.set bex_simps simp_thms if_False)
qed

end
