(* ===== verification/Fd_Quota.thy ===== *)
theory Fd_Quota
  imports Topology
begin

text \<open>
  The quota of the descriptor server (\<^verbatim>\<open>crates/inferenced-daemon/src/fd_quota.rs\<close>): an atomic
  counter of the bytes in flight, raised by a compare-and-exchange loop and lowered by a load
  followed by a subtraction. The two operations are given first for a counter no one else
  touches, and then as the steps of any number of concurrent tasks on a relaxed atomic.
\<close>

section \<open>The operations alone\<close>

definition MAX_MEMFD_BYTES :: u64 where
  "MAX_MEMFD_BYTES = 16 * 1024 * 1024 * 1024"

record fd_quota =
  allocated_bytes :: u64
  ceiling_bytes :: u64

definition new_quota :: "u64 \<Rightarrow> fd_quota" where
  "new_quota c = \<lparr>allocated_bytes = 0, ceiling_bytes = c\<rparr>"

definition mem_total_kb :: "string \<Rightarrow> u64 option" where
  "mem_total_kb s =
     Option.bind (find (starts_with ''MemTotal:'') (str_lines s)) (\<lambda>l.
       let ws = split_whitespace l in if 1 < length ws then parse_u64 (ws ! 1) else None)"

definition half_of_total_ram :: "string option \<Rightarrow> u64" where
  "half_of_total_ram meminfo =
     (case Option.bind meminfo mem_total_kb of
        Some kb \<Rightarrow> kb * 1024
      | None \<Rightarrow> 32 * 1024 * 1024 * 1024) div 2"

definition from_half_of_total_ram :: "os \<Rightarrow> fd_quota" where
  "from_half_of_total_ram h = new_quota (half_of_total_ram (os_read_to_string h ''/proc/meminfo''))"

definition try_reserve :: "u64 \<Rightarrow> fd_quota \<Rightarrow> (u64, u64) result \<times> fd_quota" where
  "try_reserve bytes q =
     (let cur = allocated_bytes q; nxt = saturating_add cur bytes in
      if ceiling_bytes q < nxt then (Err cur, q) else (Ok bytes, q\<lparr>allocated_bytes := nxt\<rparr>))"

definition release_quota :: "u64 \<Rightarrow> fd_quota \<Rightarrow> fd_quota" where
  "release_quota amount q = q\<lparr>allocated_bytes := allocated_bytes q - min amount (allocated_bytes q)\<rparr>"

lemma reserve_release:
  assumes "try_reserve b q = (Ok r, q')" and "ceiling_bytes q < - 1"
  shows "release_quota r q' = q" and "allocated_bytes q' \<le> ceiling_bytes q"
proof -
  have fits: "saturating_add (allocated_bytes q) b < - 1" "r = b" "q' = q\<lparr>allocated_bytes := saturating_add (allocated_bytes q) b\<rparr>"
    using assms by (auto simp: try_reserve_def Let_def not_less split: if_splits)
  then have a: "saturating_add (allocated_bytes q) b = allocated_bytes q + b" "unat (allocated_bytes q) + unat b < 2 ^ 64"
    by (auto simp: saturating_add_def split: if_splits)
  then have "unat b \<le> unat (allocated_bytes q + b)" by (simp add: unat_word_ariths)
  then show "release_quota r q' = q" using fits a by (simp add: release_quota_def min_def word_le_nat_alt)
  show "allocated_bytes q' \<le> ceiling_bytes q" using assms by (auto simp: try_reserve_def Let_def split: if_splits)
qed

section \<open>Concurrent tasks\<close>

text \<open>
  The counter is its modification order, the list of all values it ever had, oldest first.
  All accesses are relaxed: a load, and the load of an exchange that fails, may return any
  value that is not older than what the task has already read or written; a successful
  exchange and a subtraction act on the newest value. A task is where it stands in the code,
  with the position in the modification order it has seen.
\<close>

datatype quota_task =
    Arrived u64 nat \<comment> \<open>before the load of \<open>try_reserve\<close>\<close>
  | Trying u64 u64 nat \<comment> \<open>in the loop, with \<open>current\<close>\<close>
  | Refused u64 u64
  | Holding u64 nat \<comment> \<open>\<open>try_reserve\<close> returned\<close>
  | Releasing u64 u64 nat \<comment> \<open>in \<open>release\<close>, with what will be subtracted\<close>
  | Released

record quota_state =
  history :: "u64 list"
  tasks :: "quota_task list"

definition latest :: "quota_state \<Rightarrow> u64" where
  "latest s = last (history s)"

definition readable :: "quota_state \<Rightarrow> nat \<Rightarrow> nat \<Rightarrow> bool" where
  "readable s k j \<longleftrightarrow> k \<le> j \<and> j < length (history s)"

definition set_task :: "nat \<Rightarrow> quota_task \<Rightarrow> quota_state \<Rightarrow> quota_state" where
  "set_task i t s = s\<lparr>tasks := (tasks s)[i := t]\<rparr>"

definition store :: "u64 \<Rightarrow> quota_state \<Rightarrow> quota_state" where
  "store v s = s\<lparr>history := history s @ [v]\<rparr>"

inductive quota_step :: "u64 \<Rightarrow> quota_state \<Rightarrow> quota_state \<Rightarrow> bool" for cap where
  arrive: "quota_step cap s (s\<lparr>tasks := tasks s @ [Arrived b 0]\<rparr>)"
| load: "i < length (tasks s) \<Longrightarrow> tasks s ! i = Arrived b k \<Longrightarrow> readable s k j
    \<Longrightarrow> quota_step cap s (set_task i (Trying b (history s ! j) j) s)"
| refuse: "i < length (tasks s) \<Longrightarrow> tasks s ! i = Trying b cur k \<Longrightarrow> cap < saturating_add cur b
    \<Longrightarrow> quota_step cap s (set_task i (Refused b cur) s)"
| exchange: "i < length (tasks s) \<Longrightarrow> tasks s ! i = Trying b cur k \<Longrightarrow> \<not> cap < saturating_add cur b \<Longrightarrow> latest s = cur
    \<Longrightarrow> quota_step cap s (set_task i (Holding b (length (history s))) (store (saturating_add cur b) s))"
| retry: "i < length (tasks s) \<Longrightarrow> tasks s ! i = Trying b cur k \<Longrightarrow> \<not> cap < saturating_add cur b \<Longrightarrow> readable s k j
    \<Longrightarrow> history s ! j \<noteq> cur \<Longrightarrow> quota_step cap s (set_task i (Trying b (history s ! j) j) s)"
| load_release: "i < length (tasks s) \<Longrightarrow> tasks s ! i = Holding b k \<Longrightarrow> readable s k j
    \<Longrightarrow> quota_step cap s (set_task i (Releasing b (min b (history s ! j)) j) s)"
| subtract: "i < length (tasks s) \<Longrightarrow> tasks s ! i = Releasing b d k
    \<Longrightarrow> quota_step cap s (set_task i Released (store (latest s - d) s))"

inductive_cases quota_stepE: "quota_step cap s t"

definition idle_quota :: quota_state where
  "idle_quota = \<lparr>history = [0], tasks = []\<rparr>"

section \<open>The abstract quota\<close>

text \<open>What the quota promises: a collection of reservations that never exceeds the ceiling.\<close>

inductive pool_step :: "nat \<Rightarrow> nat multiset \<Rightarrow> nat multiset \<Rightarrow> bool" for cap where
  reserve: "sum_mset M + b \<le> cap \<Longrightarrow> pool_step cap M (add_mset b M)"
| giveback: "b \<in># M \<Longrightarrow> pool_step cap M (M - {#b#})"

fun held_by :: "quota_task \<Rightarrow> nat multiset" where
  "held_by (Holding b k) = {#unat b#}"
| "held_by (Releasing b d k) = {#unat b#}"
| "held_by _ = {#}"

definition reservations :: "quota_state \<Rightarrow> nat multiset" where
  "reservations s = \<Sum>\<^sub># (image_mset held_by (mset (tasks s)))"

section \<open>Invariant\<close>

text \<open>What a single task may rely on: a reservation is contained in every value it can still read.\<close>

fun task_ok :: "u64 \<Rightarrow> u64 list \<Rightarrow> quota_task \<Rightarrow> bool" where
  "task_ok cap h (Holding b k) \<longleftrightarrow> (\<forall>j. k \<le> j \<longrightarrow> j < length h \<longrightarrow> b \<le> h ! j)"
| "task_ok cap h (Releasing b d k) \<longleftrightarrow> d = b"
| "task_ok cap h (Trying b cur k) \<longleftrightarrow> cur \<in> set h"
| "task_ok cap h (Refused b cur) \<longleftrightarrow> cur \<in> set h \<and> cap < saturating_add cur b"
| "task_ok cap h _ \<longleftrightarrow> True"

definition quota_inv :: "u64 \<Rightarrow> quota_state \<Rightarrow> bool" where
  "quota_inv cap s \<longleftrightarrow>
     history s \<noteq> [] \<and> (\<forall>v \<in> set (history s). v \<le> cap) \<and> unat (latest s) = sum_mset (reservations s)
   \<and> (\<forall>t \<in> set (tasks s). task_ok cap (history s) t)"

lemma reservations_update:
  assumes "i < length (tasks s)"
  shows "reservations (set_task i t s) + held_by (tasks s ! i) = reservations s + held_by t"
proof -
  let ?R = "mset (tasks s) - {#tasks s ! i#}"
  have "mset (tasks s) = add_mset (tasks s ! i) ?R" using assms by simp
  then have "reservations s = held_by (tasks s ! i) + \<Sum>\<^sub># (image_mset held_by ?R)"
    unfolding reservations_def by (metis image_mset_add_mset sum_mset.add_mset)
  moreover have "reservations (set_task i t s) = held_by t + \<Sum>\<^sub># (image_mset held_by ?R)"
    using assms by (simp add: reservations_def set_task_def mset_update)
  ultimately show ?thesis by (simp add: ac_simps)
qed

lemma reservations_store [simp]: "reservations (store v s) = reservations s"
  by (simp add: reservations_def store_def)

lemma store_simps [simp]:
  "history (store v s) = history s @ [v]" "tasks (store v s) = tasks s" "latest (store v s) = v"
  "history (set_task i t s) = history s" "tasks (set_task i t s) = (tasks s)[i := t]" "latest (set_task i t s) = latest s"
  by (simp_all add: store_def set_task_def latest_def)

lemma held_le_sum: "t \<in> set (tasks s) \<Longrightarrow> sum_mset (held_by t) \<le> sum_mset (reservations s)"
proof -
  assume "t \<in> set (tasks s)"
  then obtain i where i: "i < length (tasks s)" "tasks s ! i = t" by (auto simp: in_set_conv_nth)
  have "reservations (set_task i Released s) + held_by t = reservations s" using reservations_update [OF i(1), of Released] i(2) by simp
  then show ?thesis by (metis le_add2 sum_mset.union)
qed

lemma task_of: "quota_inv cap s \<Longrightarrow> i < length (tasks s) \<Longrightarrow> task_ok cap (history s) (tasks s ! i)"
  by (simp add: quota_inv_def)

text \<open>Moving a task without storing.\<close>

lemma inv_move:
  assumes "quota_inv cap s" and "i < length (tasks s)" and "held_by t = held_by (tasks s ! i)" and "task_ok cap (history s) t"
  shows "quota_inv cap (set_task i t s)" and "reservations (set_task i t s) = reservations s"
proof -
  show r: "reservations (set_task i t s) = reservations s" using reservations_update [OF assms(2), of t] assms(3) by simp
  show "quota_inv cap (set_task i t s)"
    using assms(1,4) r by (auto simp: quota_inv_def dest: set_update_subset_insert [THEN subsetD])
qed

text \<open>Storing a new value: the other tasks' reservations must still be contained in it.\<close>

lemma inv_store:
  assumes inv: "quota_inv cap s" and i: "i < length (tasks s)" and v: "v \<le> cap" "unat v = sum_mset (reservations (set_task i t s))"
    and t: "task_ok cap (history s @ [v]) t"
  shows "quota_inv cap (set_task i t (store v s))"
proof -
  have sum: "reservations (set_task i t (store v s)) = reservations (set_task i t s)" by (simp add: reservations_def set_task_def)
  have "task_ok cap (history s @ [v]) u" if "j < length (tasks s)" "j \<noteq> i" "u = tasks s ! j" for u j
  proof -
    have u: "task_ok cap (history s) u" "u \<in> set (tasks (set_task i t s))"
      using task_of [OF inv that(1)] that by (auto simp: in_set_conv_nth intro!: exI [of _ j])
    have "sum_mset (held_by u) \<le> unat v" using held_le_sum [OF u(2)] v(2) by simp
    with u(1) show ?thesis by (cases u) (auto simp: nth_append word_le_nat_alt less_Suc_eq)
  qed
  then have "\<forall>u \<in> set ((tasks s)[i := t]). task_ok cap (history s @ [v]) u"
    using t i by (auto simp: in_set_conv_nth nth_list_update)
  then show ?thesis using inv v by (auto simp: quota_inv_def sum)
qed

text \<open>A ceiling below the largest number keeps the saturating addition exact.\<close>

lemma exact_add:
  assumes "cap < - 1" and "\<not> cap < saturating_add cur b"
  shows "unat (saturating_add cur b) = unat cur + unat b"
proof -
  have "saturating_add cur b < - 1" using assms by (meson le_less_trans not_le)
  then show ?thesis by (auto simp: saturating_add_def unat_word_ariths split: if_splits)
qed

interpretation quota: simulation "quota_step cap" "\<lambda>s. cap < - 1 \<and> quota_inv cap s" "pool_step (unat cap)" reservations for cap
proof (unfold_locales, goal_cases)
  case (1 s t)
  then have inv: "quota_inv cap s" and c: "cap < - 1" by blast+
  from 1(2) have "quota_inv cap t"
  proof (cases rule: quota_step.cases)
    case (arrive b)
    with inv show ?thesis by (auto simp: quota_inv_def reservations_def latest_def)
  next
    case (load i b k j)
    then show ?thesis unfolding load(1) by (intro inv_move [OF inv]) (auto simp: readable_def)
  next
    case (refuse i b cur k)
    then show ?thesis using task_of [OF inv refuse(2)] unfolding refuse(1) by (intro inv_move [OF inv]) auto
  next
    case (exchange i b cur k)
    have "unat (saturating_add cur b) = sum_mset (reservations (set_task i (Holding b (length (history s))) s))"
      using reservations_update [OF exchange(2), of "Holding b (length (history s))"] exchange exact_add [OF c exchange(4)] inv
      by (simp add: quota_inv_def)
    moreover have "b \<le> saturating_add cur b" using exact_add [OF c exchange(4)] by (simp add: word_le_nat_alt)
    ultimately show ?thesis unfolding exchange(1) using exchange(2,4) by (intro inv_store [OF inv]) (auto simp: nth_append)
  next
    case (retry i b cur k j)
    then show ?thesis unfolding retry(1) by (intro inv_move [OF inv]) (auto simp: readable_def)
  next
    case (load_release i b k j)
    then show ?thesis using task_of [OF inv load_release(2)] unfolding load_release(1)
      by (intro inv_move [OF inv]) (auto simp: readable_def min_def)
  next
    case (subtract i b d k)
    have d: "d = b" using task_of [OF inv subtract(2)] subtract(3) by simp
    have s: "sum_mset (reservations (set_task i Released s)) + unat b = unat (latest s)"
      using reservations_update [OF subtract(2), of Released] subtract(3) inv by (simp add: quota_inv_def) (metis sum_mset.add_mset add.commute)
    then have "unat (latest s - d) = sum_mset (reservations (set_task i Released s))" using d by (simp add: unat_sub word_le_nat_alt)
    moreover have "latest s - d \<le> cap"
    proof -
      have "latest s \<le> cap" using inv by (simp add: quota_inv_def latest_def)
      moreover have "unat (latest s - d) \<le> unat (latest s)" using s d by (simp add: unat_sub word_le_nat_alt)
      ultimately show ?thesis by (simp add: word_le_nat_alt)
    qed
    ultimately show ?thesis unfolding subtract(1) using subtract(2) by (intro inv_store [OF inv]) auto
  qed
  with c show ?case by blast
next
  case (2 s t)
  then have inv: "quota_inv cap s" and c: "cap < - 1" by blast+
  from 2(2) show ?case
  proof (cases rule: quota_step.cases)
    case (exchange i b cur k)
    have "reservations t = add_mset (unat b) (reservations s)"
      using reservations_update [OF exchange(2), of "Holding b (length (history s))"] exchange(3) unfolding exchange(1)
      by (simp add: reservations_def set_task_def)
    moreover have "sum_mset (reservations s) + unat b \<le> unat cap"
      using exact_add [OF c exchange(4)] exchange(4,5) inv by (simp add: quota_inv_def not_less word_le_nat_alt)
    ultimately show ?thesis using pool_step.reserve by metis
  next
    case (subtract i b d k)
    have "add_mset (unat b) (reservations t) = reservations s"
      using reservations_update [OF subtract(2), of Released] subtract(3) unfolding subtract(1)
      by (simp add: reservations_def set_task_def)
    then have "unat b \<in># reservations s" "reservations t = reservations s - {#unat b#}" by (metis union_single_eq_member, metis add_mset_remove_trivial)
    then show ?thesis using pool_step.giveback by metis
  next
    case (arrive b)
    then show ?thesis by (simp add: reservations_def)
  next
    case (load i b k j)
    then show ?thesis using reservations_update [OF load(2), of "Trying b (history s ! j) j"] by simp
  next
    case (refuse i b cur k)
    then show ?thesis using reservations_update [OF refuse(2), of "Refused b cur"] by simp
  next
    case (retry i b cur k j)
    then show ?thesis using reservations_update [OF retry(2), of "Trying b (history s ! j) j"] by simp
  next
    case (load_release i b k j)
    then show ?thesis using reservations_update [OF load_release(2), of "Releasing b (min b (history s ! j)) j"] by simp
  qed
qed

lemma half_below_top: "half_of_total_ram m < - 1"
proof -
  have "unat (x div 2) < 2 ^ 64 - 1" for x :: u64
    using unsigned_less [of x, where ?'a = nat] by (simp add: unat_div)
  then show ?thesis unfolding half_of_total_ram_def word_less_nat_alt by (simp add: unsigned_minus_1_eq_mask mask_eq_exp_minus_1)
qed

text \<open>C4: the quota refines an abstract pool of reservations. Under every interleaving of any
  number of tasks, and with loads that may return outdated values, the counter is exactly the
  sum of the reservations held, these change only by reservations that fit under the ceiling
  and by giving back a reservation held, and a task is refused only if the counter had a value
  with which its request exceeded the ceiling. The ceiling is the one the server computes.\<close>

theorem quota_refines_pool:
  assumes run: "(quota_step (ceiling_bytes (from_half_of_total_ram h)))\<^sup>*\<^sup>* idle_quota s"
  shows "(pool_step (unat (ceiling_bytes (from_half_of_total_ram h))))\<^sup>*\<^sup>* {#} (reservations s)
    \<and> unat (latest s) = sum_mset (reservations s)
    \<and> latest s \<le> ceiling_bytes (from_half_of_total_ram h)
    \<and> (\<forall>b cur. Refused b cur \<in> set (tasks s) \<longrightarrow>
         cur \<in> set (history s) \<and> unat (ceiling_bytes (from_half_of_total_ram h)) < unat cur + unat b)"
proof -
  let ?c = "ceiling_bytes (from_half_of_total_ram h)"
  have c: "?c < - 1" by (simp add: from_half_of_total_ram_def new_quota_def half_below_top)
  have init: "?c < - 1 \<and> quota_inv ?c idle_quota" "reservations idle_quota = {#}"
    using c by (simp_all add: quota_inv_def idle_quota_def reservations_def latest_def)
  have "quota_inv ?c s" using quota.steps_inv [OF run init(1)] by blast
  moreover have "unat ?c < unat cur + unat b" if "?c < saturating_add cur b" for cur b
    using that by (simp add: word_less_nat_alt unat_saturating_add)
  ultimately show ?thesis
    using quota.steps_sim [OF run init(1)] init(2) by (fastforce simp: quota_inv_def latest_def)
qed

theorem quota_refines_pool_witness:
  "unat (latest \<lparr>history = [0, 700], tasks = [Holding 700 1]\<rparr>) = sum_mset (reservations \<lparr>history = [0, 700], tasks = [Holding 700 1]\<rparr>)"
proof -
  let ?c = "ceiling_bytes (from_half_of_total_ram empty_os)"
  let ?s1 = "\<lparr>history = [0], tasks = [Arrived 700 0]\<rparr>" and ?s2 = "\<lparr>history = [0], tasks = [Trying 700 0 0]\<rparr>"
  let ?s3 = "\<lparr>history = [0, 700], tasks = [Holding 700 1]\<rparr>"
  have c: "?c = 17179869184" by (simp add: from_half_of_total_ram_def new_quota_def half_of_total_ram_def empty_os_def)
  have a: "saturating_add 0 700 = (700 :: u64)" by (simp add: saturating_add_def)
  have 1: "quota_step ?c idle_quota ?s1" using quota_step.arrive [of ?c idle_quota 700] by (simp add: idle_quota_def)
  have 2: "quota_step ?c ?s1 ?s2" using quota_step.load [of 0 ?s1 700 0 0 ?c] by (simp add: readable_def set_task_def)
  have 3: "quota_step ?c ?s2 ?s3"
    using quota_step.exchange [of 0 ?s2 700 0 0 ?c] a by (simp add: c latest_def set_task_def store_def)
  have "(quota_step ?c)\<^sup>*\<^sup>* idle_quota ?s3"
    using 1 2 3 by (meson rtranclp.rtrancl_into_rtrancl rtranclp.rtrancl_refl)
  from quota_refines_pool [OF this] show ?thesis by simp
qed

end
