(* ===== verification/Paging.thy ===== *)
theory Paging
  imports Utf8 Topology Lease "HOL-Library.Multiset"
begin

text \<open>
  Zero-copy paging (\<^verbatim>\<open>crates/inferenced-core/src/fd_lease.rs\<close>, \<^verbatim>\<open>paging.rs\<close> and
  \<^verbatim>\<open>madvise.rs\<close>): sealed memory files, descriptors passed over a socket, advice on memory
  ranges and the metrics of compressed swap. What the system calls return is an argument.
\<close>

section \<open>Sealed memory files\<close>

record memfd =
  mf_bytes :: string
  mf_offset :: nat
  mf_sealed :: bool \<comment> \<open>the four seals of \<open>create_sealed_memfd\<close>\<close>

record memfd_calls =
  c_create :: "(errno, unit) result"
  c_truncate :: "(errno, unit) result"
  c_writes :: "(errno, nat) result list" \<comment> \<open>what the successive writes return\<close>
  c_seek :: "(errno, unit) result"
  c_seal :: "(errno, unit) result"

text \<open>A write at the offset, which never lies beyond the end of the file here.\<close>

definition file_write :: "string \<Rightarrow> memfd \<Rightarrow> memfd" where
  "file_write s f =
     f\<lparr>mf_bytes := take (mf_offset f) (mf_bytes f) @ s @ drop (mf_offset f + length s) (mf_bytes f),
       mf_offset := mf_offset f + length s\<rparr>"

text \<open>The write loop; it has no value while the calls it waits for have not returned.\<close>

fun write_loop :: "(errno, nat) result list \<Rightarrow> string \<Rightarrow> nat \<Rightarrow> memfd \<Rightarrow> (errno, memfd) result option" where
  "write_loop rs data written f =
     (if written < length data
      then (case rs of
              [] \<Rightarrow> None
            | Err e # _ \<Rightarrow> Some (Err e)
            | Ok n # rs' \<Rightarrow>
                if n = 0 then Some (Ok f)
                else write_loop rs' data (written + n) (file_write (take n (drop written data)) f))
      else Some (Ok f))"

declare write_loop.simps [simp del]

definition create_sealed_memfd :: "memfd_calls \<Rightarrow> u64 \<Rightarrow> string option \<Rightarrow> (error, memfd) result option" where
  "create_sealed_memfd C size_bytes initial =
     (case c_create C of
        Err e \<Rightarrow> Some (Err (SystemCall e))
      | Ok _ \<Rightarrow>
          (case c_truncate C of
             Err e \<Rightarrow> Some (Err (SystemCall e))
           | Ok _ \<Rightarrow>
               let f = \<lparr>mf_bytes = replicate (unat size_bytes) nul, mf_offset = 0, mf_sealed = False\<rparr> in
               (case (case initial of None \<Rightarrow> Some (Ok f) | Some data \<Rightarrow> write_loop (c_writes C) data 0 f) of
                  None \<Rightarrow> None
                | Some (Err e) \<Rightarrow> Some (Err (SystemCall e))
                | Some (Ok f1) \<Rightarrow>
                    (case c_seek C of
                       Err e \<Rightarrow> Some (Err (SystemCall e))
                     | Ok _ \<Rightarrow>
                         (case c_seal C of
                            Err e \<Rightarrow> Some (Err (SystemCall e))
                          | Ok _ \<Rightarrow> Some (Ok (f1\<lparr>mf_offset := 0, mf_sealed := True\<rparr>)))))))"

definition create_sealed_model :: "memfd_calls \<Rightarrow> string \<Rightarrow> (error, memfd) result option" where
  "create_sealed_model C data = create_sealed_memfd C (word_of_nat (length data)) (Some data)"

section \<open>Descriptor passing\<close>

type_synonym fd = nat

datatype cmsg = ScmRights "fd list" | OtherCmsg

definition send_fd_over_unix :: "bool \<Rightarrow> (errno, nat) result \<Rightarrow> (error, nat) result" where
  "send_fd_over_unix pushed sent =
     (if \<not> pushed then Err (FdError ''Failed to push fd to ancillary buffer'') else map_sum SystemCall (\<lambda>n. n) sent)"

text \<open>The descriptor kept by the drain loop, and those it drops, which closes them.\<close>

fun keep_first :: "fd list \<Rightarrow> fd option \<Rightarrow> fd option \<times> fd list" where
  "keep_first [] kept = (kept, [])"
| "keep_first (x # xs) None = keep_first xs (Some x)"
| "keep_first (x # xs) (Some k) = (let (r, shut) = keep_first xs (Some k) in (r, x # shut))"

fun drain_fds :: "cmsg list \<Rightarrow> fd option \<Rightarrow> fd option \<times> fd list" where
  "drain_fds [] kept = (kept, [])"
| "drain_fds (OtherCmsg # ms) kept = drain_fds ms kept"
| "drain_fds (ScmRights xs # ms) kept =
     (let (k1, c1) = keep_first xs kept; (k2, c2) = drain_fds ms k1 in (k2, c1 @ c2))"

definition recv_fd_from_unix ::
  "nat \<Rightarrow> (errno, nat \<times> cmsg list) result \<Rightarrow> (error, nat \<times> fd option) result \<times> fd list" where
  "recv_fd_from_unix buf_len msg =
     (case msg of
        Err e \<Rightarrow> (Err (SystemCall e), [])
      | Ok (n, ms) \<Rightarrow>
          let (kept, shut) = drain_fds ms None in
          if n = buf_len
          then (Err (FdError (''recvmsg filled '' @ show_nat buf_len @ '' bytes; caller-supplied buffer too small'')),
                shut @ (case kept of Some k \<Rightarrow> [k] | None \<Rightarrow> []))
          else (Ok (n, kept), shut))"

text \<open>\<open>buf\<close> are the 1024 bytes of the buffer after the call.\<close>

definition recv_model_fd ::
  "string \<Rightarrow> (errno, nat \<times> cmsg list) result \<Rightarrow> (error, string \<times> fd) result \<times> fd list" where
  "recv_model_fd buf msg =
     (case recv_fd_from_unix 1024 msg of
        (Err e, shut) \<Rightarrow> (Err e, shut)
      | (Ok (n, None), shut) \<Rightarrow> (Err (FdError ''No file descriptor received in SCM_RIGHTS message''), shut)
      | (Ok (n, Some k), shut) \<Rightarrow> (Ok (utf8_lossy (take n buf), k), shut))"

section \<open>Memory advice\<close>

type_synonym addr = nat

datatype advice = WillNeed | LinuxDontNeed | LinuxHugepage | Sequential | Random | LinuxDontDump

datatype mm_call = Mmap nat | Madvise addr nat advice | Munmap addr nat

record mm =
  mm_mmap :: "nat \<Rightarrow> (errno, addr) result"
  mm_madvise :: "addr \<Rightarrow> nat \<Rightarrow> advice \<Rightarrow> (errno, unit) result"
  mm_munmap :: "addr \<Rightarrow> nat \<Rightarrow> (errno, unit) result"

definition advise_willneed :: "mm \<Rightarrow> addr \<Rightarrow> nat \<Rightarrow> (error, unit) result" where
  "advise_willneed M a len = map_sum SystemCall (\<lambda>_. ()) (mm_madvise M a len WillNeed)"

definition advise_dontneed :: "mm \<Rightarrow> addr \<Rightarrow> nat \<Rightarrow> (error, unit) result" where
  "advise_dontneed M a len = map_sum SystemCall (\<lambda>_. ()) (mm_madvise M a len LinuxDontNeed)"

definition advise_hugepage :: "mm \<Rightarrow> addr \<Rightarrow> nat \<Rightarrow> (error, unit) result" where
  "advise_hugepage M a len = map_sum SystemCall (\<lambda>_. ()) (mm_madvise M a len LinuxHugepage)"

definition advise_sequential :: "mm \<Rightarrow> addr \<Rightarrow> nat \<Rightarrow> (error, unit) result" where
  "advise_sequential M a len = map_sum SystemCall (\<lambda>_. ()) (mm_madvise M a len Sequential)"

definition advise_random :: "mm \<Rightarrow> addr \<Rightarrow> nat \<Rightarrow> (error, unit) result" where
  "advise_random M a len = map_sum SystemCall (\<lambda>_. ()) (mm_madvise M a len Random)"

definition advise_dontdump :: "mm \<Rightarrow> addr \<Rightarrow> nat \<Rightarrow> (error, unit) result" where
  "advise_dontdump M a len = map_sum SystemCall (\<lambda>_. ()) (mm_madvise M a len LinuxDontDump)"

text \<open>The mapping of a received model, with the calls it makes.\<close>

definition map_and_protect_memfd :: "mm \<Rightarrow> nat \<Rightarrow> (error, addr) result \<times> mm_call list" where
  "map_and_protect_memfd M len =
     (case mm_mmap M len of
        Err e \<Rightarrow> (Err (SystemCall e), [Mmap len])
      | Ok p \<Rightarrow>
          (case advise_dontdump M p len of
             Err e \<Rightarrow> (Err e, [Mmap len, Madvise p len LinuxDontDump])
           | Ok _ \<Rightarrow> (Ok p, [Mmap len, Madvise p len LinuxDontDump])))"

text \<open>The methods of \<open>MemfdPaging\<close> and \<open>FdLease\<close> that pass a call on.\<close>

definition reclaim_pages :: "mm \<Rightarrow> addr \<Rightarrow> nat \<Rightarrow> (error, unit) result" where
  "reclaim_pages = advise_dontneed"

definition prefetch_pages :: "mm \<Rightarrow> addr \<Rightarrow> nat \<Rightarrow> (error, unit) result" where
  "prefetch_pages = advise_willneed"

definition advise_hugepages :: "mm \<Rightarrow> addr \<Rightarrow> nat \<Rightarrow> (error, unit) result" where
  "advise_hugepages = advise_hugepage"

definition advise_exclude_coredump :: "mm \<Rightarrow> addr \<Rightarrow> nat \<Rightarrow> (error, unit) result" where
  "advise_exclude_coredump = advise_dontdump"

definition send_model_fd :: "bool \<Rightarrow> (errno, nat) result \<Rightarrow> (error, nat) result" where
  "send_model_fd = send_fd_over_unix"

definition create_sealed :: "memfd_calls \<Rightarrow> u64 \<Rightarrow> string option \<Rightarrow> (error, memfd) result option" where
  "create_sealed = create_sealed_memfd"

definition send_fd :: "bool \<Rightarrow> (errno, nat) result \<Rightarrow> (error, nat) result" where
  "send_fd = send_fd_over_unix"

definition recv_fd :: "nat \<Rightarrow> (errno, nat \<times> cmsg list) result \<Rightarrow> (error, nat \<times> fd option) result \<times> fd list" where
  "recv_fd = recv_fd_from_unix"

definition unmap_memfd :: "mm \<Rightarrow> addr \<Rightarrow> nat \<Rightarrow> (error, unit) result" where
  "unmap_memfd M a len = map_sum SystemCall (\<lambda>_. ()) (mm_munmap M a len)"

section \<open>Compressed swap\<close>

record zswap_metrics =
  z_enabled :: bool
  z_compressor :: string
  z_bytes :: u64
  z_swapped :: u64
  z_max_pool :: u32
  z_accept :: u32

definition zswap_line :: "u64 \<times> u64 \<Rightarrow> string \<Rightarrow> u64 \<times> u64" where
  "zswap_line acc l =
     (case strip_prefix ''Zswap:'' l of
        Some rest \<Rightarrow> (parse_kb rest, snd acc)
      | None \<Rightarrow> (case strip_prefix ''Zswapped:'' l of Some rest \<Rightarrow> (fst acc, parse_kb rest) | None \<Rightarrow> acc))"

definition parse_percent :: "os \<Rightarrow> string \<Rightarrow> u32 \<Rightarrow> u32" where
  "parse_percent h path dflt =
     (case os_read_to_string h path of
        Some s \<Rightarrow> (case parse_u32 (trim s) of Some v \<Rightarrow> v | None \<Rightarrow> dflt)
      | None \<Rightarrow> dflt)"

definition parse_metrics :: "os \<Rightarrow> string \<Rightarrow> string \<Rightarrow> zswap_metrics" where
  "parse_metrics h meminfo dir =
     (let (bytes, swapped) = foldl zswap_line (0, 0) (str_lines meminfo) in
      \<lparr>z_enabled = (case os_read_to_string h (path_join dir ''enabled'') of
                      Some s \<Rightarrow> trim s = ''Y'' \<or> trim s = ''1'' | None \<Rightarrow> False),
       z_compressor = (case os_read_to_string h (path_join dir ''compressor'') of Some s \<Rightarrow> trim s | None \<Rightarrow> ''zstd''),
       z_bytes = bytes, z_swapped = swapped,
       z_max_pool = parse_percent h (path_join dir ''max_pool_percent'') 20,
       z_accept = parse_percent h (path_join dir ''accept_threshold_percent'') 90\<rparr>)"

definition read_zswap_metrics :: "os \<Rightarrow> zswap_metrics" where
  "read_zswap_metrics h =
     parse_metrics h (case os_read_to_string h ''/proc/meminfo'' of Some s \<Rightarrow> s | None \<Rightarrow> []) ''/sys/module/zswap/parameters''"

section \<open>Properties\<close>

text \<open>The results of writes that make progress and never claim more than was left.\<close>

fun progress :: "nat \<Rightarrow> (errno, nat) result list \<Rightarrow> bool" where
  "progress 0 rs \<longleftrightarrow> True"
| "progress left [] \<longleftrightarrow> False"
| "progress left (Err e # rs) \<longleftrightarrow> False"
| "progress left (Ok n # rs) \<longleftrightarrow> 0 < n \<and> n \<le> left \<and> progress (left - n) rs"

lemma write_loop_progress:
  assumes "progress (length data - written) rs" and "written \<le> length data" and "mf_offset f = written"
    and "take written (mf_bytes f) = take written data" and "written \<le> length (mf_bytes f)"
  shows "write_loop rs data written f = Some (Ok (f\<lparr>mf_bytes := data @ drop (length data) (mf_bytes f), mf_offset := length data\<rparr>))"
  using assms
proof (induction rs arbitrary: written f)
  case Nil
  then have w: "written = length data" by (cases "length data - written") auto
  with Nil(4) have "mf_bytes f = data @ drop (length data) (mf_bytes f)" by (metis append_take_drop_id take_all_iff order_refl)
  with w Nil(3) show ?case by (subst write_loop.simps) (cases f, simp)
next
  case (Cons r rs)
  show ?case
  proof (cases "written < length data")
    case False
    then have w: "written = length data" using Cons.prems(2) by simp
    with Cons.prems(4) have "mf_bytes f = data @ drop (length data) (mf_bytes f)" by (metis append_take_drop_id take_all_iff order_refl)
    with w Cons.prems(3) show ?thesis by (subst write_loop.simps) (cases f, simp)
  next
    case True
    then obtain m where m: "length data - written = Suc m" by (metis Suc_diff_Suc)
    obtain n where n: "r = Ok n" "0 < n" "n \<le> length data - written" "progress (length data - (written + n)) rs"
      using Cons.prems(1) m by (cases r) (auto simp: diff_diff_left [symmetric])
    let ?s = "take n (drop written data)"
    have len: "length ?s = n" using n(3) by simp
    let ?f = "file_write ?s f"
    have bytes: "mf_bytes ?f = take written data @ ?s @ drop (written + n) (mf_bytes f)" "mf_offset ?f = written + n"
      using Cons.prems(3,4) len by (simp_all add: file_write_def)
    have pre: "take (written + n) data = take written data @ ?s" by (simp add: take_add)
    have "take (written + n) (mf_bytes ?f) = take (written + n) data" "written + n \<le> length (mf_bytes ?f)"
      using Cons.prems(2) n(3) len by (simp_all add: bytes(1) pre)
    from Cons.IH [OF n(4) _ bytes(2) this] n(3) True
    have IH: "write_loop rs data (written + n) ?f
        = Some (Ok (?f\<lparr>mf_bytes := data @ drop (length data) (mf_bytes ?f), mf_offset := length data\<rparr>))" by simp
    have "drop (length data) (mf_bytes ?f) = drop (length data) (mf_bytes f)"
      using n(3) len Cons.prems(2) by (simp add: bytes(1) drop_append)
    then have "write_loop rs data (written + n) ?f = Some (Ok (f\<lparr>mf_bytes := data @ drop (length data) (mf_bytes f), mf_offset := length data\<rparr>))"
      using IH by (cases f) (simp add: file_write_def)
    then show ?thesis using True n(1,2) by (subst write_loop.simps) simp
  qed
qed

text \<open>C37: as long as the kernel accepts some bytes at every write, a model's memory file ends up
  with exactly the data, rewound to its start and sealed, however the writes are split.\<close>

theorem sealed_model_complete:
  assumes "length data < 2 ^ 64" and "progress (length data) (c_writes C)"
    and "c_create C = Ok ()" "c_truncate C = Ok ()" "c_seek C = Ok ()" "c_seal C = Ok ()"
  shows "create_sealed_model C data = Some (Ok \<lparr>mf_bytes = data, mf_offset = 0, mf_sealed = True\<rparr>)"
proof -
  have "unat (word_of_nat (length data) :: u64) = length data" using assms(1) by (simp add: unat_of_nat)
  then show ?thesis
    using assms write_loop_progress [of data 0 "c_writes C" "\<lparr>mf_bytes = replicate (length data) nul, mf_offset = 0, mf_sealed = False\<rparr>"]
    by (simp add: create_sealed_model_def create_sealed_memfd_def)
qed

definition ex_calls :: "(errno, nat) result list \<Rightarrow> memfd_calls" where
  "ex_calls ws = \<lparr>c_create = Ok (), c_truncate = Ok (), c_writes = ws, c_seek = Ok (), c_seal = Ok ()\<rparr>"

theorem sealed_model_complete_witness:
  "create_sealed_model (ex_calls [Ok 1, Ok 2]) ''abc'' = Some (Ok \<lparr>mf_bytes = ''abc'', mf_offset = 0, mf_sealed = True\<rparr>)"
proof -
  have "length ''abc'' < 2 ^ 64" by simp
  moreover have "progress (length ''abc'') (c_writes (ex_calls [Ok 1, Ok 2]))" by code_simp
  ultimately show ?thesis by (rule sealed_model_complete) (simp_all add: ex_calls_def)
qed

text \<open>A write that accepts nothing ends the loop without an error, and the file is then sealed
  with zeros in place of the rest of the model.\<close>

lemma stalled_write_seals_partial_model:
  "create_sealed_model (ex_calls [Ok 1, Ok 0]) ''abc'' = Some (Ok \<lparr>mf_bytes = [CHR ''a'', nul, nul], mf_offset = 0, mf_sealed = True\<rparr>)"
  by code_simp

definition opt_fd :: "fd option \<Rightarrow> fd multiset" where
  "opt_fd k = (case k of Some x \<Rightarrow> {#x#} | None \<Rightarrow> {#})"

definition passed_fds :: "cmsg list \<Rightarrow> fd list" where
  "passed_fds ms = concat (map (\<lambda>m. case m of ScmRights xs \<Rightarrow> xs | OtherCmsg \<Rightarrow> []) ms)"

lemma keep_first_conserves: "keep_first xs kept = (r, shut) \<Longrightarrow> mset shut + opt_fd r = opt_fd kept + mset xs"
  by (induction xs kept arbitrary: r shut rule: keep_first.induct) (auto simp: opt_fd_def split: prod.splits)

lemma drain_fds_conserves: "drain_fds ms kept = (r, shut) \<Longrightarrow> mset shut + opt_fd r = opt_fd kept + mset (passed_fds ms)"
proof (induction ms kept arbitrary: r shut rule: drain_fds.induct)
  case (3 xs ms kept)
  obtain k1 c1 where k: "keep_first xs kept = (k1, c1)" by (cases "keep_first xs kept")
  obtain k2 c2 where d: "drain_fds ms k1 = (k2, c2)" by (cases "drain_fds ms k1")
  from 3 k d keep_first_conserves [OF k] show ?case by (auto simp: passed_fds_def ac_simps)
qed (auto simp: passed_fds_def)

text \<open>C38: no descriptor is leaked or closed twice. Every descriptor that arrives with a message is
  either handed to the caller or closed, exactly once; after an error all of them are closed,
  and a message that fills the buffer is such an error.\<close>

theorem received_descriptors_accounted:
  assumes "recv_fd_from_unix buf_len (Ok (n, ms)) = (r, shut)"
  shows "mset (passed_fds ms) = mset shut + (case r of Ok (_, k) \<Rightarrow> opt_fd k | Err _ \<Rightarrow> {#})
    \<and> (n = buf_len \<longleftrightarrow> (\<exists>e. r = Err e))"
proof -
  obtain kept cl where d: "drain_fds ms None = (kept, cl)" by (cases "drain_fds ms None")
  from drain_fds_conserves [OF d] assms d show ?thesis
    by (cases kept) (auto simp: recv_fd_from_unix_def Let_def opt_fd_def split: if_splits)
qed

theorem received_descriptors_accounted_witness:
  "mset [3, 4, 5] = mset (snd (recv_fd_from_unix 1024 (Ok (10, [ScmRights [3, 4], OtherCmsg, ScmRights [5]])))) + {#3#}"
proof -
  have "recv_fd_from_unix 1024 (Ok (10, [ScmRights [3, 4], OtherCmsg, ScmRights [5]])) = (Ok (10, Some 3), [4, 5])" by code_simp
  from received_descriptors_accounted [OF this] show ?thesis
    using \<open>recv_fd_from_unix _ _ = _\<close> by (simp add: passed_fds_def opt_fd_def)
qed

text \<open>Mapping a model either succeeds with the range excluded from core dumps, or fails; when it
  is the exclusion that fails, the error leaves the memory mapped.\<close>

lemma mapping_protected_or_leaked:
  assumes "map_and_protect_memfd M len = (r, calls)"
  shows "(\<forall>p. r = Ok p \<longrightarrow> mm_mmap M len = Ok p \<and> Madvise p len LinuxDontDump \<in> set calls)
    \<and> (\<forall>p e. mm_mmap M len = Ok p \<longrightarrow> mm_madvise M p len LinuxDontDump = Err e \<longrightarrow> r = Err (SystemCall e) \<and> Munmap p len \<notin> set calls)"
  using assms by (auto simp: map_and_protect_memfd_def advise_dontdump_def split: sum.splits)

end
