(* ===== verification/Fd_Server.thy ===== *)
theory Fd_Server
  imports Fd_Quota Paging Arbiter_Admission
begin

text \<open>
  The descriptor server (\<^verbatim>\<open>crates/inferenced-daemon/src/fd_server.rs\<close>): one framed request per
  connection, answered by a sealed memory file sent over the socket or by an error message.
  What the socket's reads, the quota and the system calls return are arguments; the result
  is the sequence of actions of the connection.
\<close>

section \<open>Requests\<close>

record fd_request =
  fr_action :: string
  fr_name :: "string option"
  fr_size :: "u64 option"

record fd_response =
  fs_status :: string
  fs_message :: "string option"

record fd_json =
  decode_fd_request :: "string \<Rightarrow> (string, fd_request) result"
  encode_fd_response :: "fd_response \<Rightarrow> string"

text \<open>
  The reads of \<open>read_framed_request\<close>, an empty read being the end of the stream. It has no
  value while the client keeps the connection open without completing a request.
\<close>

fun read_framed_request :: "fd_json \<Rightarrow> (string, string) result list \<Rightarrow> string \<Rightarrow> (string, fd_request option) result option" where
  "read_framed_request J [] scratch = None"
| "read_framed_request J (Err e # rs) scratch = Some (Err e)"
| "read_framed_request J (Ok chunk # rs) scratch =
     (if chunk = [] then Some (Ok None)
      else let scratch' = scratch @ chunk in
           case position (\<lambda>b. b = nul) scratch' of
             Some p \<Rightarrow> Some (map_sum (\<lambda>e. e) Some (decode_fd_request J (take p scratch')))
           | None \<Rightarrow>
               if 64 * 1024 < length scratch' then Some (Err ''FD request exceeded 64 KiB without NUL terminator'')
               else read_framed_request J rs scratch')"

section \<open>Connections\<close>

datatype fd_action =
    Reserve u64
  | Release u64
  | Respond fd_response
  | SendFd memfd string

definition fd_error :: "string \<Rightarrow> fd_response" where
  "fd_error msg = \<lparr>fs_status = ''error'', fs_message = Some msg\<rparr>"

definition frame_response :: "fd_json \<Rightarrow> fd_response \<Rightarrow> string" where
  "frame_response J r = encode_fd_response J r @ [nul]"

definition fd_created :: "string \<Rightarrow> u64 \<Rightarrow> fd_response" where
  "fd_created name size_bytes = \<lparr>fs_status = ''ok'',
     fs_message = Some (''Created sealed memfd '' @ CHR 0x27 # name @ CHR 0x27 # '' ('' @ show_nat (unat size_bytes) @ '' bytes)'')\<rparr>"

definition requested_name :: "fd_request \<Rightarrow> string" where
  "requested_name req = (case fr_name req of Some n \<Rightarrow> n | None \<Rightarrow> ''inferenced-shm'')"

definition requested_size :: "fd_request \<Rightarrow> u64" where
  "requested_size req = (case fr_size req of Some b \<Rightarrow> b | None \<Rightarrow> 4 * 1024 * 1024)"

definition handle_connection ::
  "text_lib \<Rightarrow> fd_json \<Rightarrow> (u64 \<Rightarrow> (u64, u64) result) \<Rightarrow> memfd_calls \<Rightarrow> bool \<Rightarrow> (errno, nat) result
   \<Rightarrow> fd_request \<Rightarrow> fd_action list option" where
  "handle_connection L J quota C pushed sent req =
     (if fr_action req \<noteq> ''create'' \<and> fr_action req \<noteq> ''lease''
      then Some [Respond (fd_error (''Unknown action '' @ CHR 0x27 # fr_action req @ CHR 0x27 # ''. Supported actions: ''
             @ CHR 0x27 # ''create'' @ CHR 0x27 # '', '' @ CHR 0x27 # ''lease'' @ [CHR 0x27]))]
      else
        let name = requested_name req; size_bytes = requested_size req in
           if MAX_MEMFD_BYTES < size_bytes
           then Some [Respond (fd_error (''Requested size '' @ show_nat (unat size_bytes) @ '' exceeds limit of ''
                  @ show_nat (unat MAX_MEMFD_BYTES) @ '' bytes''))]
           else (case quota size_bytes of
                   Err cur \<Rightarrow> Some [Reserve size_bytes,
                     Respond (fd_error (''Quota exceeded: '' @ show_nat (unat cur) @ '' bytes already allocated, request ''
                       @ show_nat (unat size_bytes) @ '' bytes''))]
                 | Ok reserved \<Rightarrow>
                     (case create_sealed_memfd C size_bytes None of
                        None \<Rightarrow> None
                      | Some (Err e) \<Rightarrow> Some [Reserve size_bytes, Release reserved,
                          Respond (fd_error (''Failed to create sealed memfd: '' @ error_to_string L e))]
                      | Some (Ok m) \<Rightarrow>
                          (case send_fd_over_unix pushed sent of
                             Ok _ \<Rightarrow> Some [Reserve size_bytes, SendFd m (encode_fd_response J (fd_created name size_bytes)), Release reserved]
                           | Err _ \<Rightarrow> Some [Reserve size_bytes, Release reserved]))))"

section \<open>Properties\<close>

definition split_chunks :: "string \<Rightarrow> string list \<Rightarrow> bool" where
  "split_chunks s cs \<longleftrightarrow> concat cs = s \<and> [] \<notin> set cs"

lemma position_nul: "nul \<notin> set p \<Longrightarrow> position (\<lambda>b. b = nul) (p @ nul # r) = Some (length p)"
  by (induction p) auto

lemma read_framed_chunks:
  assumes "concat cs = q @ nul # rest" and "[] \<notin> set cs" and "nul \<notin> set scratch" and "nul \<notin> set q"
    and "length scratch + length q \<le> 64 * 1024"
  shows "read_framed_request J (map Ok cs @ rs) scratch = Some (map_sum (\<lambda>e. e) Some (decode_fd_request J (scratch @ q)))"
  using assms
proof (induction cs arbitrary: scratch q)
  case (Cons c cs)
  have c: "c \<noteq> []" using Cons.prems(2) by auto
  show ?case
  proof (cases "length c \<le> length q")
    case True
    then have q: "q = c @ drop (length c) q" and rest: "concat cs = drop (length c) q @ nul # rest"
      using Cons.prems(1) by (auto simp: append_eq_append_conv_if) (metis append_take_drop_id)
    have no: "nul \<notin> set (scratch @ c)" "nul \<notin> set (drop (length c) q)"
      using Cons.prems(3,4) q by (auto dest: in_set_dropD) (metis Un_iff set_append)
    have len: "length (scratch @ c) + length (drop (length c) q) \<le> 64 * 1024" using Cons.prems(5) True by simp
    have pos: "position (\<lambda>b. b = nul) (scratch @ c) = None" unfolding position_None_iff using no(1) by blast
    from Cons.IH [OF rest _ no len] Cons.prems(2)
    have "read_framed_request J (map Ok cs @ rs) (scratch @ c)
        = Some (map_sum (\<lambda>e. e) Some (decode_fd_request J ((scratch @ c) @ drop (length c) q)))" by simp
    moreover have "(scratch @ c) @ drop (length c) q = scratch @ q" using q by simp
    ultimately show ?thesis using c pos len by simp
  next
    case False
    then have q: "q = take (length q) c" "nul # rest = drop (length q) c @ concat cs"
      using Cons.prems(1) by (simp_all add: append_eq_append_conv_if split: if_splits)
    moreover obtain x r where x: "drop (length q) c = x # r" using False by (cases "drop (length q) c") auto
    ultimately have r: "c = q @ nul # r" by (metis append_Cons append_take_drop_id list.inject)
    have "position (\<lambda>b. b = nul) (scratch @ c) = Some (length (scratch @ q))"
      using position_nul [of "scratch @ q" r] Cons.prems(3,4) r by simp
    then show ?thesis using c r by simp
  qed
qed simp


definition ex_fd_json :: fd_json where
  "ex_fd_json = \<lparr>decode_fd_request = (\<lambda>s. if s = ''go'' then Ok \<lparr>fr_action = ''create'', fr_name = None, fr_size = Some 700\<rparr> else Err ''bad''),
     encode_fd_response = fs_status\<rparr>"


text \<open>A client that never terminates its request is cut off: what is buffered stays within the limit and one read.\<close>

lemma unterminated_refused:
  assumes "nul \<notin> set (concat cs)" and "[] \<notin> set cs" and "nul \<notin> set scratch" and "64 * 1024 < length scratch + length (concat cs)"
    and "length scratch \<le> 64 * 1024"
  shows "read_framed_request J (map Ok cs) scratch = Some (Err ''FD request exceeded 64 KiB without NUL terminator'')"
  using assms
proof (induction cs arbitrary: scratch)
  case (Cons c cs)
  have pos: "position (\<lambda>b. b = nul) (scratch @ c) = None" unfolding position_None_iff using Cons.prems by auto
  show ?case
  proof (cases "64 * 1024 < length (scratch @ c)")
    case True
    then show ?thesis using pos Cons.prems by auto
  next
    case False
    then show ?thesis using pos Cons.prems Cons.IH [of "scratch @ c"] by auto
  qed
qed simp

fun quota_calls :: "fd_action list \<Rightarrow> fd_action list" where
  "quota_calls [] = []"
| "quota_calls (Reserve b # as) = Reserve b # quota_calls as"
| "quota_calls (Release b # as) = Release b # quota_calls as"
| "quota_calls (_ # as) = quota_calls as"



end
