(* ===== verification/Daemon.thy ===== *)
theory Daemon
  imports Varlink_Conn Gateway Sentry Inhibit Activation Notify Netlink Topology_Props Fd_Server
begin

text \<open>
  The daemon (\<^verbatim>\<open>crates/inferenced-daemon/src/main.rs\<close>): its start, the background tasks for
  device events and the watchdog, its end, and the system that its servers form together.
\<close>

section \<open>Start\<close>

record cli =
  cli_bind :: "string option"
  cli_gateway_socket :: string
  cli_varlink_socket :: string
  cli_sentry_socket :: string
  cli_fd_socket :: string

definition default_cli :: cli where
  "default_cli = \<lparr>cli_bind = None, cli_gateway_socket = ''/run/syntrop/gateway.sock'',
     cli_varlink_socket = ''/run/syntrop/io.syntrop.Inference1'', cli_sentry_socket = ''/run/syntrop/sentry.sock'',
     cli_fd_socket = ''/run/syntrop/fd.sock''\<rparr>"

datatype listener = Adopted int | BoundUnix string | BoundTcp string

datatype start_action = Listening slot listener | Ready "(notify_addr \<times> string) list"

record start_calls =
  s_socks :: sock_calls
  s_bind_unix :: "string \<Rightarrow> bool" \<comment> \<open>a listener can be bound to the path\<close>
  s_bind_tcp :: "string \<Rightarrow> bool"
  s_notify :: notify_calls

definition adopt_or_bind :: "(string \<Rightarrow> bool) \<Rightarrow> int option \<Rightarrow> string \<Rightarrow> listener option" where
  "adopt_or_bind bind o1 path = (case o1 of Some d \<Rightarrow> Some (Adopted d) | None \<Rightarrow> if bind path then Some (BoundUnix path) else None)"

definition gateway_listen :: "start_calls \<Rightarrow> cli \<Rightarrow> activated_sockets \<Rightarrow> listener option" where
  "gateway_listen S c a =
     (case a_gateway a of
        Some g \<Rightarrow> Some (Adopted (gateway_fd g))
      | None \<Rightarrow>
          (case cli_bind c of
             Some addr \<Rightarrow> if s_bind_tcp S addr then Some (BoundTcp addr) else None
           | None \<Rightarrow> if s_bind_unix S (cli_gateway_socket c) then Some (BoundUnix (cli_gateway_socket c)) else None))"

definition gateway_token :: "os \<Rightarrow> string option" where
  "gateway_token h =
     (case resolve_secret h ''INFERENCED_API_TOKEN'' ''gateway_api_token'' of
        Some t \<Rightarrow> Some t
      | None \<Rightarrow> load_credential h ''api_token'')"

record daemon =
  d_arbiter :: arbiter_state
  d_token :: "string option"

text \<open>
  \<open>main\<close> up to serving: the daemon, if nothing failed, and what it did in order. The first
  failure ends the start.
\<close>

definition daemon_start :: "start_calls \<Rightarrow> os \<Rightarrow> u32 \<Rightarrow> cli \<Rightarrow> daemon option \<times> start_action list" where
  "daemon_start S h own_pid c =
     (case check_and_adopt_sockets (s_socks S) h own_pid of
        None \<Rightarrow> (None, [])
      | Some (a, _) \<Rightarrow>
          (case adopt_or_bind (s_bind_unix S) (a_varlink a) (cli_varlink_socket c) of
             None \<Rightarrow> (None, [])
           | Some l1 \<Rightarrow>
               (case adopt_or_bind (s_bind_unix S) (a_sentry a) (cli_sentry_socket c) of
                  None \<Rightarrow> (None, [Listening SlotVarlink l1])
                | Some l2 \<Rightarrow>
                    (case adopt_or_bind (s_bind_unix S) (a_fd_server a) (cli_fd_socket c) of
                       None \<Rightarrow> (None, [Listening SlotVarlink l1, Listening SlotSentry l2])
                     | Some l3 \<Rightarrow>
                         (case gateway_listen S c a of
                            None \<Rightarrow> (None, [Listening SlotVarlink l1, Listening SlotSentry l2, Listening SlotFd l3])
                          | Some l4 \<Rightarrow>
                              (Some \<lparr>d_arbiter = new_arbiter (discover h), d_token = gateway_token h\<rparr>,
                               [Listening SlotVarlink l1, Listening SlotSentry l2, Listening SlotFd l3, Listening SlotGateway l4,
                                Ready (notify_systemd_ready (s_notify S) h)]))))))"

section \<open>Background tasks\<close>

text \<open>A message on the device event socket, read when the host is \<open>h\<close>.\<close>

definition hotplug_event :: "os \<Rightarrow> (string, string) result \<Rightarrow> arbiter_state \<Rightarrow> arbiter_state" where
  "hotplug_event h msg st =
     (case msg of
        Err _ \<Rightarrow> st
      | Ok buf \<Rightarrow>
          (case parse_uevent buf of
             Some u \<Rightarrow> if is_compute_device u then refresh_topology h st else st
           | None \<Rightarrow> st))"

definition watchdog_tick :: "notify_calls \<Rightarrow> os \<Rightarrow> bool \<Rightarrow> inhibitor \<Rightarrow> (notify_addr \<times> string) list" where
  "watchdog_tick K h healthy m =
     (if healthy
      then notify_systemd_watchdog K h @
        (if i_inhibited m
         then notify_systemd_status K h (''Active AI leases executing ('' @ show_nat (unat (active_lease_count m)) @ '', sleep/idle inhibited)'')
         else [])
      else [])"

section \<open>End\<close>

datatype daemon_signal = SigInt | SigTerm | SigCont

datatype sleep_action = Quiesce nat | Resume

text \<open>The shutdown future: resumes are logged until a termination signal arrives, which it returns on.\<close>

fun shutdown_signal :: "arbiter_state \<Rightarrow> daemon_signal list \<Rightarrow> sleep_action list \<times> bool" where
  "shutdown_signal st [] = ([], False)"
| "shutdown_signal st (SigCont # ss) = (let (as, fin) = shutdown_signal st ss in (Resume # as, fin))"
| "shutdown_signal st (s # ss) = ([Quiesce (length (list_models st))], True)"

definition daemon_stop :: "notify_calls \<Rightarrow> os \<Rightarrow> arbiter_state \<Rightarrow> sleep_action list \<times> (notify_addr \<times> string) list" where
  "daemon_stop K h st = ([Quiesce (length (list_models st))], notify_systemd_stopping K h)"

section \<open>The running daemon\<close>

text \<open>
  What the tasks of the daemon do to the arbiter, one access at a time: a Varlink call, the
  reclaiming of a lease or the end of a handler, the leases taken by the gateway and by the
  triage server, and a device event. New identifiers are not in the table, and a host
  lists no directory entry twice.
\<close>

inductive daemon_step :: "text_lib \<Rightarrow> json_lib \<Rightarrow> arbiter_state \<Rightarrow> arbiter_state \<Rightarrow> bool" for L J where
  varlink: "hm_get (leases st) (e_id E) = None \<Longrightarrow> call L J E m params peer st active = (r, outp, st', active', fx) \<Longrightarrow> daemon_step L J st st'"
| release: "daemon_step L J st (snd (release_lease L i st))"
| gateway: "hm_get (leases st) (e_id E) = None \<Longrightarrow> gateway_lease E client model st = (r, st', fx) \<Longrightarrow> daemon_step L J st st'"
| sentry: "hm_get (leases st) (e_id (E :: env)) = None
    \<Longrightarrow> acquire_lease (e_psi E) (e_id E) (e_now E) EmergencyTriage (1024 * 1024 * 1024) None (Some unit) None st = (r, st', fx)
    \<Longrightarrow> daemon_step L J st st'"
| hotplug: "fs_sound h \<Longrightarrow> daemon_step L J st (hotplug_event h msg st)"
| rehash: "hm_reorder (leases st) ls \<Longrightarrow> daemon_step L J st (st\<lparr>leases := ls\<rparr>)"

lemma op_run: "op_ok opn st \<Longrightarrow> (arbiter_step L)\<^sup>*\<^sup>* st (exec_op L opn st)"
  using guarded_step.op [of opn st "\<lambda>_ _. True" L] by simp

lemma hotplug_run:
  assumes "fs_sound h"
  shows "(arbiter_step L)\<^sup>*\<^sup>* st (hotplug_event h msg st)"
proof -
  have "hotplug_event h msg st = st \<or> hotplug_event h msg st = exec_op L (OpUpdateTopology (discover h)) st"
    by (auto simp: hotplug_event_def refresh_topology_def split: sum.splits option.splits)
  then show ?thesis using op_run [of "OpUpdateTopology (discover h)" st L] discover_well_formed [OF assms] by auto
qed

lemma daemon_step_run:
  assumes "daemon_step L J st st'"
  shows "(arbiter_step L)\<^sup>*\<^sup>* st st'"
  using assms
proof (cases rule: daemon_step.cases)
  case (varlink E m params peer active r outp active' fx)
  then have "call_effect L E st active st' active'" using call_has_effect [where L = L and J = J and E = E and m = m and params = params and peer = peer and st = st and active = active] by (simp add: result_effect_def)
  then show ?thesis using op_run by (auto simp: call_effect_def)
next
  case (release i)
  then show ?thesis using op_run [of "OpRelease i" st L] by simp
next
  case (gateway E client model r fx)
  then show ?thesis
    using op_run [of "OpAcquire (e_psi E) (e_id E) (e_now E) Interactive (memory_needed model st) None (Some client) None" st L]
    by (simp add: gateway_lease_def)
next
  case (sentry E u r fx)
  then show ?thesis
    using op_run [of "OpAcquire (e_psi E) (e_id E) (e_now E) EmergencyTriage (1024 * 1024 * 1024) None (Some u) None" st L] by simp
next
  case (hotplug h msg)
  then show ?thesis using hotplug_run by simp
next
  case (rehash ls)
  then show ?thesis using guarded_step.rehash [of st ls "\<lambda>_ _. True" L] by simp
qed

interpretation running: simulation "daemon_step L J" arbiter_inv "(arbiter_step L)\<^sup>*\<^sup>*" "\<lambda>st. st" for L J
proof
  fix s t
  show "arbiter_inv s \<Longrightarrow> daemon_step L J s t \<Longrightarrow> arbiter_inv t" using daemon_step_run arb.steps_inv by blast
  show "arbiter_inv s \<Longrightarrow> daemon_step L J s t \<Longrightarrow> t = s \<or> (arbiter_step L)\<^sup>*\<^sup>* s t" using daemon_step_run by blast
qed

lemma start_topology: "daemon_start S h own_pid c = (Some d, acts) \<Longrightarrow> d_arbiter d = new_arbiter (discover h)"
  by (auto simp: daemon_start_def split: option.splits)

section \<open>Properties\<close>

text \<open>C24: the daemon announces that it is ready only when it is. Whatever sockets it was given and
  whatever can be bound, a readiness message is the last action of the start and follows the
  listeners of all four servers, one each; a start that fails never announces it.\<close>

theorem ready_means_listening:
  assumes "daemon_start S h own_pid c = (r, acts)" and "Ready msgs \<in> set acts"
  shows "r \<noteq> None \<and> (\<exists>l1 l2 l3 l4. acts = [Listening SlotVarlink l1, Listening SlotSentry l2, Listening SlotFd l3,
      Listening SlotGateway l4, Ready msgs])"
  using assms by (auto simp: daemon_start_def split: option.splits)

definition ex_start :: start_calls where
  "ex_start = \<lparr>s_socks = ex_socks, s_bind_unix = (\<lambda>_. True), s_bind_tcp = (\<lambda>_. True), s_notify = ex_notify\<rparr>"

theorem ready_means_listening_witness: "fst (daemon_start ex_start empty_os 7 default_cli) \<noteq> None"
proof -
  let ?r = "daemon_start ex_start empty_os 7 default_cli"
  have "\<not> is_socket_activated empty_os 7" by (simp add: is_socket_activated_def empty_os_def)
  then have "Ready [] \<in> set (snd ?r)"
    by (simp add: daemon_start_def check_and_adopt_sockets_def no_sockets_def adopt_or_bind_def gateway_listen_def
      ex_start_def default_cli_def notify_systemd_ready_def send_notification_def empty_os_def ready_message_def NOTIFY_MAX_def)
  from ready_means_listening [OF prod.collapse [symmetric] this] show ?thesis by blast
qed

end
