(* ===== verification/Sockets.thy ===== *)
theory Sockets
  imports Daemon "HOL-Library.Sublist"
begin

text \<open>
  Binding and serving sockets: the functions that bind a listener to a path
  (\<^verbatim>\<open>varlink/mod.rs\<close>, \<^verbatim>\<open>fd_server.rs\<close>, \<^verbatim>\<open>sentry/mod.rs\<close>, \<^verbatim>\<open>activation.rs\<close>), the loops that
  accept connections, and the socket for device events (\<^verbatim>\<open>netlink.rs\<close>). Paths are lists of
  their components below the root; the file system is a partial function on them.
\<close>

section \<open>File system\<close>

type_synonym path = "string list"

datatype node = Dir | Regular | Socket nat nat \<comment> \<open>the listener bound to it and its mode\<close>

type_synonym tree = "path \<Rightarrow> node option"

datatype io_error = NotFound | NotADirectory | AddrInUse | PermissionDenied

text \<open>\<open>may p\<close>: entries of the directory \<open>p\<close> may be created and removed.\<close>

text \<open>\<open>fs::create_dir_all\<close>, on the reversed path: missing ancestors are made first.\<close>

fun make_dirs :: "(path \<Rightarrow> bool) \<Rightarrow> tree \<Rightarrow> path \<Rightarrow> (io_error, tree) result" where
  "make_dirs may t [] = Ok t"
| "make_dirs may t (c # rp) =
     (case t (rev (c # rp)) of
        Some Dir \<Rightarrow> Ok t
      | Some _ \<Rightarrow> Err NotADirectory
      | None \<Rightarrow>
          (case make_dirs may t rp of
             Err e \<Rightarrow> Err e
           | Ok t' \<Rightarrow> if may (rev rp) then Ok (t'(rev (c # rp) \<mapsto> Dir)) else Err PermissionDenied))"

definition create_dir_all :: "(path \<Rightarrow> bool) \<Rightarrow> tree \<Rightarrow> path \<Rightarrow> (io_error, tree) result" where
  "create_dir_all may t p = make_dirs may t (rev p)"

text \<open>\<open>fs::remove_file\<close> with its result ignored: directories and protected entries stay.\<close>

definition remove_file :: "(path \<Rightarrow> bool) \<Rightarrow> tree \<Rightarrow> path \<Rightarrow> tree" where
  "remove_file may t p =
     (if may (butlast p) \<and> t p \<noteq> None \<and> t p \<noteq> Some Dir then t(p := None) else t)"

definition is_directory :: "tree \<Rightarrow> path \<Rightarrow> bool" where
  "is_directory t p \<longleftrightarrow> p = [] \<or> t p = Some Dir"

text \<open>\<open>UnixListener::bind\<close>: the kernel makes a socket of the default mode at a free path.\<close>

definition unix_bind :: "(path \<Rightarrow> bool) \<Rightarrow> nat \<Rightarrow> nat \<Rightarrow> tree \<Rightarrow> path \<Rightarrow> (io_error, tree) result" where
  "unix_bind may i mode t p =
     (if p = [] \<or> t p \<noteq> None then Err AddrInUse
      else if t (butlast p) = None \<and> butlast p \<noteq> [] then Err NotFound
      else if \<not> is_directory t (butlast p) then Err NotADirectory
      else if \<not> may (butlast p) then Err PermissionDenied
      else Ok (t(p \<mapsto> Socket i mode)))"

section \<open>Binding\<close>

text \<open>\<open>Path::parent\<close> is absent for the root only.\<close>

definition make_parent :: "(path \<Rightarrow> bool) \<Rightarrow> tree \<Rightarrow> path \<Rightarrow> (io_error, tree) result" where
  "make_parent may t p = (if p = [] then Ok t else create_dir_all may t (butlast p))"

definition clear_path :: "(path \<Rightarrow> bool) \<Rightarrow> tree \<Rightarrow> path \<Rightarrow> tree" where
  "clear_path may t p = (if t p \<noteq> None then remove_file may t p else t)"

definition bind_or_create_listener :: "(path \<Rightarrow> bool) \<Rightarrow> nat \<Rightarrow> nat \<Rightarrow> tree \<Rightarrow> path \<Rightarrow> (io_error, tree) result" where
  "bind_or_create_listener may i umode t p =
     (case make_parent may t p of
        Err e \<Rightarrow> Err e
      | Ok t1 \<Rightarrow> unix_bind may i umode (clear_path may t1 p) p)"

definition bind_or_create_fd_listener :: "(path \<Rightarrow> bool) \<Rightarrow> nat \<Rightarrow> nat \<Rightarrow> tree \<Rightarrow> path \<Rightarrow> (io_error, tree) result" where
  "bind_or_create_fd_listener may i umode t p =
     (case make_parent may t p of
        Err e \<Rightarrow> Err e
      | Ok t1 \<Rightarrow> unix_bind may i umode (clear_path may t1 p) p)"

text \<open>The triage server clears the path before it makes the directory.\<close>

definition bind_or_create_sentry_listener :: "(path \<Rightarrow> bool) \<Rightarrow> nat \<Rightarrow> nat \<Rightarrow> tree \<Rightarrow> path \<Rightarrow> (io_error, tree) result" where
  "bind_or_create_sentry_listener may i umode t p =
     (case make_parent may (clear_path may t p) p of
        Err e \<Rightarrow> Err e
      | Ok t1 \<Rightarrow> unix_bind may i umode t1 p)"

text \<open>\<open>set_permissions(path, 0o660)\<close>, whose result is ignored; \<open>chmod\<close> tells whether it succeeds.\<close>

definition bind_standalone_unix :: "(path \<Rightarrow> bool) \<Rightarrow> bool \<Rightarrow> nat \<Rightarrow> nat \<Rightarrow> tree \<Rightarrow> path \<Rightarrow> (io_error, tree) result" where
  "bind_standalone_unix may chmod i umode t p =
     (case make_parent may t p of
        Err e \<Rightarrow> Err e
      | Ok t1 \<Rightarrow>
          (case unix_bind may i umode (clear_path may t1 p) p of
             Err e \<Rightarrow> Err e
           | Ok t2 \<Rightarrow> Ok (if chmod then t2(p \<mapsto> Socket i 432) else t2)))"

text \<open>
  The servers in the order in which \<open>main\<close> binds them when no socket was passed to it and no
  address was given for the gateway.
\<close>

definition bind_servers :: "(path \<Rightarrow> bool) \<Rightarrow> bool \<Rightarrow> nat \<Rightarrow> cli \<Rightarrow> tree \<Rightarrow> (io_error, tree) result" where
  "bind_servers may chmod umode c t =
     (case bind_or_create_listener may 0 umode t (path_components (cli_varlink_socket c)) of
        Err e \<Rightarrow> Err e
      | Ok t1 \<Rightarrow>
          (case bind_or_create_sentry_listener may 1 umode t1 (path_components (cli_sentry_socket c)) of
             Err e \<Rightarrow> Err e
           | Ok t2 \<Rightarrow>
               (case bind_or_create_fd_listener may 2 umode t2 (path_components (cli_fd_socket c)) of
                  Err e \<Rightarrow> Err e
                | Ok t3 \<Rightarrow> bind_standalone_unix may chmod 3 umode t3 (path_components (cli_gateway_socket c)))))"

section \<open>Accept loops\<close>

text \<open>
  The results of \<open>accept\<close> in order. A loop returns the connections it has served, each in a
  task of its own, and how it ended; \<open>None\<close> means that it still waits for the next one.
\<close>

type_synonym 'c accepts = "(string, 'c) result list"

fun run_varlink_listener :: "'c accepts \<Rightarrow> 'c list \<times> (string, unit) result option" where
  "run_varlink_listener [] = ([], None)"
| "run_varlink_listener (Err e # as) = ([], Some (Err e))"
| "run_varlink_listener (Ok c # as) = (let (cs, r) = run_varlink_listener as in (c # cs, r))"

fun run_fd_server_with_quota :: "'c accepts \<Rightarrow> 'c list \<times> (string, unit) result option" where
  "run_fd_server_with_quota [] = ([], None)"
| "run_fd_server_with_quota (Err e # as) = ([], Some (Err e))"
| "run_fd_server_with_quota (Ok c # as) = (let (cs, r) = run_fd_server_with_quota as in (c # cs, r))"

definition run_fd_server :: "os \<Rightarrow> 'c accepts \<Rightarrow> fd_quota \<times> 'c list \<times> (string, unit) result option" where
  "run_fd_server h as = (from_half_of_total_ram h, run_fd_server_with_quota as)"

fun run_sentry_triage_listener :: "'c accepts \<Rightarrow> 'c list \<times> (string, unit) result option" where
  "run_sentry_triage_listener [] = ([], None)"
| "run_sentry_triage_listener (Err e # as) = run_sentry_triage_listener as"
| "run_sentry_triage_listener (Ok c # as) = (let (cs, r) = run_sentry_triage_listener as in (c # cs, r))"

datatype 'c gateway_event = Shutdown | Incoming "(string, 'c) result"

fun serve_unix_gateway :: "'c gateway_event list \<Rightarrow> 'c list \<times> (string, unit) result option" where
  "serve_unix_gateway [] = ([], None)"
| "serve_unix_gateway (Shutdown # es) = ([], Some (Ok ()))"
| "serve_unix_gateway (Incoming (Err e) # es) = ([], Some (Err e))"
| "serve_unix_gateway (Incoming (Ok c) # es) = (let (cs, r) = serve_unix_gateway es in (c # cs, r))"

text \<open>On a TCP socket the HTTP library serves until the shutdown; how that ends is an argument.\<close>

definition serve_gateway ::
  "('c gateway_event list \<Rightarrow> 'c list \<times> (string, unit) result option) \<Rightarrow> gateway_listener \<Rightarrow> 'c gateway_event list
     \<Rightarrow> 'c list \<times> (string, unit) result option" where
  "serve_gateway axum_serve l es = (case l of Tcp _ \<Rightarrow> axum_serve es | Unix _ \<Rightarrow> serve_unix_gateway es)"

section \<open>The socket for device events\<close>

datatype netlink_call = NetlinkSocket | NetlinkBind int u32 | CloseFd int

text \<open>
  The kernel's answers are arguments: a descriptor or an error, and for the call of \<open>bind\<close>, to
  multicast group 1, its return value. A failed bind drops the owned descriptor, which closes it.
\<close>

definition open_uevent_socket ::
  "(string, int) result \<Rightarrow> (int \<Rightarrow> int) \<Rightarrow> string \<Rightarrow> (error, int) result \<times> netlink_call list" where
  "open_uevent_socket sock bind_res os_error =
     (case sock of
        Err e \<Rightarrow> (Err (SystemdError (''Failed to create AF_NETLINK socket: '' @ e)), [NetlinkSocket])
      | Ok fd \<Rightarrow>
          if bind_res fd < 0
          then (Err (SystemdError (''Failed to bind netlink socket to group 1: '' @ os_error)), [NetlinkSocket, NetlinkBind fd 1, CloseFd fd])
          else (Ok fd, [NetlinkSocket, NetlinkBind fd 1]))"

section \<open>Lemmas on binding\<close>

definition tree_ok :: "tree \<Rightarrow> bool" where
  "tree_ok t \<longleftrightarrow> (\<forall>p c. t (p @ [c]) \<noteq> None \<longrightarrow> is_directory t p)"

text \<open>What making directories may change: free proper prefixes of the path become directories.\<close>

definition grows_dirs :: "path \<Rightarrow> tree \<Rightarrow> tree \<Rightarrow> bool" where
  "grows_dirs d t t' \<longleftrightarrow> (\<forall>q. t' q = t q \<or> (t q = None \<and> t' q = Some Dir \<and> q \<noteq> [] \<and> prefix q d))"

lemma grows_dirs_refl [simp]: "grows_dirs d t t"
  by (simp add: grows_dirs_def)

lemma make_dirs_Ok:
  "make_dirs may t rp = Ok t' \<Longrightarrow> tree_ok t \<Longrightarrow> grows_dirs (rev rp) t t' \<and> is_directory t' (rev rp) \<and> tree_ok t'"
proof (induction rp arbitrary: t')
  case (Cons c rp)
  show ?case
  proof (cases "t (rev (c # rp))")
    case None
    with Cons.prems(1) obtain t1 where t1: "make_dirs may t rp = Ok t1" and t': "t' = t1(rev (c # rp) \<mapsto> Dir)"
      by (auto split: sum.splits if_splits)
    note IH = Cons.IH [OF t1 Cons.prems(2)]
    have "grows_dirs (rev (c # rp)) t t'"
      using IH None unfolding grows_dirs_def t' by (auto simp: prefix_append)
    moreover have "tree_ok t'"
      using IH unfolding tree_ok_def t' is_directory_def by auto
    moreover have "is_directory t' (rev (c # rp))" by (simp add: t' is_directory_def)
    ultimately show ?thesis by blast
  next
    case (Some n)
    with Cons.prems show ?thesis by (cases n) (auto simp: is_directory_def)
  qed
qed (simp add: is_directory_def)

text \<open>Directories can be made along a path that no other file blocks.\<close>

definition unblocked :: "tree \<Rightarrow> path \<Rightarrow> bool" where
  "unblocked t d \<longleftrightarrow> (\<forall>q. prefix q d \<longrightarrow> q \<noteq> [] \<longrightarrow> t q = None \<or> t q = Some Dir)"

lemma make_dirs_total:
  "unblocked t (rev rp) \<Longrightarrow> \<forall>q. prefix q (rev rp) \<longrightarrow> may q \<Longrightarrow> \<exists>t'. make_dirs may t rp = Ok t'"
proof (induction rp)
  case (Cons c rp)
  have "unblocked t (rev rp)" using Cons.prems(1) by (simp add: unblocked_def prefix_append)
  moreover have "\<forall>q. prefix q (rev rp) \<longrightarrow> may q" and mp: "may (rev rp)" using Cons.prems(2) by (simp_all add: prefix_append)
  ultimately obtain t1 where "make_dirs may t rp = Ok t1" using Cons.IH by blast
  moreover have "t (rev (c # rp)) = None \<or> t (rev (c # rp)) = Some Dir"
    using Cons.prems(1) unfolding unblocked_def by (metis prefix_order.refl rev.simps(2) snoc_eq_iff_butlast)
  ultimately show ?case using mp by auto
qed simp

lemma make_dirs_cong:
  "(\<And>q. prefix q (rev rp) \<Longrightarrow> t q = u q) \<Longrightarrow> p \<noteq> [] \<Longrightarrow> \<not> prefix p (rev rp) \<Longrightarrow> u = t(p := x) \<Longrightarrow>
     make_dirs may u rp = map_sum (\<lambda>e. e) (\<lambda>t'. t'(p := x)) (make_dirs may t rp)"
proof (induction rp)
  case (Cons c rp)
  have "t (rev (c # rp)) = u (rev (c # rp))" using Cons.prems(1) by blast
  moreover have "make_dirs may u rp = map_sum (\<lambda>e. e) (\<lambda>t'. t'(p := x)) (make_dirs may t rp)"
    using Cons.prems by (intro Cons.IH) (auto simp: prefix_append)
  moreover have "p \<noteq> rev (c # rp)" using Cons.prems(3) by auto
  ultimately show ?case using Cons.prems(4)
    by (auto simp: fun_upd_twist split: option.splits node.splits sum.splits)
qed simp

lemma make_dirs_elsewhere: "make_dirs may t rp = Ok t' \<Longrightarrow> \<not> prefix p (rev rp) \<Longrightarrow> t' p = t p"
proof (induction rp arbitrary: t')
  case (Cons c rp)
  then have "\<not> prefix p (rev rp)" and "p \<noteq> rev (c # rp)" by (auto simp: prefix_append)
  with Cons show ?case by (auto split: option.splits node.splits sum.splits if_splits)
qed simp

lemma not_prefix_butlast: "p \<noteq> [] \<Longrightarrow> \<not> prefix p (butlast p)"
  using prefix_length_le [of p "butlast p"] by (cases p) auto

text \<open>The two orders of clearing the path and making its directory come to the same.\<close>

lemma sentry_bind_eq: "bind_or_create_sentry_listener = bind_or_create_listener"
proof (intro ext)
  fix may i umode t p
  show "bind_or_create_sentry_listener may i umode t p = bind_or_create_listener may i umode t p"
  proof (cases "p = [] \<or> clear_path may t p = t")
    case True
    then show ?thesis
    proof
      assume same: "clear_path may t p = t"
      have "clear_path may t1 p = t1" if "make_parent may t p = Ok t1" "p \<noteq> []" for t1
      proof -
        have "t1 p = t p"
          using that make_dirs_elsewhere [of may t "rev (butlast p)" t1 p] not_prefix_butlast [of p]
          by (simp add: make_parent_def create_dir_all_def)
        with same show ?thesis by (auto simp: clear_path_def remove_file_def fun_upd_idem_iff split: if_splits)
      qed
      with same show ?thesis
        by (cases "p = []") (auto simp: bind_or_create_sentry_listener_def bind_or_create_listener_def make_parent_def split: sum.splits)
    qed (simp add: bind_or_create_sentry_listener_def bind_or_create_listener_def make_parent_def unix_bind_def)
  next
    case False
    then have p: "p \<noteq> []" and cl: "clear_path may t p = t(p := None)" and rm: "may (butlast p)" "t p \<noteq> None" "t p \<noteq> Some Dir"
      by (auto simp: clear_path_def remove_file_def split: if_splits)
    have "make_dirs may (t(p := None)) (rev (butlast p)) = map_sum (\<lambda>e. e) (\<lambda>t'. t'(p := None)) (make_dirs may t (rev (butlast p)))"
      using p not_prefix_butlast [OF p] by (intro make_dirs_cong) auto
    moreover have "clear_path may t1 p = t1(p := None)" if "make_dirs may t (rev (butlast p)) = Ok t1" for t1
      using that make_dirs_elsewhere [OF that, of p] not_prefix_butlast [OF p] rm by (simp add: clear_path_def remove_file_def)
    ultimately show ?thesis
      by (auto simp: bind_or_create_sentry_listener_def bind_or_create_listener_def make_parent_def create_dir_all_def p cl split: sum.splits)
  qed
qed

lemma fd_bind_eq: "bind_or_create_fd_listener = bind_or_create_listener"
  by (intro ext) (simp add: bind_or_create_fd_listener_def bind_or_create_listener_def)

definition owned :: "tree \<Rightarrow> path \<Rightarrow> nat \<Rightarrow> bool" where
  "owned t p i = (case t p of Some (Socket j _) \<Rightarrow> j = i | _ \<Rightarrow> False)"

lemma bind_Ok:
  assumes "bind_or_create_listener may i umode t p = Ok t'" and "tree_ok t"
  shows "t' p = Some (Socket i umode)" and "tree_ok t'"
    and "q \<noteq> p \<Longrightarrow> t' q = t q \<or> (t q = None \<and> t' q = Some Dir \<and> strict_prefix q p)"
proof -
  from assms(1) obtain t1 where t1: "make_parent may t p = Ok t1" and b: "unix_bind may i umode (clear_path may t1 p) p = Ok t'"
    by (auto simp: bind_or_create_listener_def split: sum.splits)
  have p: "p \<noteq> []" and t': "t' = (clear_path may t1 p)(p \<mapsto> Socket i umode)" and par: "is_directory (clear_path may t1 p) (butlast p)"
    using b by (auto simp: unix_bind_def split: if_splits)
  have g: "grows_dirs (butlast p) t t1" and ok1: "tree_ok t1"
    using make_dirs_Ok [of may t "rev (butlast p)" t1] t1 p assms(2) by (simp_all add: make_parent_def create_dir_all_def)
  show "t' p = Some (Socket i umode)" by (simp add: t')
  have other: "t' q = t1 q" if "q \<noteq> p" for q using that by (auto simp: t' clear_path_def remove_file_def)
  show "t' q = t q \<or> (t q = None \<and> t' q = Some Dir \<and> strict_prefix q p)" if "q \<noteq> p"
  proof -
    have "strict_prefix q p" if "prefix q (butlast p)" using that p \<open>q \<noteq> p\<close>
      by (metis append_butlast_last_id prefixI prefix_order.trans strict_prefix_def)
    then show ?thesis using g other [OF that] by (auto simp: grows_dirs_def)
  qed
  have free: "t1 (p @ [c]) = None" for c
  proof (rule ccontr)
    assume "t1 (p @ [c]) \<noteq> None"
    then have "is_directory t1 p" using ok1 unfolding tree_ok_def by blast
    with p have "clear_path may t1 p p = Some Dir" by (simp add: is_directory_def clear_path_def remove_file_def)
    with b show False by (simp add: unix_bind_def)
  qed
  show "tree_ok t'"
    unfolding tree_ok_def
  proof (intro allI impI)
    fix r c assume q: "t' (r @ [c]) \<noteq> None"
    show "is_directory t' r"
    proof (cases "r @ [c] = p")
      case True
      then have "r = butlast p" "r \<noteq> p" by auto
      with par p show ?thesis by (auto simp: is_directory_def t')
    next
      case False
      then have "t1 (r @ [c]) \<noteq> None" and "r \<noteq> p" using q other free by auto
      then have "is_directory t1 r" using ok1 unfolding tree_ok_def by blast
      with \<open>r \<noteq> p\<close> other show ?thesis by (simp add: is_directory_def)
    qed
  qed
qed

lemma bind_keeps_owner:
  "bind_or_create_listener may i umode t p = Ok t' \<Longrightarrow> tree_ok t \<Longrightarrow> q \<noteq> p \<Longrightarrow> owned t q j \<Longrightarrow> owned t' q j"
  using bind_Ok(3) [of may i umode t p t' q] by (auto simp: owned_def split: option.splits)

lemma standalone_bind:
  assumes "bind_standalone_unix may chmod i umode t p = Ok t'"
  obtains t2 where "bind_or_create_listener may i umode t p = Ok t2" and "t' = (if chmod then t2(p \<mapsto> Socket i 432) else t2)"
  using assms by (auto simp: bind_standalone_unix_def bind_or_create_listener_def split: sum.splits)


text \<open>A host with a stale socket of an earlier run at the Varlink path.\<close>

definition ex_tree :: tree where
  "ex_tree = [[''run''] \<mapsto> Dir, [''run'', ''syntrop''] \<mapsto> Dir, [''run'', ''syntrop'', ''io.syntrop.Inference1''] \<mapsto> Socket 9 493]"


text \<open>Binding fails only where it must: on a path that no file blocks it succeeds.\<close>

lemma bind_succeeds:
  assumes "p \<noteq> []" and "tree_ok t" and "unblocked t (butlast p)" and "t p \<noteq> Some Dir" and may: "\<And>q. prefix q (butlast p) \<Longrightarrow> may q"
  shows "\<exists>t'. bind_or_create_listener may i umode t p = Ok t'"
proof -
  obtain t1 where t1: "make_dirs may t (rev (butlast p)) = Ok t1"
    using make_dirs_total [of t "rev (butlast p)" may] assms(3) may by auto
  have dir: "is_directory t1 (butlast p)" using make_dirs_Ok [OF t1 assms(2)] by simp
  have eq: "t1 p = t p" using make_dirs_elsewhere [OF t1, of p] not_prefix_butlast [OF assms(1)] by simp
  have "may (butlast p)" using may by simp
  then have free: "clear_path may t1 p p = None" and "is_directory (clear_path may t1 p) (butlast p)"
    using eq assms(1,4) dir by (auto simp: clear_path_def remove_file_def is_directory_def not_prefix_butlast)
  then show ?thesis
    using assms(1) t1 \<open>may (butlast p)\<close>
    by (auto simp: bind_or_create_listener_def make_parent_def create_dir_all_def unix_bind_def is_directory_def)
qed

text \<open>If two servers are given one path, the later one takes it over and the earlier cannot be reached.\<close>

lemma same_path_steals:
  assumes "bind_or_create_listener may i umode t p = Ok t1" and "tree_ok t" and "bind_or_create_listener may j umode t1 p = Ok t2" and "i \<noteq> j"
  shows "\<not> owned t2 p i"
  using assms(4) bind_Ok(1) [OF assms(3) bind_Ok(2) [OF assms(1,2)]] by (simp add: owned_def)

section \<open>Accepting\<close>

lemma varlink_accepts:
  "run_varlink_listener as = (map projr (takeWhile (\<lambda>a. \<not> isl a) as), map_option (\<lambda>e. Err (projl e)) (find isl as))"
  by (induction as rule: run_varlink_listener.induct) simp_all

lemma fd_accepts: "run_fd_server_with_quota as = run_varlink_listener as"
  by (induction as rule: run_varlink_listener.induct) simp_all

lemma gateway_accepts: "serve_unix_gateway (map Incoming as) = run_varlink_listener as"
  by (induction as rule: run_varlink_listener.induct) simp_all

lemma sentry_accepts: "run_sentry_triage_listener as = (map projr (filter (\<lambda>a. \<not> isl a) as), None)"
  by (induction as rule: run_sentry_triage_listener.induct) simp_all

text \<open>C26: a failed accept, such as a shortage of descriptors, is survived by the triage server only.
  It serves every connection accepted before and after the failure and never returns; the
  Varlink server, the descriptor server and the gateway on a Unix socket serve the connections
  before the first failure, return its error, and serve nobody afterwards.\<close>

theorem accept_failure_ends_servers:
  assumes "\<forall>a \<in> set before. \<not> isl a"
  shows "run_varlink_listener (before @ Err e # after) = (map projr before, Some (Err e))
    \<and> run_fd_server_with_quota (before @ Err e # after) = (map projr before, Some (Err e))
    \<and> serve_gateway axum_serve (Unix fd) (map Incoming (before @ Err e # after)) = (map projr before, Some (Err e))
    \<and> run_sentry_triage_listener (before @ Err e # after)
        = (map projr before @ map projr (filter (\<lambda>a. \<not> isl a) after), None)"
proof -
  have "takeWhile (\<lambda>a. \<not> isl a) (before @ Err e # after) = before" and "find isl (before @ Err e # after) = Some (Err e)"
    using assms by (induction before) auto
  moreover have "filter (\<lambda>a. \<not> isl a) before = before" using assms by (simp add: filter_id_conv)
  ultimately show ?thesis unfolding serve_gateway_def gateway_listener.case gateway_accepts fd_accepts varlink_accepts sentry_accepts
    by simp
qed

theorem accept_failure_ends_servers_witness:
  "run_varlink_listener [Ok (1 :: nat), Err ''EMFILE'', Ok 2] = ([1], Some (Err ''EMFILE''))
    \<and> run_sentry_triage_listener [Ok (1 :: nat), Err ''EMFILE'', Ok 2] = ([1, 2], None)"
  using accept_failure_ends_servers [of "[Ok (1 :: nat)]" "''EMFILE''" "[Ok 2]"] by simp

text \<open>Opening the socket for device events leaks no descriptor: it is returned or closed.\<close>

lemma uevent_socket_accounted:
  assumes "open_uevent_socket sock bind_res os_error = (r, calls)"
  shows "sock = Ok fd \<longrightarrow> (r = Ok fd) \<noteq> (CloseFd fd \<in> set calls)" and "sock = Err e \<longrightarrow> isl r \<and> calls = [NetlinkSocket]"
  using assms by (auto simp: open_uevent_socket_def split: sum.splits if_splits)

end
