(* ===== verification/Client.thy ===== *)
theory Client
  imports Varlink_Conn
begin

text \<open>
  The Varlink client of the command line tool (\<^verbatim>\<open>crates/inferenctl/src/client.rs\<close>): requests,
  replies, streams, and that client and server understand each other. A connection is the
  bytes that arrive on it until the server closes it.
\<close>

section \<open>Requests and replies\<close>

record client_lib =
  cl_encode :: "json \<Rightarrow> string"
  cl_decode :: "string \<Rightarrow> (string, json) result"
  cl_debug :: "json option \<Rightarrow> string" \<comment> \<open>the debug form of an optional value\<close>
  cl_write :: "string \<Rightarrow> (string, unit) result" \<comment> \<open>writing and flushing a message\<close>

definition DEFAULT_SOCKET_PATH :: string where
  "DEFAULT_SOCKET_PATH = ''/run/syntrop/io.syntrop.Inference1''"

definition call_request :: "string \<Rightarrow> json option \<Rightarrow> json" where
  "call_request m params = JObj [(''method'', JStr m), (''parameters'', or_else params (JObj []))]"

definition stream_request :: "string \<Rightarrow> json option \<Rightarrow> json" where
  "stream_request m params = JObj [(''method'', JStr m), (''parameters'', or_else params (JObj [])), (''more'', JBool True)]"

definition client_message :: "client_lib \<Rightarrow> json \<Rightarrow> string" where
  "client_message C req = cl_encode C req @ [nul]"

text \<open>Reading a reply: the value returned, and what is left on the connection.\<close>

definition read_reply :: "client_lib \<Rightarrow> string \<Rightarrow> (string, json) result \<times> string" where
  "read_reply C inp =
     (let (buf, rest) = next_frame inp in
      if buf = [] then (Err ''Connection closed by inferenced daemon'', rest)
      else if last buf \<noteq> nul
      then (Err ''Varlink framing error: message exceeds 1MB framing limit or missing NUL delimiter'', rest)
      else (case cl_decode C (butlast buf) of
              Err e \<Rightarrow> (Err e, rest)
            | Ok resp \<Rightarrow>
                (case get_str ''error'' resp of
                   Some err \<Rightarrow> (Err (''Varlink error '' @ err @ '': '' @ cl_debug C (json_get ''parameters'' resp)), rest)
                 | None \<Rightarrow> (Ok (or_else (json_get ''parameters'' resp) (JObj [])), rest))))"

definition client_call :: "client_lib \<Rightarrow> string \<Rightarrow> json option \<Rightarrow> string \<Rightarrow> (string, json) result \<times> string" where
  "client_call C m params inp =
     (case cl_write C (client_message C (call_request m params)) of
        Err e \<Rightarrow> (Err e, inp)
      | Ok _ \<Rightarrow> read_reply C inp)"

lemma next_frame_empty: "fst (next_frame s) = [] \<longleftrightarrow> s = []"
  by (cases s) (auto simp: next_frame_def MAX_FRAME_def Let_def)

text \<open>The loop of a streaming call: the messages it passes on, its result, and what is left.\<close>

function stream_replies :: "client_lib \<Rightarrow> string \<Rightarrow> json list \<times> (string, unit) result \<times> string" where
  "stream_replies C inp =
     (let buf = fst (next_frame inp); rest = snd (next_frame inp) in
      if inp = [] then ([], Ok (), rest)
      else if last buf \<noteq> nul
      then ([], Err ''Varlink stream framing error: message exceeds 1MB framing limit or missing NUL delimiter'', rest)
      else (case cl_decode C (butlast buf) of
              Err e \<Rightarrow> ([], Err e, rest)
            | Ok resp \<Rightarrow>
                (case get_str ''error'' resp of
                   Some err \<Rightarrow> ([], Err (''Varlink stream error '' @ err @ '': '' @ cl_debug C (json_get ''parameters'' resp)), rest)
                 | None \<Rightarrow>
                     if or_else (Option.bind (json_get ''continues'' resp) as_bool) False
                     then (let (ms, r, rest') = stream_replies C rest in (resp # ms, r, rest'))
                     else ([resp], Ok (), rest))))"
  by auto
termination by (relation "measure (\<lambda>(C, inp). length inp)") (auto simp: next_frame_shorter)

declare stream_replies.simps [simp del]

definition stream_call :: "client_lib \<Rightarrow> string \<Rightarrow> json option \<Rightarrow> string \<Rightarrow> json list \<times> (string, unit) result \<times> string" where
  "stream_call C m params inp =
     (case cl_write C (client_message C (stream_request m params)) of
        Err e \<Rightarrow> ([], Err e, inp)
      | Ok _ \<Rightarrow> stream_replies C inp)"

section \<open>Calls\<close>

text \<open>The typed calls are pairs of a name and parameters.\<close>

type_synonym client_request = "string \<times> json option"

definition run_request :: "client_lib \<Rightarrow> client_request \<Rightarrow> string \<Rightarrow> (string, json) result \<times> string" where
  "run_request C q inp = client_call C (fst q) (snd q) inp"

definition ctl_get_topology :: client_request where
  "ctl_get_topology = (''io.systemd.inferenced1.GetTopology'', None)"

definition ctl_get_pressure :: client_request where
  "ctl_get_pressure = (''io.systemd.inferenced1.GetPressure'', None)"

definition ctl_list_leases :: client_request where
  "ctl_list_leases = (''io.systemd.inferenced1.ListLeases'', None)"

definition ctl_acquire_lease :: "string \<Rightarrow> u64 \<Rightarrow> string option \<Rightarrow> client_request" where
  "ctl_acquire_lease priority mem plane = (''io.systemd.inferenced1.AcquireLease'',
     Some (JObj [(''priority'', JStr priority), (''memory_bytes'', json_u64 mem), (''plane'', json_opt JStr plane)]))"

definition ctl_release_lease :: "string \<Rightarrow> client_request" where
  "ctl_release_lease i = (''io.systemd.inferenced1.ReleaseLease'', Some (JObj [(''lease_id'', JStr i)]))"

definition ctl_freeze :: "string \<Rightarrow> client_request" where
  "ctl_freeze i = (''io.systemd.inferenced1.Freeze'', Some (JObj [(''lease_id'', JStr i)]))"

definition ctl_thaw :: "string \<Rightarrow> client_request" where
  "ctl_thaw i = (''io.systemd.inferenced1.Thaw'', Some (JObj [(''lease_id'', JStr i)]))"

definition ctl_list_models :: client_request where
  "ctl_list_models = (''io.systemd.inferenced1.ListModels'', None)"

definition ctl_register_model :: "string \<Rightarrow> string \<Rightarrow> string \<Rightarrow> u64 \<Rightarrow> client_request" where
  "ctl_register_model i fmt path bytes = (''io.systemd.inferenced1.RegisterModel'',
     Some (JObj [(''id'', JStr i), (''format'', JStr fmt), (''path'', JStr path), (''estimated_bytes'', json_u64 bytes)]))"

definition ctl_evict_model :: "string \<Rightarrow> client_request" where
  "ctl_evict_model m = (''io.systemd.inferenced1.EvictModel'', Some (JObj [(''model'', JStr m)]))"

definition ctl_pin_model :: "string \<Rightarrow> string \<Rightarrow> client_request" where
  "ctl_pin_model m plane = (''io.systemd.inferenced1.PinModel'', Some (JObj [(''model'', JStr m), (''plane'', JStr plane)]))"

definition ctl_get_info :: client_request where
  "ctl_get_info = (''org.varlink.service.GetInfo'', None)"

definition ctl_get_interface_description :: "string \<Rightarrow> client_request" where
  "ctl_get_interface_description i = (''org.varlink.service.GetInterfaceDescription'', Some (JObj [(''interface'', JStr i)]))"

section \<open>Client and server\<close>

text \<open>A reply as JSON: absent fields are left out.\<close>

definition reply_json :: "varlink_reply \<Rightarrow> json" where
  "reply_json r = JObj (
     (case v_parameters r of Some p \<Rightarrow> [(''parameters'', p)] | None \<Rightarrow> [])
   @ (case v_continues r of Some c \<Rightarrow> [(''continues'', JBool c)] | None \<Rightarrow> [])
   @ (case v_error r of Some e \<Rightarrow> [(''error'', JStr e)] | None \<Rightarrow> []))"

text \<open>That the libraries on both sides agree on a reply: its text fits a frame and decodes to it.\<close>

definition agree :: "json_lib \<Rightarrow> client_lib \<Rightarrow> varlink_reply \<Rightarrow> bool" where
  "agree J C r \<longleftrightarrow> nul \<notin> set (encode_reply J r) \<and> length (encode_reply J r) < MAX_FRAME
     \<and> cl_decode C (encode_reply J r) = Ok (reply_json r)"

text \<open>What a client makes of a reply.\<close>

definition client_value :: "client_lib \<Rightarrow> varlink_reply \<Rightarrow> (string, json) result" where
  "client_value C r =
     (case v_error r of
        Some e \<Rightarrow> Err (''Varlink error '' @ e @ '': '' @ cl_debug C (v_parameters r))
      | None \<Rightarrow> Ok (or_else (v_parameters r) (JObj [])))"

lemma reply_fields:
  "get_str ''error'' (reply_json r) = v_error r" "json_get ''parameters'' (reply_json r) = v_parameters r"
  "Option.bind (json_get ''continues'' (reply_json r)) as_bool = v_continues r"
  by (auto simp: reply_json_def get_str_def json_get_def as_str_def as_bool_def split: option.splits)

lemma reply_frame: "agree J C r \<Longrightarrow> next_frame (to_bytes J r @ s) = (encode_reply J r @ [nul], s)"
  using next_frame_message [of "encode_reply J r" s] by (simp add: agree_def to_bytes_def)

lemma read_reply_to_bytes: "agree J C r \<Longrightarrow> read_reply C (to_bytes J r @ rest) = (client_value C r, rest)"
  using reply_frame [of J C r rest]
  by (auto simp: read_reply_def agree_def reply_fields client_value_def split: option.splits)

lemma stream_to_bytes:
  assumes "agree J C r" and "v_error r = None"
  shows "stream_replies C (to_bytes J r @ rest) =
    (if v_continues r = Some True then (let (ms, e, rest') = stream_replies C rest in (reply_json r # ms, e, rest'))
     else ([reply_json r], Ok (), rest))"
  using assms reply_frame [OF assms(1), of rest]
  by (subst stream_replies.simps) (auto simp: agree_def reply_fields to_bytes_def or_else_def split: option.splits)

text \<open>A stream whose replies announce more until the last.\<close>

fun streamed :: "varlink_reply list \<Rightarrow> bool" where
  "streamed [] \<longleftrightarrow> False"
| "streamed [r] \<longleftrightarrow> v_error r = None \<and> v_continues r \<noteq> Some True"
| "streamed (r # rs) \<longleftrightarrow> v_error r = None \<and> v_continues r = Some True \<and> streamed rs"

lemma stream_all:
  assumes "streamed rs" and "\<And>r. r \<in> set rs \<Longrightarrow> agree J C r"
  shows "stream_replies C (concat (map (to_bytes J) rs) @ rest) = (map reply_json rs, Ok (), rest)"
  using assms by (induction rs rule: streamed.induct) (simp_all add: stream_to_bytes)

text \<open>A stream that breaks off between two replies is reported as complete.\<close>

lemma truncated_stream_succeeds:
  assumes "\<And>r. r \<in> set rs \<Longrightarrow> agree J C r \<and> v_error r = None \<and> v_continues r = Some True"
  shows "stream_replies C (concat (map (to_bytes J) rs)) = (map reply_json rs, Ok (), [])"
  using assms
proof (induction rs)
  case Nil
  then show ?case by (subst stream_replies.simps) (simp add: next_frame_def)
next
  case (Cons r rs)
  then show ?case using stream_to_bytes [of J C r "concat (map (to_bytes J) rs)"] by simp
qed

text \<open>C28: the client and the server understand each other. If the JSON libraries of both sides agree
  on the request and on the reply, the frame the client writes makes the server perform exactly
  the call, with its effect on the arbiter, and the one message the server sends back is
  returned to the caller as the parameters of the reply, or as an error when it is one; what
  follows on the connection is left for the next call.\<close>

theorem client_call_round_trip:
  assumes req: "nul \<notin> set (cl_encode C (call_request m params))" "length (cl_encode C (call_request m params)) < MAX_FRAME"
      "decode_request J (cl_encode C (call_request m params))
        = Ok \<lparr>q_method = m, q_parameters = Some (or_else params (JObj [])), q_more = None, q_oneway = None\<rparr>"
    and sent: "cl_write C (client_message C (call_request m params)) = Ok ()"
    and call: "call L J E m (Some (or_else params (JObj []))) peer st active = (Some r, [], st', active', fx)" and "agree J C r"
  shows "frames (client_message C (call_request m params)) = [client_message C (call_request m params)]
    \<and> (\<exists>outp. handle_frame L J E peer True (client_message C (call_request m params)) st active = (True, [outp], st', active', fx)
        \<and> client_call C m params (outp @ rest) = (client_value C r, rest))"
proof -
  let ?msg = "client_message C (call_request m params)"
  have "frames ?msg = [?msg]"
    using frames_recover_messages [of "[cl_encode C (call_request m params)]"] req(1,2) by (simp add: client_message_def)
  moreover have "parse_request J ?msg = Ok \<lparr>q_method = m, q_parameters = Some (or_else params (JObj [])), q_more = None, q_oneway = None\<rparr>"
    using req(3) by (simp add: parse_request_def client_message_def)
  then have "handle_frame L J E peer True ?msg st active = (True, [to_bytes J r], st', active', fx)"
    using call by (simp add: handle_frame_def)
  moreover have "client_call C m params (to_bytes J r @ rest) = (client_value C r, rest)"
    using sent read_reply_to_bytes [OF assms(6)] by (simp add: client_call_def)
  ultimately show ?thesis by blast
qed

definition ex_client :: client_lib where
  "ex_client = \<lparr>cl_encode = (\<lambda>_. ''info''), cl_decode = (\<lambda>_. Ok (reply_json handle_get_info)), cl_debug = (\<lambda>_. []), cl_write = (\<lambda>_. Ok ())\<rparr>"

definition ex_server :: json_lib where
  "ex_server = \<lparr>decode_request = (\<lambda>s. Ok \<lparr>q_method = ''org.varlink.service.GetInfo'', q_parameters = Some (JObj []), q_more = None, q_oneway = None\<rparr>),
     encode_reply = (\<lambda>_. ''reply'')\<rparr>"

theorem client_call_round_trip_witness:
  "\<exists>outp. handle_frame ex_lib ex_server ex_env None True (client_message ex_client (call_request ''org.varlink.service.GetInfo'' None)) ex_zero []
      = (True, [outp], ex_zero, [], []) \<and> client_call ex_client ''org.varlink.service.GetInfo'' None (outp @ ''x'') = (client_value ex_client handle_get_info, ''x'')"
proof -
  let ?m = "''org.varlink.service.GetInfo''"
  have a: "agree ex_server ex_client handle_get_info" by (simp add: agree_def ex_server_def ex_client_def MAX_FRAME_def)
  have c: "call ex_lib ex_server ex_env ?m (Some (or_else None (JObj []))) None ex_zero [] = (Some handle_get_info, [], ex_zero, [], [])"
    by (simp add: call_def plain_def)
  show ?thesis
    using client_call_round_trip [OF _ _ _ _ c a, of "''x''"]
    by (simp add: ex_client_def ex_server_def MAX_FRAME_def or_else_def)
qed

end
