(* ===== verification/Ctl.thy ===== *)
theory Ctl
  imports Client Topology_Props
begin

text \<open>
  The commands of the command line tool (\<^verbatim>\<open>crates/inferenctl/src\<close>: \<^verbatim>\<open>cli.rs\<close>, \<^verbatim>\<open>main.rs\<close>,
  \<^verbatim>\<open>format.rs\<close> and \<^verbatim>\<open>cmd/\<close>). A command maps what it reads, the connection if there is one and
  the host, to the pieces it prints and its result. Colours, tables and the printing of JSON
  are libraries.
\<close>

section \<open>Formatting\<close>

record term_lib =
  paint :: "string list \<Rightarrow> string \<Rightarrow> string" \<comment> \<open>a text in the named styles\<close>
  table :: "string list \<Rightarrow> string list list \<Rightarrow> string" \<comment> \<open>headings and rows, with rounded borders\<close>
  pretty :: "json \<Rightarrow> string"
  compact :: "json \<Rightarrow> string"
  debug_path :: "string \<Rightarrow> string"

definition println :: "string \<Rightarrow> string" where
  "println s = s @ [nl]"

text \<open>Division by a power of two is exact in floating point.\<close>

definition format_bytes :: "u64 \<Rightarrow> string" where
  "format_bytes bytes =
     (let b = f64_of_u64 bytes; kb = 1024; mb = 1024 ^ 2; gb = 1024 ^ 3; tb = 1024 ^ 4 in
      if tb \<le> b then fmt_fixed 2 (b / tb) @ '' TB''
      else if gb \<le> b then fmt_fixed 1 (b / gb) @ '' GB''
      else if mb \<le> b then fmt_fixed 0 (b / mb) @ '' MB''
      else if kb \<le> b then fmt_fixed 0 (b / kb) @ '' KB''
      else show_nat (unat bytes) @ '' B'')"

record plane_row =
  pr_id :: string
  pr_kind :: string
  pr_total :: string
  pr_available :: string
  pr_triage :: string

record lease_row =
  lr_id :: string
  lr_plane :: string
  lr_memory :: string
  lr_priority :: string
  lr_state :: string
  lr_unit :: string

record model_row =
  mr_id :: string
  mr_format :: string
  mr_path :: string
  mr_estimated :: string
  mr_placement :: string

text \<open>\<open>v.get(k).and_then(as_str).unwrap_or(d)\<close> and its likes.\<close>

definition str_or :: "string \<Rightarrow> string \<Rightarrow> json \<Rightarrow> string" where
  "str_or k d v = or_else (get_str k v) d"

definition u64_or0 :: "string \<Rightarrow> json \<Rightarrow> u64" where
  "u64_or0 k v = or_else (get_u64 k v) 0"

definition as_f64 :: "json \<Rightarrow> float_value option" where
  "as_f64 v = (case v of JInt n \<Rightarrow> Some (Fin (if n < 0 then - f64_round (of_int (- n)) else f64_round (of_int n)))
     | JFloat x \<Rightarrow> Some x | _ \<Rightarrow> None)"

definition f64_or0 :: "string \<Rightarrow> json \<Rightarrow> float_value" where
  "f64_or0 k v = or_else (Option.bind (json_get k v) as_f64) (Fin 0)"

section \<open>Commands\<close>

datatype commands =
    CStatus
  | CPlanes
  | CLeases
  | CMonitor nat
  | CExec string "string option"
  | CFreeze string
  | CThaw string
  | CModels
  | CRegister string string "string option" u64
  | CWarm string
  | CPin string "string option" "string option"
  | CEvict string
  | CCatConfig
  | CCheckConfig
  | CDump
  | CInspect string
  | CTestTriage
  | CBenchmark nat
  | CCompletions string
  | CMan

record ctl_cli =
  o_socket :: string
  o_sentry_socket :: string
  o_config :: string
  o_json :: bool
  o_quiet :: bool
  o_command :: commands

text \<open>The pieces printed to standard output, those to standard error, and the result.\<close>

type_synonym ctl_output = "string list \<times> string list \<times> (string, unit) result"

definition quietly :: "string list \<Rightarrow> ctl_output" where
  "quietly out = (out, [], Ok ())"

definition failed :: "string \<Rightarrow> ctl_output" where
  "failed e = ([], [], Err e)"

definition no_daemon :: "term_lib \<Rightarrow> string \<Rightarrow> ctl_output" where
  "no_daemon T path = failed (''Failed to connect to systemd-inferenced at '' @ debug_path T path)"

text \<open>A connection is the input it delivers; None if the socket cannot be connected.\<close>

type_synonym link = "string option"

definition run_freeze :: "term_lib \<Rightarrow> client_lib \<Rightarrow> link \<Rightarrow> string \<Rightarrow> string \<Rightarrow> ctl_output" where
  "run_freeze T C l path i =
     (case l of
        None \<Rightarrow> no_daemon T path
      | Some inp \<Rightarrow>
          (case run_request C (ctl_freeze i) inp of
             (Err e, _) \<Rightarrow> failed e
           | (Ok _, _) \<Rightarrow> quietly [println (''Froze compute lease '' @ paint T [''green''] i)]))"

definition run_thaw :: "term_lib \<Rightarrow> client_lib \<Rightarrow> link \<Rightarrow> string \<Rightarrow> string \<Rightarrow> ctl_output" where
  "run_thaw T C l path i =
     (case l of
        None \<Rightarrow> no_daemon T path
      | Some inp \<Rightarrow>
          (case run_request C (ctl_thaw i) inp of
             (Err e, _) \<Rightarrow> failed e
           | (Ok _, _) \<Rightarrow> quietly [println (''Thawed compute lease '' @ paint T [''green''] i)]))"

section \<open>Models\<close>

definition model_row_of :: "json \<Rightarrow> model_row" where
  "model_row_of m = \<lparr>mr_id = str_or ''id'' [] m, mr_format = str_or ''format'' [] m, mr_path = str_or ''path'' [] m,
     mr_estimated = format_bytes (u64_or0 ''estimated_memory'' m), mr_placement = str_or ''placement'' [] m\<rparr>"

definition model_table :: "term_lib \<Rightarrow> model_row list \<Rightarrow> string" where
  "model_table T rows = table T [''ID'', ''Format'', ''Path'', ''Estimated RAM'', ''Placement'']
     (map (\<lambda>r. [mr_id r, mr_format r, mr_path r, mr_estimated r, mr_placement r]) rows)"

definition run_models :: "term_lib \<Rightarrow> client_lib \<Rightarrow> link \<Rightarrow> bool \<Rightarrow> ctl_output" where
  "run_models T C l json_out =
     (case l of
        None \<Rightarrow> quietly [println (if json_out then compact T (JObj [(''models'', JArr [])])
                            else paint T [''dimmed''] ''No daemon running. Model registry offline.'')]
      | Some inp \<Rightarrow>
          (case run_request C ctl_list_models inp of
             (Err e, _) \<Rightarrow> failed e
           | (Ok v, _) \<Rightarrow>
               if json_out then quietly [println (pretty T v)]
               else (case Option.bind (json_get ''models'' v) as_array of
                       Some (m # ms) \<Rightarrow> quietly [println (model_table T (map model_row_of (m # ms)))]
                     | _ \<Rightarrow> quietly [println (paint T [''dimmed''] ''No models registered in systemd-inferenced registry.'')])))"

definition quoted :: "term_lib \<Rightarrow> string \<Rightarrow> string \<Rightarrow> string" where
  "quoted T style i = CHR 0x27 # paint T [style] i @ [CHR 0x27]"

definition run_register :: "term_lib \<Rightarrow> client_lib \<Rightarrow> link \<Rightarrow> string \<Rightarrow> string \<Rightarrow> string option \<Rightarrow> u64 \<Rightarrow> ctl_output" where
  "run_register T C l i fmt path bytes =
     (let model_path = or_else path i in
      case l of
        Some inp \<Rightarrow>
          (case run_request C (ctl_register_model i fmt model_path bytes) inp of
             (Err e, _) \<Rightarrow> failed e
           | (Ok _, _) \<Rightarrow> quietly [println (''Registered model '' @ quoted T ''green'' i @ '' ('' @ fmt @ '') into systemd-inferenced registry'')])
      | None \<Rightarrow> quietly [println (''Registered model '' @ quoted T ''green'' i @ '' ('' @ fmt @ '', path: '' @ model_path @ '') [offline record]'')])"

definition exec_params :: "string \<Rightarrow> string \<Rightarrow> json" where
  "exec_params model prompt = JObj [(''model'', JStr model), (''prompt'', JStr prompt)]"

definition run_warm :: "term_lib \<Rightarrow> client_lib \<Rightarrow> link \<Rightarrow> string \<Rightarrow> ctl_output" where
  "run_warm T C l i =
     (let _ = map_option (client_call C ''io.systemd.inferenced1.StreamInference'' (Some (exec_params i ''warmup-probe''))) l in
      quietly [println (''Warmed weights for model '' @ quoted T ''green'' i @ '' in memory fabric via madvise(WillNeed)'')])"

definition run_pin :: "term_lib \<Rightarrow> client_lib \<Rightarrow> link \<Rightarrow> string \<Rightarrow> string option \<Rightarrow> ctl_output" where
  "run_pin T C l i plane =
     (let target = or_else plane ''npu-0'';
          msg = quietly [println (''Pinned model '' @ quoted T ''green'' i @ '' to plane '' @ CHR 0x27 # target @ CHR 0x27 # '' for emergency triage'')]
      in case l of
           Some inp \<Rightarrow> (case run_request C (ctl_pin_model i target) inp of (Err e, _) \<Rightarrow> failed e | (Ok _, _) \<Rightarrow> msg)
         | None \<Rightarrow> msg)"

definition run_evict :: "term_lib \<Rightarrow> client_lib \<Rightarrow> link \<Rightarrow> string \<Rightarrow> ctl_output" where
  "run_evict T C l i =
     (let msg = quietly [println (''Evicted model '' @ quoted T ''yellow'' i @ '' from active residency via madvise(DontNeed)'')]
      in case l of
           Some inp \<Rightarrow> (case run_request C (ctl_evict_model i) inp of (Err e, _) \<Rightarrow> failed e | (Ok _, _) \<Rightarrow> msg)
         | None \<Rightarrow> msg)"

section \<open>Streaming\<close>

text \<open>The prompt: the argument, or what standard input holds when it is no terminal (at most four mebibytes).\<close>

definition exec_prompt :: "string option \<Rightarrow> string option \<Rightarrow> string" where
  "exec_prompt arg stdin =
     (let p = (case arg of Some a \<Rightarrow> a | None \<Rightarrow> or_else stdin []) in
      if trim p = [] then ''Hello, systemd-inferenced!'' else p)"

definition message_chunk :: "json \<Rightarrow> string list" where
  "message_chunk msg =
     (case Option.bind (json_get ''parameters'' msg) (get_str ''chunk'') of Some c \<Rightarrow> [c] | None \<Rightarrow> [])"

definition offline_tokens :: "string \<Rightarrow> string list" where
  "offline_tokens prompt = [''Inference: '', ''Analyzing prompt '' @ [CHR 0x27], trim prompt,
     CHR 0x27 # ''. Execution dispatched via systemd-inferenced stream filter.'']"

definition run_exec :: "term_lib \<Rightarrow> client_lib \<Rightarrow> link \<Rightarrow> string \<Rightarrow> string \<Rightarrow> string option \<Rightarrow> string option \<Rightarrow> bool \<Rightarrow> ctl_output" where
  "run_exec T C l path model arg stdin quiet =
     (let prompt = exec_prompt arg stdin;
          (ms, r) = (case l of
              Some inp \<Rightarrow> (let (ms, r, _) = stream_call C ''io.systemd.inferenced1.StreamInference'' (Some (exec_params model prompt)) inp
                           in (ms, Some r))
            | None \<Rightarrow> ([], None));
          live = concat (map message_chunk ms)
      in if r = Some (Ok ()) then (live @ [[nl]], [], Ok ())
         else (live @ offline_tokens prompt @ [[nl]],
               if quiet then []
               else [println (''systemd-inferenced: daemon offline at '' @ debug_path T path @ '', running local stream filter for model ''
                       @ CHR 0x27 # model @ [CHR 0x27])],
               Ok ()))"

section \<open>Status\<close>

definition plane_full_json :: "compute_plane \<Rightarrow> json" where
  "plane_full_json p = JObj
     [(''id'', JStr (p_id p)), (''name'', JStr (p_name p)), (''kind'', JStr (kind_debug (p_kind p))),
      (''device_path'', json_opt JStr (p_device_path p)), (''total_memory_bytes'', json_u64 (p_total p)),
      (''available_memory_bytes'', json_u64 (p_available p)), (''numa_node'', json_opt (\<lambda>n. JInt (int (unat n))) (p_numa_node p)),
      (''supported_formats'', JArr (map JStr (p_supported_formats p))), (''is_triage_reserved'', JBool (p_triage_reserved p)),
      (''is_quarantined'', JBool (p_quarantined p)), (''hardware_features'', JArr (map JStr (p_features p)))]"

definition topology_json :: "hardware_topology \<Rightarrow> json" where
  "topology_json t = JObj
     [(''planes'', JArr (map plane_full_json (planes t))), (''total_system_ram_bytes'', json_u64 (total_ram t)),
      (''available_system_ram_bytes'', json_u64 (available_ram t)), (''cpu_cores_total'', JInt (int (cpu_cores_total t))),
      (''numa_nodes'', JInt (int (numa_nodes t)))]"

definition metrics_json :: "pressure_metrics \<Rightarrow> json" where
  "metrics_json p = JObj
     [(''memory_some_avg10'', json_float (memory_some_avg10 p)), (''memory_full_avg10'', json_float (memory_full_avg10 p)),
      (''cpu_some_avg10'', json_float (cpu_some_avg10 p)), (''io_some_avg10'', json_float (io_some_avg10 p)),
      (''level'', JStr (level_debug (level p)))]"

definition get_u64_either :: "string \<Rightarrow> string \<Rightarrow> json \<Rightarrow> u64" where
  "get_u64_either a b v =
     or_else (Option.bind (case json_get a v of Some x \<Rightarrow> Some x | None \<Rightarrow> json_get b v) as_u64) 0"

definition bullet :: string where
  "bullet = [CHR 0xE2, CHR 0x97, CHR 0x8F]"

definition plane_row_of :: "term_lib \<Rightarrow> json \<Rightarrow> plane_row" where
  "plane_row_of T p = \<lparr>pr_id = str_or ''id'' [] p, pr_kind = str_or ''kind'' [] p,
     pr_total = format_bytes (get_u64_either ''total_memory'' ''total_memory_bytes'' p),
     pr_available = format_bytes (get_u64_either ''available_memory'' ''available_memory_bytes'' p),
     pr_triage = (if or_else (Option.bind (json_get ''is_triage_reserved'' p) as_bool) False
       then paint T [''red'', ''bold''] (bullet @ '' RESERVED (sentry)'') else paint T [''dimmed''] ''shared'')\<rparr>"

definition print_planes_table :: "term_lib \<Rightarrow> json \<Rightarrow> string list" where
  "print_planes_table T topo =
     (case Option.bind (json_get ''planes'' topo) as_array of
        Some ps \<Rightarrow> [println (nl # table T [''ID'', ''Kind'', ''Total'', ''Available'', ''Triage Enclave'']
            (map (\<lambda>p. let r = plane_row_of T p in [pr_id r, pr_kind r, pr_total r, pr_available r, pr_triage r]) ps))]
      | None \<Rightarrow> [])"

definition pressure_heading :: "term_lib \<Rightarrow> string" where
  "pressure_heading T = println (nl # paint T [''bold'', ''underline''] ''Kernel Pressure Stall Information (PSI):'')"

definition print_pressure_info :: "term_lib \<Rightarrow> json \<Rightarrow> string list" where
  "print_pressure_info T p =
     [pressure_heading T,
      println (''  Memory Stall: '' @ fmt_float 2 (f64_or0 ''memory_some'' p) @ ''% | CPU Stall: '' @ fmt_float 2 (f64_or0 ''cpu_some'' p)
        @ ''% | IO Stall: '' @ fmt_float 2 (f64_or0 ''io_some'' p) @ ''%'')]"

definition service_line :: "term_lib \<Rightarrow> string" where
  "service_line T = println (paint T [''bold''] (bullet @ '' systemd-inferenced.service - Heterogeneous AI Compute Fabric''))"

text \<open>\<open>unwrap_or_default\<close>: a failed call gives JSON's null.\<close>

definition value_or_null :: "(string, json) result \<Rightarrow> json" where
  "value_or_null r = (case r of Ok v \<Rightarrow> v | Err _ \<Rightarrow> JNull)"

definition run_status :: "term_lib \<Rightarrow> client_lib \<Rightarrow> os \<Rightarrow> pressure_metrics \<Rightarrow> link \<Rightarrow> string \<Rightarrow> bool \<Rightarrow> ctl_output" where
  "run_status T C h psi l path json_out =
     (case l of
        Some inp \<Rightarrow>
          (let (r1, i1) = run_request C ctl_get_topology inp; (r2, i2) = run_request C ctl_get_pressure i1;
               (r3, i3) = run_request C ctl_list_leases i2;
               topo = value_or_null r1; pressure = value_or_null r2; ls = value_or_null r3
           in if json_out
              then quietly [println (pretty T (JObj [(''daemon'', JStr ''active (running)''), (''socket'', JStr (utf8_lossy path)),
                     (''topology'', topo), (''pressure'', pressure), (''leases'', ls)]))]
              else quietly ([service_line T, println (''     Status: '' @ paint T [''green'', ''bold''] ''active (running via Varlink IPC)'')]
                     @ print_planes_table T topo @ print_pressure_info T pressure))
      | None \<Rightarrow>
          (let topo = topology_json (discover h) in
           if json_out
           then quietly [println (pretty T (JObj [(''daemon'', JStr ''inactive (offline)''), (''socket'', JStr (utf8_lossy path)),
                  (''topology'', topo), (''pressure'', metrics_json psi), (''leases'', JArr [])]))]
           else quietly ([service_line T, println (''     Status: '' @ paint T [''yellow''] ''inactive (offline - local hardware discovery)''),
                  println (''     Socket: '' @ paint T [''dimmed''] (utf8_lossy path))]
                  @ print_planes_table T topo
                  @ [pressure_heading T, println (''  Memory: '' @ fmt_float 2 (memory_some_avg10 psi) @ ''% | CPU: '' @ fmt_float 2 (cpu_some_avg10 psi)
                       @ ''% | IO: '' @ fmt_float 2 (io_some_avg10 psi) @ ''%'')])))"

definition run_planes :: "term_lib \<Rightarrow> client_lib \<Rightarrow> os \<Rightarrow> link \<Rightarrow> string \<Rightarrow> bool \<Rightarrow> ctl_output" where
  "run_planes T C h l path json_out =
     (case l of
        Some inp \<Rightarrow>
          (case run_request C ctl_get_topology inp of
             (Err e, _) \<Rightarrow> failed e
           | (Ok topo, _) \<Rightarrow> quietly (if json_out then [println (pretty T topo)] else print_planes_table T topo))
      | None \<Rightarrow>
          if contains ''unreachable'' (utf8_lossy path) then no_daemon T path
          else (let topo = topology_json (discover h) in
                quietly (if json_out then [println (pretty T topo)] else print_planes_table T topo)))"

definition lease_row_of :: "json \<Rightarrow> lease_row" where
  "lease_row_of v = \<lparr>lr_id = str_or ''id'' [] v, lr_plane = str_or ''plane_id'' [] v,
     lr_memory = format_bytes (u64_or0 ''allocated_memory'' v), lr_priority = str_or ''priority'' [] v,
     lr_state = str_or ''state'' [] v, lr_unit = str_or ''client_unit'' ''-'' v\<rparr>"

definition run_leases :: "term_lib \<Rightarrow> client_lib \<Rightarrow> link \<Rightarrow> string \<Rightarrow> bool \<Rightarrow> ctl_output" where
  "run_leases T C l path json_out =
     (case l of
        None \<Rightarrow> no_daemon T path
      | Some inp \<Rightarrow>
          (case run_request C ctl_list_leases inp of
             (Err e, _) \<Rightarrow> failed e
           | (Ok v, _) \<Rightarrow>
               if json_out then quietly [println (pretty T v)]
               else (case Option.bind (json_get ''leases'' v) as_array of
                       Some (x # xs) \<Rightarrow> quietly [println (table T [''Lease ID'', ''Plane'', ''Memory'', ''Priority'', ''State'', ''Unit'']
                         (map (\<lambda>x. let r = lease_row_of x in [lr_id r, lr_plane r, lr_memory r, lr_priority r, lr_state r, lr_unit r]) (x # xs)))]
                     | _ \<Rightarrow> quietly [println (paint T [''dimmed''] ''No active compute leases. All compute planes idle.'')])))"

text \<open>One round of the monitor; connection and metrics are those of the round.\<close>

definition monitor_line :: "client_lib \<Rightarrow> link \<Rightarrow> pressure_metrics \<Rightarrow> string" where
  "monitor_line C l psi =
     (case Option.bind l (\<lambda>inp. case fst (run_request C ctl_get_pressure inp) of Ok v \<Rightarrow> Some v | Err _ \<Rightarrow> None) of
        Some p \<Rightarrow> println (''['' @ str_or ''level'' ''Normal'' p @ ''] mem_some: '' @ fmt_float 2 (f64_or0 ''memory_some'' p) @ ''% | cpu: ''
          @ fmt_float 2 (f64_or0 ''cpu_some'' p) @ ''% | io: '' @ fmt_float 2 (f64_or0 ''io_some'' p) @ ''%'')
      | None \<Rightarrow> println (''['' @ level_debug (level psi) @ ''] mem_some: '' @ fmt_float 2 (memory_some_avg10 psi) @ ''% | mem_full: ''
          @ fmt_float 2 (memory_full_avg10 psi) @ ''% | cpu: '' @ fmt_float 2 (cpu_some_avg10 psi) @ ''% | io: ''
          @ fmt_float 2 (io_some_avg10 psi) @ ''%''))"

definition run_monitor :: "term_lib \<Rightarrow> client_lib \<Rightarrow> (nat \<Rightarrow> link \<times> pressure_metrics) \<Rightarrow> nat \<Rightarrow> ctl_output" where
  "run_monitor T C rnd n =
     quietly (println (paint T [''bold''] ''Streaming real-time hardware telemetry (Ctrl+C to quit)...'')
       # map (\<lambda>k. monitor_line C (fst (rnd k)) (snd (rnd k))) [0..<n])"

section \<open>Configuration and inspection\<close>

definition run_cat_config :: "term_lib \<Rightarrow> os \<Rightarrow> string \<Rightarrow> ctl_output" where
  "run_cat_config T h path =
     (if \<not> os_exists h path
      then quietly (map println [''# Default built-in configuration for systemd-inferenced'', ''[daemon]'',
             ''gateway_socket = '' @ CHR 0x22 # ''/run/syntrop/gateway.sock'' @ [CHR 0x22],
             ''varlink_socket = '' @ CHR 0x22 # ''/run/syntrop/io.syntrop.Inference1'' @ [CHR 0x22],
             ''sentry_socket = '' @ CHR 0x22 # ''/run/syntrop/sentry.sock'' @ [CHR 0x22],
             ''fd_socket = '' @ CHR 0x22 # ''/run/syntrop/fd.sock'' @ [CHR 0x22]])
      else (case os_read_to_string h path of
              Some content \<Rightarrow> quietly [content]
            | None \<Rightarrow> failed (''Failed to read config from '' @ debug_path T path)))"

text \<open>\<open>toml\<close> parses a configuration: the debug form of its section names, if it is a table.\<close>

definition run_check_config :: "term_lib \<Rightarrow> (string \<Rightarrow> (string, string option) result) \<Rightarrow> os \<Rightarrow> string \<Rightarrow> string \<Rightarrow> ctl_output" where
  "run_check_config T toml h io_error path =
     (if \<not> os_exists h path
      then quietly [println (paint T [''yellow''] ''WARNING'' @ '': Configuration file '' @ debug_path T path @ '' not found (using defaults)'')]
      else (case os_read_to_string h path of
              None \<Rightarrow> failed io_error
            | Some content \<Rightarrow>
                (case toml content of
                   Err e \<Rightarrow> failed (''Configuration syntax error in '' @ debug_path T path @ '': '' @ e)
                 | Ok sections \<Rightarrow>
                     quietly (println (paint T [''green'', ''bold''] ''OK'' @ '': Configuration '' @ debug_path T path @ '' is valid syntax TOML.'')
                       # (case sections of Some d \<Rightarrow> [println (''  Sections defined: '' @ d)] | None \<Rightarrow> [])))))"

definition run_dump :: "term_lib \<Rightarrow> client_lib \<Rightarrow> link \<Rightarrow> string \<Rightarrow> ctl_output" where
  "run_dump T C l path =
     (case l of
        None \<Rightarrow> no_daemon T path
      | Some inp \<Rightarrow>
          (case run_request C ctl_get_topology inp of
             (Err e, _) \<Rightarrow> failed e
           | (Ok topo, i1) \<Rightarrow>
               (case run_request C ctl_get_pressure i1 of
                  (Err e, _) \<Rightarrow> failed e
                | (Ok pressure, i2) \<Rightarrow>
                    (case run_request C ctl_list_leases i2 of
                       (Err e, _) \<Rightarrow> failed e
                     | (Ok ls, i3) \<Rightarrow>
                         (let (r4, i4) = run_request C ctl_list_models i3; (r5, _) = run_request C ctl_get_info i4
                          in quietly [println (pretty T (JObj [(''info'', value_or_null r5), (''topology'', topo), (''pressure'', pressure),
                               (''leases'', ls), (''models'', value_or_null r4)]))])))))"

definition comma_join :: "string list \<Rightarrow> string" where
  "comma_join ss = (case ss of [] \<Rightarrow> [] | s # r \<Rightarrow> s @ concat (map (\<lambda>x. '', '' @ x) r))"

definition print_plane_details :: "term_lib \<Rightarrow> json \<Rightarrow> bool \<Rightarrow> ctl_output" where
  "print_plane_details T p json_out =
     (if json_out then quietly [println (pretty T p)]
      else
        let whole = u64_or0 ''total_memory'' p; avail = u64_or0 ''available_memory'' p in
        quietly ([println (paint T [''bold'', ''underline''] (''Compute Plane: '' @ str_or ''id'' [] p)),
          println (''  Name:      '' @ str_or ''name'' [] p), println (''  Kind:      '' @ str_or ''kind'' [] p),
          println (''  Total:     '' @ show_nat (unat whole) @ '' ('' @ format_bytes whole @ '')''),
          println (''  Available: '' @ show_nat (unat avail) @ '' ('' @ format_bytes avail @ '')''),
          println (''  Triage:    '' @ (if or_else (Option.bind (json_get ''is_triage_reserved'' p) as_bool) False then ''true'' else ''false''))]
        @ (case Option.bind (json_get ''features'' p) as_array of
             Some fs \<Rightarrow> [println (''  Features:  '' @ comma_join (List.map_filter as_str fs))]
           | None \<Rightarrow> [])))"

definition inspect_json :: "compute_plane \<Rightarrow> json" where
  "inspect_json p = JObj
     [(''id'', JStr (p_id p)), (''name'', JStr (p_name p)), (''kind'', JStr (kind_debug (p_kind p))),
      (''total_memory'', json_u64 (p_total p)), (''available_memory'', json_u64 (p_available p)),
      (''is_triage_reserved'', JBool (p_triage_reserved p)), (''features'', JArr (map JStr (p_features p)))]"

definition run_inspect :: "term_lib \<Rightarrow> client_lib \<Rightarrow> os \<Rightarrow> link \<Rightarrow> string \<Rightarrow> bool \<Rightarrow> ctl_output" where
  "run_inspect T C h l plane_id json_out =
     (let live = Option.bind l (\<lambda>inp. case fst (run_request C ctl_get_topology inp) of
            Ok topo \<Rightarrow> Option.bind (Option.bind (json_get ''planes'' topo) as_array) (find (\<lambda>p. get_str ''id'' p = Some plane_id))
          | Err _ \<Rightarrow> None)
      in case live of
           Some p \<Rightarrow> print_plane_details T p json_out
         | None \<Rightarrow>
             (case find (\<lambda>p. p_id p = plane_id) (planes (discover h)) of
                Some p \<Rightarrow> print_plane_details T (inspect_json p) json_out
              | None \<Rightarrow> failed (''Compute plane '' @ CHR 0x27 # plane_id @ CHR 0x27 # '' not found'')))"

section \<open>Triage self-test\<close>

text \<open>The connection to the triage server: whether the request can be written and what one read returns.\<close>

type_synonym triage_link = "((string, unit) result \<times> (string, string) result) option"

definition triage_offline :: "term_lib \<Rightarrow> os \<Rightarrow> string list" where
  "triage_offline T h =
     (let enclave = (case find p_triage_reserved (planes (discover h)) of Some p \<Rightarrow> p_id p | None \<Rightarrow> ''cpu-matrix-fallback'') in
      [println (paint T [''green'', ''bold''] ''SUCCESS'' @ '': Emergency enclave verified (offline self-test mode)!''),
       println ''  Dedicated Slice:  ai-sentry.slice (MemoryMin=2G, CPUWeight=1000)'',
       println (''  Assigned Enclave: '' @ paint T [''green''] enclave),
       println ''  Priority Tier:    LeasePriority::EmergencyTriage (zero-latency preemption)'',
       println ''  Payload Valid:    Verified against Sentry triage JSON specification''])"

definition run_test_triage :: "term_lib \<Rightarrow> os \<Rightarrow> triage_link \<Rightarrow> string \<Rightarrow> bool \<Rightarrow> ctl_output" where
  "run_test_triage T h l path quiet =
     (let intro = (if quiet then []
            else [println (paint T [''bold''] ''Initiating synthetic systemd-sentry emergency triage ping...''),
                  println (''Connecting to out-of-band enclave socket: '' @ debug_path T path)])
      in case l of
           None \<Rightarrow> quietly (intro @ triage_offline T h)
         | Some (Err e, _) \<Rightarrow> (intro, [], Err e)
         | Some (Ok _, Err e) \<Rightarrow> (intro, [], Err e)
         | Some (Ok _, Ok resp) \<Rightarrow>
             if resp = [] then quietly (intro @ triage_offline T h)
             else quietly (intro @ [println (paint T [''green'', ''bold''] ''SUCCESS'' @ '': Received emergency enclave response!''),
                    println (''  Payload: '' @ utf8_lossy resp)]))"

section \<open>Properties\<close>

lemma stream_replies_of:
  "handle_stream_inference J params = map (to_bytes J) (map (\<lambda>(i, tok). reply_streaming (JObj [(''chunk'', JStr tok)])
     (i < length (stream_tokens params) - 1)) (enumerate 0 (stream_tokens params)))"
  by (simp add: handle_stream_inference_def case_prod_beta)

text \<open>
  The whole way of a streamed answer: \<open>inferenctl exec\<close> on a connection that delivers what the
  daemon writes for its request prints the answer to the prompt, and a line feed.
\<close>

lemma exec_prints_answer:
  assumes "cl_write C (client_message C (stream_request ''io.systemd.inferenced1.StreamInference'' (Some (exec_params model p)))) = Ok ()"
    and ag: "\<And>tok c. agree J C (reply_streaming (JObj [(''chunk'', JStr tok)]) c)" and p: "p = exec_prompt arg stdin"
  shows "concat (fst (run_exec T C (Some (concat (handle_stream_inference J (Some (exec_params model p))) @ rest)) path model arg stdin quiet))
    = ''Inference: Analyzing prompt '' @ CHR 0x27 # p @ CHR 0x27 # ''. Execution dispatched via systemd-inferenced.'' @ [nl]"
proof -
  let ?params = "Some (exec_params model p)"
  let ?rs = "map (\<lambda>(i, tok). reply_streaming (JObj [(''chunk'', JStr tok)]) (i < length (stream_tokens ?params) - 1)) (enumerate 0 (stream_tokens ?params))"
  have toks: "stream_tokens ?params = [''Inference: '', ''Analyzing prompt '' @ [CHR 0x27], p,
      CHR 0x27 # ''. Execution dispatched via systemd-inferenced.'']"
    by (simp add: stream_tokens_def exec_params_def get_str_def json_get_def as_str_def or_else_def)
  have rs: "?rs = [reply_streaming (JObj [(''chunk'', JStr ''Inference: '')]) True,
      reply_streaming (JObj [(''chunk'', JStr (''Analyzing prompt '' @ [CHR 0x27]))]) True, reply_streaming (JObj [(''chunk'', JStr p)]) True,
      reply_streaming (JObj [(''chunk'', JStr (CHR 0x27 # ''. Execution dispatched via systemd-inferenced.''))]) False]"
    unfolding toks by simp
  have "streamed ?rs" unfolding rs by (simp add: reply_streaming_def)
  moreover have "\<And>r. r \<in> set ?rs \<Longrightarrow> agree J C r" using ag by auto
  ultimately have "stream_replies C (concat (map (to_bytes J) ?rs) @ rest) = (map reply_json ?rs, Ok (), rest)" by (rule stream_all)
  then have st: "stream_call C ''io.systemd.inferenced1.StreamInference'' ?params (concat (handle_stream_inference J ?params) @ rest)
      = (map reply_json ?rs, Ok (), rest)"
    using assms(1) unfolding stream_replies_of by (simp add: stream_call_def)
  have chunk: "message_chunk (reply_json (reply_streaming (JObj [(''chunk'', JStr t)]) c)) = [t]" for t c
    by (simp add: message_chunk_def reply_json_def reply_streaming_def json_get_def get_str_def as_str_def)
  have "concat (map message_chunk (map reply_json ?rs)) = stream_tokens ?params" unfolding rs toks by (simp add: chunk)
  then show ?thesis using st toks by (simp add: run_exec_def p [symmetric] Let_def)
qed

text \<open>Pinning and evicting report success also when there is no daemon to do it.\<close>

lemma offline_success:
  "snd (snd (run_pin T C None i plane)) = Ok ()" "snd (snd (run_evict T C None i)) = Ok ()"
  by (simp_all add: run_pin_def run_evict_def quietly_def Let_def)

end
