(* ===== verification/Tooling.thy ===== *)
theory Tooling
  imports Ctl
begin

text \<open>
  The remaining commands of the command line tool (\<^verbatim>\<open>crates/inferenctl/src/cmd/tooling.rs\<close>):
  shell completions, the manual page and the benchmark, and the dispatch of all commands
  (\<^verbatim>\<open>main.rs\<close>).
\<close>

section \<open>Shell completions\<close>

definition bash_completion :: string where
  "bash_completion = join_lines
    [''# bash completion for inferenctl'',
     ''_inferenctl() {'',
     ''    local cur prev words cword'',
     ''    _init_completion || return'',
     ''    local commands='' @ CHR 0x22 # ''status planes leases monitor exec freeze thaw register warm pin evict models cat-config check-config dump inspect test-triage benchmark completions man'' @ [CHR 0x22],
     ''    if [[ $cword -eq 1 ]]; then'',
     ''        COMPREPLY=( $(compgen -W '' @ CHR 0x22 # ''$commands'' @ CHR 0x22 # '' -- '' @ CHR 0x22 # ''$cur'' @ CHR 0x22 # '') )'',
     ''        return 0'',
     ''    fi'',
     ''}'',
     ''complete -F _inferenctl inferenctl'']"

definition zsh_line :: "string \<times> string \<Rightarrow> string" where
  "zsh_line e = ''        '' @ CHR 0x27 # fst e @ CHR '':'' # snd e @ [CHR 0x27]"

definition zsh_completion :: string where
  "zsh_completion = join_lines (
    [''#compdef inferenctl'', ''_inferenctl() {'', ''    local -a commands'', ''    commands=(''] @ map zsh_line
    [(''status'', ''Show AI compute status and active leases''),
     (''planes'', ''List discovered compute planes''),
     (''leases'', ''List active compute slice leases''),
     (''monitor'', ''Live monitor of hardware pressure and bus saturation''),
     (''exec'', ''Unix stream filter for model inference''),
     (''freeze'', ''Freeze a compute lease''),
     (''thaw'', ''Thaw a compute lease''),
     (''models'', ''List registered models''),
     (''register'', ''Register a model''),
     (''warm'', ''Warm model weights in memory''),
     (''pin'', ''Pin model for emergency triage''),
     (''evict'', ''Evict model from active memory''),
     (''cat-config'', ''Print configuration''),
     (''check-config'', ''Validate configuration syntax''),
     (''dump'', ''Dump internal state as JSON''),
     (''inspect'', ''Inspect compute plane details''),
     (''test-triage'', ''Synthetic Sentry diagnostic ping''),
     (''benchmark'', ''Benchmark IPC and lease throughput''),
     (''completions'', ''Generate shell completions''),
     (''man'', ''Generate man page'')] @
    [''    )'', ''    _describe '' @ CHR 0x27 # ''command'' @ CHR 0x27 # '' commands'', ''}'',
     ''_inferenctl '' @ CHR 0x22 # ''$@'' @ [CHR 0x22]])"

definition fish_line :: "string \<times> string \<Rightarrow> string" where
  "fish_line e = ''complete -c inferenctl -n '' @ CHR 0x22 # ''__fish_use_subcommand'' @ CHR 0x22 # '' -a '' @ CHR 0x22 # fst e
     @ CHR 0x22 # '' -d '' @ CHR 0x22 # snd e @ [CHR 0x22]"

definition fish_completion :: string where
  "fish_completion = join_lines ([''# fish completion for inferenctl'', ''complete -c inferenctl -f''] @ map fish_line
    [(''status'', ''Display daemon operational health and compute planes''),
     (''planes'', ''List discovered compute planes and memory pools''),
     (''leases'', ''Display active resource leases''),
     (''monitor'', ''Stream real-time Linux PSI pressure''),
     (''exec'', ''Composable Unix stream filter''),
     (''freeze'', ''Freeze an active compute lease''),
     (''thaw'', ''Resume a frozen compute lease''),
     (''models'', ''List registered models''),
     (''register'', ''Register a local model file''),
     (''warm'', ''Pre-fault and warm model pages''),
     (''pin'', ''Pin a model for emergency triage''),
     (''evict'', ''Evict a model from accelerator memory''),
     (''cat-config'', ''Print parsed global configuration''),
     (''check-config'', ''Validate configuration syntax''),
     (''dump'', ''Dump complete internal state as JSON''),
     (''inspect'', ''Inspect compute plane attributes''),
     (''test-triage'', ''Send synthetic Sentry diagnostic ping''),
     (''benchmark'', ''Execute throughput and latency benchmarks''),
     (''completions'', ''Generate shell completion scripts''),
     (''man'', ''Output man page in troff format'')])"

definition run_completions :: "string \<Rightarrow> ctl_output" where
  "run_completions shell =
     (let s = to_ascii_lowercase shell in
      if s = ''bash'' then quietly [println bash_completion]
      else if s = ''zsh'' then quietly [println zsh_completion]
      else if s = ''fish'' then quietly [println fish_completion]
      else ([], [println (''Unsupported shell: '' @ shell @ ''. Supported shells: bash, zsh, fish'')], Ok ()))"

section \<open>Manual page\<close>

definition troff_bold :: "string \<Rightarrow> string" where
  "troff_bold s = CHR 0x5C # ''fB'' @ s @ CHR 0x5C # ''fR''"

definition troff_italic :: "string \<Rightarrow> string" where
  "troff_italic s = CHR 0x5C # ''fI'' @ s @ CHR 0x5C # ''fR''"

definition man_page :: string where
  "man_page = join_lines
    [''.TH INFERENCTL 1 '' @ [CHR 0x22] @ ''September 2026'' @ [CHR 0x22] @ '' '' @ [CHR 0x22] @ ''systemd-inferenced 0.1.0'' @ [CHR 0x22] @ '' '' @ [CHR 0x22] @ ''User Commands'' @ [CHR 0x22],
     ''.SH NAME'',
     ''inferenctl '' @ [CHR 0x5C] @ ''- Control and inspect systemd-inferenced hardware arbitration'',
     ''.SH SYNOPSIS'',
     ''.B inferenctl ['' @ troff_italic ''OPTIONS'' @ ''] '' @ troff_italic ''COMMAND'' @ '' ['' @ troff_italic ''ARGS'' @ '']'',
     ''.SH DESCRIPTION'',
     troff_bold ''inferenctl'' @ '' communicates with '' @ troff_bold ''systemd-inferenced'' @ '' over Varlink IPC'',
     ''to manage compute slice leases, monitor memory bus saturation, and stream'',
     ''zero-copy inference filters.'',
     ''.SH COMMANDS'',
     ''.TP'',
     troff_bold ''status'' @ '', '' @ troff_bold ''planes'' @ '', '' @ troff_bold ''leases'' @ '', '' @ troff_bold ''monitor'',
     ''Hardware topology discovery, active compute leases, and live PSI monitoring.'',
     ''.TP'',
     troff_bold ''exec'' @ '' '' @ troff_italic ''MODEL'' @ '' ['' @ troff_italic ''PROMPT'' @ '']'',
     ''Composable Unix stream filter: read prompt from stdin, stream tokens to stdout.'',
     ''.TP'',
     troff_bold ''freeze'' @ '', '' @ troff_bold ''thaw'' @ '' '' @ troff_italic ''LEASE_ID'',
     ''Freeze and resume compute slice execution via cgroup.freeze or SIGSTOP.'',
     ''.TP'',
     troff_bold ''models'' @ '', '' @ troff_bold ''register'' @ '', '' @ troff_bold ''warm'' @ '', '' @ troff_bold ''pin'' @ '', '' @ troff_bold ''evict'',
     ''Model lifecycle: registration, pre-faulting (madvise), pinning, and memory eviction.'',
     ''.TP'',
     troff_bold ''cat-config'' @ '', '' @ troff_bold ''check-config'' @ '', '' @ troff_bold ''dump'' @ '', '' @ troff_bold ''inspect'',
     ''Configuration parsing, validation, full state dumping, and plane attribute inspection.'',
     ''.TP'',
     troff_bold ''test-triage'' @ '', '' @ troff_bold ''benchmark'',
     ''Synthetic Sentry emergency triage verification ping and IPC throughput benchmark.'',
     ''.TP'',
     troff_bold ''completions'' @ '', '' @ troff_bold ''man'',
     ''Shell tab-completion generation (bash, zsh) and troff man page output.'',
     ''.SH AUTHORS'',
     ''systemd-inferenced contributors.'']"

definition run_man :: ctl_output where
  "run_man = quietly [println man_page]"

section \<open>Benchmark\<close>

text \<open>The debug form of a duration in nanoseconds: a decimal number without trailing zeros and a unit.\<close>

definition trim_zeros :: "string \<Rightarrow> string" where
  "trim_zeros s = rev (dropWhile (\<lambda>c. c = CHR ''0'') (rev s))"

definition decimal :: "nat \<Rightarrow> nat \<Rightarrow> nat \<Rightarrow> string" where
  "decimal whole part digits = show_nat whole @ (if part = 0 then [] else ''.'' @ trim_zeros (pad_left digits (show_nat part)))"

definition duration_debug :: "nat \<Rightarrow> string" where
  "duration_debug ns =
     (if 1000000000 \<le> ns then decimal (ns div 1000000000) (ns mod 1000000000) 9 @ ''s''
      else if 1000000 \<le> ns then decimal (ns div 1000000) (ns mod 1000000) 6 @ ''ms''
      else if 1000 \<le> ns then decimal (ns div 1000) (ns mod 1000) 3 @ CHR 0xC2 # CHR 0xB5 # ''s''
      else show_nat ns @ ''ns'')"

definition f64_of_nat :: "nat \<Rightarrow> rat" where
  "f64_of_nat n = f64_round (of_nat n)"

text \<open>Division of floats that are not negative.\<close>

definition f64_div :: "rat \<Rightarrow> rat \<Rightarrow> float_value" where
  "f64_div x y = (if y = 0 then (if x = 0 then NaN else Inf) else Fin (f64_round (x / y)))"

definition as_secs_f64 :: "nat \<Rightarrow> rat" where
  "as_secs_f64 ns = f64_round (f64_of_nat (ns div 1000000000) + f64_round (of_nat (ns mod 1000000000) / 1000000000))"

definition avg_us :: "nat \<Rightarrow> nat \<Rightarrow> float_value" where
  "avg_us elapsed n = f64_div (f64_of_nat (elapsed div 1000)) (f64_of_nat n)"

definition ops_per_sec :: "nat \<Rightarrow> nat \<Rightarrow> float_value" where
  "ops_per_sec elapsed n = f64_div (f64_of_nat ((n * 2) mod 2 ^ 64)) (as_secs_f64 elapsed)"

text \<open>What the benchmark meets: the time of each of its two loops, the runtime, and per turn
  of the in-process loop the pressure, the new identifier and the clock.\<close>

record bench_env =
  b_elapsed1 :: nat
  b_elapsed2 :: nat
  b_runtime :: "(string, unit) result"
  b_psi :: "nat \<Rightarrow> pressure_metrics"
  b_id :: "nat \<Rightarrow> lease_id"
  b_now :: "nat \<Rightarrow> timestamp"

text \<open>The loops over a connection stop at the first failing call.\<close>

fun bench_ping :: "client_lib \<Rightarrow> nat \<Rightarrow> string \<Rightarrow> (string, unit) result \<times> string" where
  "bench_ping C 0 inp = (Ok (), inp)"
| "bench_ping C (Suc n) inp =
     (case run_request C ctl_get_pressure inp of
        (Err e, rest) \<Rightarrow> (Err e, rest)
      | (Ok _, rest) \<Rightarrow> bench_ping C n rest)"

fun bench_leases :: "client_lib \<Rightarrow> nat \<Rightarrow> string \<Rightarrow> (string, unit) result \<times> string" where
  "bench_leases C 0 inp = (Ok (), inp)"
| "bench_leases C (Suc n) inp =
     (case run_request C (ctl_acquire_lease ''Interactive'' (1024 * 1024) None) inp of
        (Err e, rest) \<Rightarrow> (Err e, rest)
      | (Ok lease, rest) \<Rightarrow>
          (case get_str ''lease_id'' lease of
             None \<Rightarrow> bench_leases C n rest
           | Some i \<Rightarrow>
               (case run_request C (ctl_release_lease i) rest of
                  (Err e, rest') \<Rightarrow> (Err e, rest')
                | (Ok _, rest') \<Rightarrow> bench_leases C n rest')))"

text \<open>The in-process loop on an arbiter of its own; \<open>k\<close> counts the turns.\<close>

fun bench_arbiter :: "text_lib \<Rightarrow> bench_env \<Rightarrow> nat \<Rightarrow> nat \<Rightarrow> arbiter_state \<Rightarrow> arbiter_state" where
  "bench_arbiter L B k 0 st = st"
| "bench_arbiter L B k (Suc n) st =
     (case acquire_lease (b_psi B k) (b_id B k) (b_now B k) Interactive (1024 * 1024) None None None st of
        (Ok l, st', _) \<Rightarrow> bench_arbiter L B (Suc k) n (snd (release_lease L (l_id l) st'))
      | (Err _, st', _) \<Rightarrow> bench_arbiter L B (Suc k) n st')"

definition calls_line :: "string \<Rightarrow> nat \<Rightarrow> nat \<Rightarrow> string" where
  "calls_line label n elapsed = println (''  '' @ label @ '' ('' @ show_nat n @ '' calls): total '' @ duration_debug elapsed
     @ '', avg '' @ fmt_float 2 (avg_us elapsed n) @ '' '' @ CHR 0xC2 # CHR 0xB5 # ''s/call'')"

definition ops_line :: "string \<Rightarrow> nat \<Rightarrow> nat \<Rightarrow> string" where
  "ops_line label n elapsed = println (''  '' @ label @ '': '' @ fmt_float 0 (ops_per_sec elapsed n) @ '' ops/sec ('' @ duration_debug elapsed @ '')'')"

text \<open>
  The final state of the in-process arbiter is dropped with it and does not appear in the
  output; \<open>bench_arbiter\<close> says what it is.
\<close>

definition run_benchmark :: "term_lib \<Rightarrow> client_lib \<Rightarrow> text_lib \<Rightarrow> os \<Rightarrow> bench_env \<Rightarrow> link \<Rightarrow> nat \<Rightarrow> ctl_output" where
  "run_benchmark T C L h B l n =
     (let intro = println (paint T [''bold''] ''Benchmarking systemd-inferenced IPC & Scheduler...'') in
      case l of
        Some inp \<Rightarrow>
          (case bench_ping C n inp of
             (Err e, _) \<Rightarrow> ([intro], [], Err e)
           | (Ok _, rest) \<Rightarrow>
               (case bench_leases C n rest of
                  (Err e, _) \<Rightarrow> ([intro, calls_line ''Varlink IPC Ping'' n (b_elapsed1 B)], [], Err e)
                | (Ok _, _) \<Rightarrow> quietly [intro, calls_line ''Varlink IPC Ping'' n (b_elapsed1 B),
                      ops_line ''Lease Lifecycle Throughput'' n (b_elapsed2 B)]))
      | None \<Rightarrow>
          let offline = println ''  (Daemon offline; running in-process arbiter benchmark)'' in
          (case b_runtime B of
             Err e \<Rightarrow> ([intro, offline], [], Err e)
           | Ok _ \<Rightarrow> quietly [intro, offline, calls_line ''Local PSI Sampling'' n (b_elapsed1 B),
                 ops_line ''In-Memory Arbiter Throughput'' n (b_elapsed2 B)]))"

section \<open>Dispatch\<close>

text \<open>What a command reads from the outside.\<close>

record ctl_world =
  w_term :: term_lib
  w_client :: client_lib
  w_text :: text_lib
  w_os :: os
  w_psi :: pressure_metrics
  w_link :: link
  w_round :: "nat \<Rightarrow> link \<times> pressure_metrics"
  w_triage :: triage_link
  w_stdin :: "string option"
  w_toml :: "string \<Rightarrow> (string, string option) result"
  w_io_error :: string
  w_bench :: bench_env

definition ctl_main :: "ctl_world \<Rightarrow> ctl_cli \<Rightarrow> ctl_output" where
  "ctl_main W c =
     (let T = w_term W; C = w_client W; l = w_link W in
      case o_command c of
        CStatus \<Rightarrow> run_status T C (w_os W) (w_psi W) l (o_socket c) (o_json c)
      | CPlanes \<Rightarrow> run_planes T C (w_os W) l (o_socket c) (o_json c)
      | CLeases \<Rightarrow> run_leases T C l (o_socket c) (o_json c)
      | CMonitor n \<Rightarrow> run_monitor T C (w_round W) n
      | CExec model prompt \<Rightarrow> run_exec T C l (o_socket c) model prompt (w_stdin W) (o_quiet c)
      | CFreeze i \<Rightarrow> run_freeze T C l (o_socket c) i
      | CThaw i \<Rightarrow> run_thaw T C l (o_socket c) i
      | CModels \<Rightarrow> run_models T C l (o_json c)
      | CRegister i fmt path bytes \<Rightarrow> run_register T C l i fmt path bytes
      | CWarm i \<Rightarrow> run_warm T C l i
      | CPin i plane arg \<Rightarrow> run_pin T C l i (case plane of Some p \<Rightarrow> Some p | None \<Rightarrow> arg)
      | CEvict i \<Rightarrow> run_evict T C l i
      | CCatConfig \<Rightarrow> run_cat_config T (w_os W) (o_config c)
      | CCheckConfig \<Rightarrow> run_check_config T (w_toml W) (w_os W) (w_io_error W) (o_config c)
      | CDump \<Rightarrow> run_dump T C l (o_socket c)
      | CInspect p \<Rightarrow> run_inspect T C (w_os W) l p (o_json c)
      | CTestTriage \<Rightarrow> run_test_triage T (w_os W) (w_triage W) (o_sentry_socket c) (o_quiet c)
      | CBenchmark n \<Rightarrow> run_benchmark T C (w_text W) (w_os W) (w_bench W) l n
      | CCompletions s \<Rightarrow> run_completions s
      | CMan \<Rightarrow> run_man)"

section \<open>Completions are complete\<close>

text \<open>The name under which the argument parser knows a command.\<close>

fun command_name :: "commands \<Rightarrow> string" where
  "command_name CStatus = ''status''"
| "command_name CPlanes = ''planes''"
| "command_name CLeases = ''leases''"
| "command_name (CMonitor _) = ''monitor''"
| "command_name (CExec _ _) = ''exec''"
| "command_name (CFreeze _) = ''freeze''"
| "command_name (CThaw _) = ''thaw''"
| "command_name CModels = ''models''"
| "command_name (CRegister _ _ _ _) = ''register''"
| "command_name (CWarm _) = ''warm''"
| "command_name (CPin _ _ _) = ''pin''"
| "command_name (CEvict _) = ''evict''"
| "command_name CCatConfig = ''cat-config''"
| "command_name CCheckConfig = ''check-config''"
| "command_name CDump = ''dump''"
| "command_name (CInspect _) = ''inspect''"
| "command_name CTestTriage = ''test-triage''"
| "command_name (CBenchmark _) = ''benchmark''"
| "command_name (CCompletions _) = ''completions''"
| "command_name CMan = ''man''"

text \<open>What a shell offers after reading its script: the words of the variable that \<open>compgen\<close> is
  given, the names before the colons of the described list, the arguments of \<open>-a\<close>.\<close>

definition bash_offers :: "string \<Rightarrow> string list" where
  "bash_offers script = concat (map (\<lambda>l. case strip_prefix (''    local commands='' @ [CHR 0x22]) l of
      Some r \<Rightarrow> split_whitespace (takeWhile (\<lambda>c. c \<noteq> CHR 0x22) r) | None \<Rightarrow> []) (str_lines script))"

definition zsh_offers :: "string \<Rightarrow> string list" where
  "zsh_offers script = concat (map (\<lambda>l. case strip_prefix (''        '' @ [CHR 0x27]) l of
      Some r \<Rightarrow> [takeWhile (\<lambda>c. c \<noteq> CHR '':'') r] | None \<Rightarrow> []) (str_lines script))"

definition fish_offers :: "string \<Rightarrow> string list" where
  "fish_offers script = concat (map (\<lambda>l.
      case strip_prefix (''complete -c inferenctl -n '' @ CHR 0x22 # ''__fish_use_subcommand'' @ CHR 0x22 # '' -a '' @ [CHR 0x22]) l of
        Some r \<Rightarrow> [takeWhile (\<lambda>c. c \<noteq> CHR 0x22) r] | None \<Rightarrow> []) (str_lines script))"

definition all_names :: "string list" where
  "all_names = [''status'', ''planes'', ''leases'', ''monitor'', ''exec'', ''freeze'', ''thaw'', ''models'', ''register'', ''warm'',
     ''pin'', ''evict'', ''cat-config'', ''check-config'', ''dump'', ''inspect'', ''test-triage'', ''benchmark'', ''completions'', ''man'']"

lemma command_names: "range command_name = set all_names"
proof
  show "range command_name \<subseteq> set all_names"
  proof
    fix n assume "n \<in> range command_name"
    then obtain c where "n = command_name c" by blast
    then show "n \<in> set all_names" by (cases c) (simp_all add: all_names_def)
  qed
  have "map command_name [CStatus, CPlanes, CLeases, CMonitor 0, CExec [] None, CFreeze [], CThaw [], CModels, CRegister [] [] None 0,
      CWarm [], CPin [] None None, CEvict [], CCatConfig, CCheckConfig, CDump, CInspect [], CTestTriage, CBenchmark 0, CCompletions [], CMan] = all_names"
    by (simp add: all_names_def)
  from arg_cong [OF this, of set] show "set all_names \<subseteq> range command_name" unfolding set_map by blast
qed

lemma lines_of_join: "list_all (\<lambda>l. nl \<notin> set l \<and> cr \<notin> set l) ls \<Longrightarrow> str_lines (join_lines ls) = ls"
  by (rule str_lines_join) (auto simp: list_all_iff)

lemma shell_offers:
  "set (bash_offers bash_completion) = set all_names" "zsh_offers zsh_completion = all_names" "fish_offers fish_completion = all_names"
proof -
  show "set (bash_offers bash_completion) = set all_names"
    unfolding bash_offers_def bash_completion_def by (subst lines_of_join) code_simp+
  show "zsh_offers zsh_completion = all_names"
    unfolding zsh_offers_def zsh_completion_def by (subst lines_of_join) code_simp+
  show "fish_offers fish_completion = all_names"
    unfolding fish_offers_def fish_completion_def by (subst lines_of_join) code_simp+
qed

text \<open>Shell completion knows every command. For each supported shell, whatever the case of its
  name, the script printed offers exactly the commands of the tool; for any other shell nothing
  is printed but a message on standard error.\<close>

theorem completions_offer_all_commands:
  assumes "to_ascii_lowercase shell = sh"
  shows "(sh = ''bash'' \<longrightarrow> (\<exists>script. run_completions shell = quietly [println script] \<and> set (bash_offers script) = range command_name))
    \<and> (sh = ''zsh'' \<longrightarrow> (\<exists>script. run_completions shell = quietly [println script] \<and> set (zsh_offers script) = range command_name))
    \<and> (sh = ''fish'' \<longrightarrow> (\<exists>script. run_completions shell = quietly [println script] \<and> set (fish_offers script) = range command_name))
    \<and> (sh \<notin> {''bash'', ''zsh'', ''fish''} \<longrightarrow> fst (run_completions shell) = [] \<and> fst (snd (run_completions shell)) \<noteq> [])"
  using assms shell_offers command_names by (auto simp: run_completions_def)

theorem completions_offer_all_commands_witness:
  "\<exists>script. run_completions ''Fish'' = quietly [println script] \<and> set (fish_offers script) = range command_name"
proof -
  have "to_ascii_lowercase ''Fish'' = ''fish''" by code_simp
  from completions_offer_all_commands [OF this] show ?thesis by simp
qed

section \<open>The in-process benchmark\<close>

definition bench_room :: "hardware_topology \<Rightarrow> bool" where
  "bench_room t \<longleftrightarrow> (\<forall>p \<in> set (planes t). is_cpu_plane p \<longrightarrow> 1024 * 1024 \<le> p_available p)"

lemma no_candidates:
  assumes "leases_ok (leases st)" and "all_over st"
  shows "preemptable (leases st) plane pr = []"
proof -
  have "\<not> is_active l" if "l \<in> set (hm_values (leases st))" for l
    using that assms by (auto simp: hm_values_def leases_ok_def hm_get_Some_iff all_over_def is_active_def)
  then have "filter (\<lambda>l. l_plane_id l = plane \<and> is_active l \<and> l_priority l < pr) (hm_values (leases st)) = []"
    by (auto simp: filter_empty_conv)
  then show ?thesis by (simp add: preemptable_def)
qed

text \<open>One turn of the loop leaves the topology as it was and every lease expired.\<close>

lemma bench_turn:
  assumes inv: "arbiter_inv st" and over: "all_over st" and room: "bench_room (topology st)" and fresh: "hm_get (leases st) i = None"
    and a: "acquire_lease psi i now Interactive (1024 * 1024) None None None st = (r, st', fx)"
  shows "(case r of
      Ok l \<Rightarrow> topology (snd (release_lease L (l_id l) st')) = topology st \<and> all_over (snd (release_lease L (l_id l) st'))
        \<and> l_id l = i \<and> (\<forall>j. j \<noteq> i \<longrightarrow> hm_get (leases st) j = None \<longrightarrow> hm_get (leases (snd (release_lease L i st'))) j = None)
    | Err _ \<Rightarrow> st' = st)"
  using a
proof (cases rule: acquire_cases)
  case (exhausted idx plane t1 ls1 fz)
  have "leases_ok (leases st)" using inv by (simp add: arbiter_inv_def)
  then show ?thesis using exhausted no_candidates [OF _ over] by simp
next
  case (granted idx plane t1 ls1 fz lease)
  have ok: "leases_ok (leases st)" and c: "core (topology st) (leases st)"
    using inv by (simp_all add: arbiter_inv_def core_def)
  then have loop: "t1 = topology st" "ls1 = leases st" using granted(4) no_candidates [OF ok over] by simp_all
  have idx: "idx < length (planes (topology st))" by (rule select_plane_Ok [OF granted(2)])
  have own: "plane_of (topology st) plane = Some (planes (topology st) ! idx)"
    using plane_of_nth [OF core_ids [OF c] idx] granted(3) by simp
  have l: "l_id lease = i" "l_plane_id lease = plane" using granted(6) by (simp_all add: new_lease_def)
  have acq: "acquire_lease psi i now Interactive (1024 * 1024) None None None st = (Ok lease, st', fx)" using a granted(7) by simp
  have fits: "1024 * 1024 \<le> p_available p" if t: "touched (topology st) (l_plane_id lease) q" and p: "plane_of (topology st) q = Some p" for q p
  proof (cases "q = plane")
    case True
    then show ?thesis using p own granted(5) loop(1) by simp
  next
    case False
    with t l have "first_cpu (topology st) = Some q" by (simp add: touched_def)
    then have "p \<in> set (planes (topology st))" "is_cpu_plane p"
      using p core_ids [OF c] by (auto simp: first_cpu_def plane_of_Some_iff dest!: find_SomeD) (metis distinct_map ids_distinct_def inj_onD)+
    then show ?thesis using room by (auto simp: bench_room_def)
  qed
  have spec: "topology (snd (release_lease L i st')) = topology st"
    using acquire_release_spec [OF inv fresh acq _ prod.collapse [symmetric], of L] fits by blast
  let ?st = "snd (release_lease L i st')"
  have get: "hm_get (leases ?st) j = (if j = i then Some (lease\<lparr>l_state := Expired\<rparr>) else hm_get (prune_leases (leases st)) j)" for j
    using granted(8) loop(2) by (auto simp: release_lease_def end_lease_def granted(6) new_lease_def is_active_def set_state_get)
  have prune: "hm_get (prune_leases (leases st)) j = Some m \<Longrightarrow> hm_get (leases st) j = Some m"
    "hm_get (leases st) j = None \<Longrightarrow> hm_get (prune_leases (leases st)) j = None" for j m
    using prune_get [OF core_wf [OF c]] by (auto split: option.splits if_splits)
  have "all_over ?st"
    unfolding all_over_def
  proof (intro allI impI)
    fix j m assume "hm_get (leases ?st) j = Some m"
    then show "l_state m = Expired" using get [of j] over prune(1) [of j m] by (auto simp: all_over_def split: if_splits)
  qed
  then show ?thesis using granted(7) spec l get prune by simp
qed simp_all

lemma bench_arbiter_idle:
  assumes "arbiter_inv st" and "all_over st" and "bench_room (topology st)" and "inj_on (b_id B) {k ..< k + n}"
    and "\<forall>j \<in> {k ..< k + n}. hm_get (leases st) (b_id B j) = None"
  shows "topology (bench_arbiter L B k n st) = topology st \<and> all_over (bench_arbiter L B k n st)"
  using assms
proof (induction n arbitrary: k st)
  case (Suc n)
  let ?i = "b_id B k"
  obtain r st' fx where a: "acquire_lease (b_psi B k) ?i (b_now B k) Interactive (1024 * 1024) None None None st = (r, st', fx)"
    by (metis prod_cases3)
  have fresh: "hm_get (leases st) ?i = None" using Suc.prems(5) by simp
  note turn = bench_turn [OF Suc.prems(1,2,3) fresh a]
  have later: "b_id B j \<noteq> ?i" if "j \<in> {Suc k ..< Suc k + n}" for j using that inj_onD [OF Suc.prems(4), of j k] by auto
  have inj: "inj_on (b_id B) {Suc k ..< Suc k + n}" by (rule inj_on_subset [OF Suc.prems(4)]) auto
  show ?case
  proof (cases r)
    case (Inl e)
    then have "st' = st" using turn by simp
    with Inl a Suc.IH [OF Suc.prems(1-3) inj] Suc.prems(5) show ?thesis by simp
  next
    case (Inr l)
    let ?st = "snd (release_lease L (l_id l) st')"
    have "arbiter_inv st'"
      using guarded_step_inv [OF Suc.prems(1), of "\<lambda>_ _. True" L st'] guarded_step.op [of "OpAcquire (b_psi B k) ?i (b_now B k) Interactive (1024 * 1024) None None None" st "\<lambda>_ _. True" L]
        a fresh by simp
    then have "arbiter_inv ?st" by (rule release_inv)
    moreover have "topology ?st = topology st" "all_over ?st" "\<forall>j \<in> {Suc k ..< Suc k + n}. hm_get (leases ?st) (b_id B j) = None"
      using turn [of L] Inr Suc.prems(5) later by auto
    ultimately show ?thesis using Suc.IH [of ?st "Suc k"] Suc.prems(3) inj Inr a by simp
  qed
qed simp

text \<open>C40: the in-process benchmark takes nothing from the topology it discovered. Whatever the pressure
  and however many turns, the arbiter it drives ends with that topology, every byte available
  again, and with no lease that is not expired. The CPU plane needs room for the megabyte of
  one lease.\<close>

theorem benchmark_leaves_host_idle:
  assumes "topo_ok t" and "bench_room t" and "inj_on (b_id B) {..< n}"
  shows "topology (bench_arbiter L B 0 n (new_arbiter t)) = t \<and> all_over (bench_arbiter L B 0 n (new_arbiter t))"
  using bench_arbiter_idle [where st = "new_arbiter t" and k = 0 and n = n and B = B and L = L] assms new_arbiter_inv [OF assms(1)]
  by (simp add: new_arbiter_def all_over_def lessThan_atLeast0)

definition ex_bench :: bench_env where
  "ex_bench = \<lparr>b_elapsed1 = 1500000, b_elapsed2 = 2000, b_runtime = Ok (), b_psi = (\<lambda>_. calm), b_id = (\<lambda>k. word_of_nat k), b_now = (\<lambda>_. 0)\<rparr>"

definition ex_bench_topology :: hardware_topology where
  "ex_bench_topology = \<lparr>planes = [ex_plane ''uma0'' IntegratedUma 8388608 8388608, ex_plane ''cpu0'' CpuMatrixExtension 4194304 8388608],
     total_ram = 16777216, available_ram = 8388608, cpu_cores_total = 4, numa_nodes = 1\<rparr>"

theorem benchmark_leaves_host_idle_witness:
  "topology (bench_arbiter ex_lib ex_bench 0 3 (new_arbiter ex_bench_topology)) = ex_bench_topology"
proof -
  have t: "topo_ok ex_bench_topology" "bench_room ex_bench_topology"
    by (simp_all add: topo_ok_def ids_distinct_def bounded_planes_def bench_room_def is_cpu_plane_def ex_bench_topology_def ex_plane_def)
  have "{..< 3} = {0, 1, 2 :: nat}" by auto
  then have "inj_on (b_id ex_bench) {..< 3}" by (simp add: ex_bench_def)
  from benchmark_leaves_host_idle [OF t this] show ?thesis by simp
qed

end
