(* ===== verification/Arbiter_Workers.thy ===== *)
theory Arbiter_Workers
  imports Lease_Service
begin

text \<open>
  Concurrent workers. The stress tests of the repository (\<^verbatim>\<open>qa/edge\<close>, \<^verbatim>\<open>qa/fuzz\<close>) spawn tasks
  that each acquire a lease and release it, all on one arbiter, and then inspect it. Here the
  tasks are a step relation in which any task may move next, so that a statement about its runs
  covers every schedule.
\<close>

section \<open>Tasks\<close>

text \<open>What a task asks for, with the pressure, identifier and time its request will see.\<close>

record job =
  j_psi :: pressure_metrics
  j_id :: lease_id
  j_now :: timestamp
  j_priority :: lease_priority
  j_bytes :: u64
  j_plane :: "string option"
  j_unit :: "string option"
  j_pid :: "u32 option"

datatype worker = Waiting | Working | Finished | Rejected

definition job_acquire :: "job \<Rightarrow> arbiter_state \<Rightarrow> (error, compute_lease) result \<times> arbiter_state \<times> effect list" where
  "job_acquire j = acquire_lease (j_psi j) (j_id j) (j_now j) (j_priority j) (j_bytes j) (j_plane j) (j_unit j) (j_pid j)"

inductive worker_step :: "text_lib \<Rightarrow> job list \<Rightarrow> worker list \<times> arbiter_state \<Rightarrow> worker list \<times> arbiter_state \<Rightarrow> bool"
  for L jobs where
  acquire: "k < length ws \<Longrightarrow> ws ! k = Waiting \<Longrightarrow> job_acquire (jobs ! k) st = (r, st', fx)
    \<Longrightarrow> worker_step L jobs (ws, st) (ws[k := (if isl r then Rejected else Working)], st')"
| release: "k < length ws \<Longrightarrow> ws ! k = Working \<Longrightarrow> release_lease L (j_id (jobs ! k)) st = (r, st')
    \<Longrightarrow> worker_step L jobs (ws, st) (ws[k := Finished], st')"

inductive_cases worker_stepE: "worker_step L jobs (ws, st) s'"

definition spawned :: "job list \<Rightarrow> arbiter_state \<Rightarrow> worker list \<times> arbiter_state" where
  "spawned jobs st = (replicate (length jobs) Waiting, st)"

section \<open>Enough memory\<close>

text \<open>The plane accepts the request of a task, apart from the question of memory.\<close>

definition admissible :: "compute_plane \<Rightarrow> job \<Rightarrow> bool" where
  "admissible p j \<longleftrightarrow> (level (j_psi j) \<noteq> Critical \<or> j_priority j = EmergencyTriage)
     \<and> (j_plane j = Some (p_id p) \<or> j_plane j = None \<and> (j_priority j = EmergencyTriage \<or> \<not> p_quarantined p \<and> \<not> p_triage_reserved p))"

definition held :: "job list \<Rightarrow> worker list \<Rightarrow> nat" where
  "held jobs ws = (\<Sum>k < length jobs. if ws ! k = Working then unat (j_bytes (jobs ! k)) else 0)"

definition wanted :: "job list \<Rightarrow> nat" where
  "wanted jobs = (\<Sum>k < length jobs. unat (j_bytes (jobs ! k)))"

fun moves :: "worker \<Rightarrow> nat" where
  "moves Waiting = 2"
| "moves Working = 1"
| "moves _ = 0"

definition to_do :: "worker list \<Rightarrow> nat" where
  "to_do ws = (\<Sum>k < length ws. moves (ws ! k))"

lemma select_single: "admissible p j \<Longrightarrow> p_id q = p_id p \<Longrightarrow> p_quarantined q = p_quarantined p \<Longrightarrow> p_triage_reserved q = p_triage_reserved p
    \<Longrightarrow> select_plane [q] (j_priority j) (j_plane j) = Ok 0"
  by (auto simp: admissible_def select_plane_def split: option.splits)

lemma wanted_sum_list: "wanted jobs = (\<Sum>j \<leftarrow> jobs. unat (j_bytes j))"
  by (simp add: wanted_def sum_list_sum_nth atLeast0LessThan)

lemma sum_update:
  fixes g h :: "nat \<Rightarrow> nat"
  assumes "k < n" and "\<And>i. i \<noteq> k \<Longrightarrow> h i = g i"
  shows "(\<Sum>i < n. h i) + g k = (\<Sum>i < n. g i) + h k"
proof -
  have "(\<Sum>i < n. h i) = h k + (\<Sum>i \<in> {..<n} - {k}. h i)" "(\<Sum>i < n. g i) = g k + (\<Sum>i \<in> {..<n} - {k}. g i)"
    using assms(1) by (simp_all add: sum.remove)
  moreover have "(\<Sum>i \<in> {..<n} - {k}. h i) = (\<Sum>i \<in> {..<n} - {k}. g i)" using assms(2) by (intro sum.cong) auto
  ultimately show ?thesis by simp
qed

lemma held_update:
  assumes "k < length jobs" and "length ws = length jobs"
  shows "held jobs (ws[k := w]) + (if ws ! k = Working then unat (j_bytes (jobs ! k)) else 0)
    = held jobs ws + (if w = Working then unat (j_bytes (jobs ! k)) else 0)"
  using sum_update [of k "length jobs" "\<lambda>i. if ws[k := w] ! i = Working then unat (j_bytes (jobs ! i)) else 0"
      "\<lambda>i. if ws ! i = Working then unat (j_bytes (jobs ! i)) else 0"] assms
  by (simp add: held_def)

lemma held_wanted:
  assumes "k < length jobs" and "ws ! k \<noteq> Working"
  shows "held jobs ws + unat (j_bytes (jobs ! k)) \<le> wanted jobs"
proof -
  have "wanted jobs = unat (j_bytes (jobs ! k)) + (\<Sum>i \<in> {..<length jobs} - {k}. unat (j_bytes (jobs ! i)))"
    "held jobs ws = (\<Sum>i \<in> {..<length jobs} - {k}. if ws ! i = Working then unat (j_bytes (jobs ! i)) else 0)"
    using assms by (simp_all add: wanted_def held_def sum.remove)
  moreover have "(\<Sum>i \<in> {..<length jobs} - {k}. if ws ! i = Working then unat (j_bytes (jobs ! i)) else 0)
      \<le> (\<Sum>i \<in> {..<length jobs} - {k}. unat (j_bytes (jobs ! i)))" by (intro sum_mono) simp
  ultimately show ?thesis by simp
qed

lemma to_do_update: "k < length ws \<Longrightarrow> to_do (ws[k := w]) + moves (ws ! k) = to_do ws + moves w"
  using sum_update [of k "length ws" "\<lambda>i. moves (ws[k := w] ! i)" "\<lambda>i. moves (ws ! i)"] by (simp add: to_do_def)

section \<open>Invariant\<close>

definition lease_of :: "compute_plane \<Rightarrow> job \<Rightarrow> compute_lease" where
  "lease_of p j = new_lease (j_id j) (j_now j) (p_id p) (j_bytes j) (j_priority j) (j_unit j) (j_pid j)"

text \<open>The plane has what it had at the start less what the tasks hold, each task's lease is in the
  table as the task believes, and all other leases are over.\<close>

definition workers_inv :: "hardware_topology \<Rightarrow> compute_plane \<Rightarrow> job list \<Rightarrow> worker list \<times> arbiter_state \<Rightarrow> bool" where
  "workers_inv t p jobs = (\<lambda>(ws, st).
     length ws = length jobs \<and> Rejected \<notin> set ws \<and> held jobs ws \<le> unat (p_available p)
     \<and> topology st = t\<lparr>planes := [p\<lparr>p_available := p_available p - of_nat (held jobs ws)\<rparr>]\<rparr>
     \<and> hm_wf (leases st) \<and> (\<forall>i l. hm_get (leases st) i = Some l \<longrightarrow> i \<in> j_id ` set jobs \<or> l_state l = Expired)
     \<and> (\<forall>k < length jobs. case ws ! k of
          Waiting \<Rightarrow> hm_get (leases st) (j_id (jobs ! k)) = None
        | Working \<Rightarrow> hm_get (leases st) (j_id (jobs ! k)) = Some (lease_of p (jobs ! k))
        | _ \<Rightarrow> hm_get (leases st) (j_id (jobs ! k)) \<in> {None, Some (lease_of p (jobs ! k)\<lparr>l_state := Expired\<rparr>)}))"

lemma workers_invD:
  assumes "workers_inv t p jobs (ws, st)"
  shows "length ws = length jobs" "Rejected \<notin> set ws" "held jobs ws \<le> unat (p_available p)"
    "topology st = t\<lparr>planes := [p\<lparr>p_available := p_available p - of_nat (held jobs ws)\<rparr>]\<rparr>" "hm_wf (leases st)"
    "\<forall>i l. hm_get (leases st) i = Some l \<longrightarrow> i \<in> j_id ` set jobs \<or> l_state l = Expired"
    "k < length jobs \<Longrightarrow> (case ws ! k of
          Waiting \<Rightarrow> hm_get (leases st) (j_id (jobs ! k)) = None
        | Working \<Rightarrow> hm_get (leases st) (j_id (jobs ! k)) = Some (lease_of p (jobs ! k))
        | _ \<Rightarrow> hm_get (leases st) (j_id (jobs ! k)) \<in> {None, Some (lease_of p (jobs ! k)\<lparr>l_state := Expired\<rparr>)})"
  using assms by (simp_all add: workers_inv_def)

lemma worker_acquire:
  assumes inv: "workers_inv t p jobs (ws, st)" and adm: "\<forall>j \<in> set jobs. admissible p j" and ids: "distinct (map j_id jobs)"
    and room: "wanted jobs \<le> unat (p_available p)" and k: "k < length jobs" "ws ! k = Waiting"
    and a: "job_acquire (jobs ! k) st = (r, st', fx)"
  shows "r = Ok (lease_of p (jobs ! k)) \<and> workers_inv t p jobs (ws[k := Working], st')"
proof -
  let ?j = "jobs ! k" and ?h = "held jobs ws"
  let ?q = "p\<lparr>p_available := p_available p - of_nat ?h\<rparr>"
  note i = workers_invD [OF inv]
  have adm': "admissible p ?j" using adm k(1) by simp
  have small: "?h < 2 ^ 64" using i(3) unsigned_less [of "p_available p", where 'a = nat] by simp
  then have "unat (of_nat ?h :: u64) = ?h" by (simp add: unat_of_nat)
  then have left: "unat (p_available ?q) = unat (p_available p) - ?h" using i(3) by (simp add: unat_sub_if')
  have "?h + unat (j_bytes ?j) \<le> unat (p_available p)" using held_wanted [OF k(1), of ws] k(2) room by simp
  then have fits: "j_bytes ?j \<le> p_available ?q" using left by (simp add: word_le_nat_alt)
  then have short: "p_available p - of_nat ?h < j_bytes ?j \<longleftrightarrow> False" by (simp add: not_less)
  have sel: "select_plane (planes (topology st)) (j_priority ?j) (j_plane ?j) = Ok 0"
    unfolding i(4) by (simp add: select_single [OF adm'])
  have calm: "\<not> (level (j_psi ?j) = Critical \<and> j_priority ?j \<noteq> EmergencyTriage)" using adm' by (auto simp: admissible_def)
  have res: "r = Ok (lease_of p ?j)" "st' = st\<lparr>topology := charge_at 0 (j_bytes ?j) (topology st), leases := hm_insert (j_id ?j) (lease_of p ?j) (prune_leases (leases st))\<rparr>"
    using a calm sel short by (auto simp: job_acquire_def acquire_lease_def i(4) lease_of_def Let_def)
  have h': "held jobs (ws[k := Working]) = ?h + unat (j_bytes ?j)" using held_update [OF k(1) i(1), of Working] k(2) by simp
  have "charge_at 0 (j_bytes ?j) (topology st) = t\<lparr>planes := [p\<lparr>p_available := p_available p - of_nat (held jobs (ws[k := Working]))\<rparr>]\<rparr>"
    using short by (simp add: charge_at_def i(4) take_bytes_def saturating_sub_def h' is_cpu_plane_def Let_def algebra_simps)
  moreover have "hm_wf (leases st')" using i(5) by (simp add: res(2) prune_leases_def)
  moreover have "\<forall>i l. hm_get (leases st') i = Some l \<longrightarrow> i \<in> j_id ` set jobs \<or> l_state l = Expired"
    using i(6) k(1) by (auto simp: res(2) prune_get [OF i(5)] split: option.splits if_splits)
  moreover have "(case ws[k := Working] ! n of
          Waiting \<Rightarrow> hm_get (leases st') (j_id (jobs ! n)) = None
        | Working \<Rightarrow> hm_get (leases st') (j_id (jobs ! n)) = Some (lease_of p (jobs ! n))
        | _ \<Rightarrow> hm_get (leases st') (j_id (jobs ! n)) \<in> {None, Some (lease_of p (jobs ! n)\<lparr>l_state := Expired\<rparr>)})" if "n < length jobs" for n
  proof (cases "n = k")
    case False
    then have "j_id (jobs ! n) \<noteq> j_id ?j" using ids that k(1) by (metis length_map nth_eq_iff_index_eq nth_map)
    then show ?thesis using False i(7) [OF that]
      by (auto simp: res(2) prune_get [OF i(5)] lease_of_def new_lease_def is_active_def split: worker.splits option.splits)
  qed (use k i(1) res(2) in simp)
  ultimately show ?thesis using i(1,2,3) h' held_wanted [OF k(1), of ws] k room res
    by (auto simp: workers_inv_def dest: set_update_memI subsetD [OF set_update_subset_insert])
qed

lemma worker_release:
  assumes inv: "workers_inv t p jobs (ws, st)" and bound: "p_available p \<le> p_total p" and ids: "distinct (map j_id jobs)"
    and k: "k < length jobs" "ws ! k = Working" and r: "release_lease L (j_id (jobs ! k)) st = (r, st')"
  shows "r = Ok () \<and> workers_inv t p jobs (ws[k := Finished], st')"
proof -
  let ?j = "jobs ! k" and ?h = "held jobs ws"
  let ?q = "p\<lparr>p_available := p_available p - of_nat ?h\<rparr>"
  note i = workers_invD [OF inv]
  have h': "held jobs (ws[k := Finished]) + unat (j_bytes ?j) = ?h" using held_update [OF k(1) i(1), of Finished] k(2) by simp
  then have "(of_nat ?h :: u64) = of_nat (held jobs (ws[k := Finished])) + of_nat (unat (j_bytes ?j))" by (metis of_nat_add)
  then have again: "p_available p - of_nat ?h + j_bytes ?j = p_available p - of_nat (held jobs (ws[k := Finished]))" by simp
  have "of_nat (held jobs (ws[k := Finished])) \<le> p_available p"
    using h' i(3) unsigned_less [of "p_available p", where 'a = nat] by (simp add: word_le_nat_alt unat_of_nat)
  then have "p_available p - of_nat (held jobs (ws[k := Finished])) \<le> p_total p" using bound by (meson word_sub_le order_trans)
  then have top: "restore_plane_memory (topology st) (p_id p) (j_bytes ?j)
      = t\<lparr>planes := [p\<lparr>p_available := p_available p - of_nat (held jobs (ws[k := Finished]))\<rparr>]\<rparr>"
    by (simp add: restore_plane_memory_def on_plane_def i(4) give_bytes_def is_uma_def plane_of_def is_cpu_plane_def again min_def Let_def)
  have "hm_get (leases st) (j_id ?j) = Some (lease_of p ?j)" using i(7) [OF k(1)] k(2) by simp
  then have res: "r = Ok ()" "leases st' = set_lease_state (j_id ?j) Expired (leases st)"
    "topology st' = restore_plane_memory (topology st) (p_id p) (j_bytes ?j)"
    using r by (auto simp: release_lease_def end_lease_def lease_of_def new_lease_def is_active_def)
  have "(case ws[k := Finished] ! n of
          Waiting \<Rightarrow> hm_get (leases st') (j_id (jobs ! n)) = None
        | Working \<Rightarrow> hm_get (leases st') (j_id (jobs ! n)) = Some (lease_of p (jobs ! n))
        | _ \<Rightarrow> hm_get (leases st') (j_id (jobs ! n)) \<in> {None, Some (lease_of p (jobs ! n)\<lparr>l_state := Expired\<rparr>)})" if "n < length jobs" for n
  proof (cases "n = k")
    case False
    then have "j_id (jobs ! n) \<noteq> j_id ?j" using ids that k(1) by (metis length_map nth_eq_iff_index_eq nth_map)
    then show ?thesis using False i(7) [OF that] by (simp add: res(2) set_state_get split: worker.splits)
  qed (use k i(1) i(7) [OF k(1)] in \<open>simp add: res(2) set_state_get\<close>)
  moreover have "hm_wf (leases st')" using i(5) by (simp add: res(2) set_lease_state_def)
  moreover have "\<forall>i l. hm_get (leases st') i = Some l \<longrightarrow> i \<in> j_id ` set jobs \<or> l_state l = Expired"
    using i(6) by (auto simp: res(2) set_state_get)
  ultimately show ?thesis using i(1,2,3) h' top res(1,3)
    by (auto simp: workers_inv_def dest: subsetD [OF set_update_subset_insert])
qed

section \<open>Runs\<close>

definition enough :: "compute_plane \<Rightarrow> job list \<Rightarrow> bool" where
  "enough p jobs \<longleftrightarrow> p_available p \<le> p_total p \<and> distinct (map j_id jobs) \<and> list_all (admissible p) jobs
     \<and> wanted jobs \<le> unat (p_available p)"

lemma worker_step_inv:
  assumes "enough p jobs" and inv: "workers_inv t p jobs (ws, st)" and "worker_step L jobs (ws, st) (ws', st')"
  shows "workers_inv t p jobs (ws', st') \<and> Suc (to_do ws') = to_do ws"
  using assms(3)
proof (cases rule: worker_step.cases)
  case (acquire k r fx)
  moreover from this have "k < length jobs" using workers_invD(1) [OF inv] by simp
  ultimately show ?thesis
    using worker_acquire [OF inv _ _ _ _ acquire(3,4)] assms(1) to_do_update [OF acquire(2), of Working]
    by (auto simp: enough_def list_all_iff)
next
  case (release k r)
  moreover from this have "k < length jobs" using workers_invD(1) [OF inv] by simp
  ultimately show ?thesis
    using worker_release [OF inv _ _ _ release(3,4)] assms(1) to_do_update [OF release(2), of Finished]
    by (auto simp: enough_def)
qed

interpretation workers: transition_invariant "worker_step L jobs" "\<lambda>s. enough p jobs \<and> workers_inv t p jobs s" for L jobs t p
  by unfold_locales (use worker_step_inv in auto)

lemma workers_count:
  assumes "enough p jobs"
  shows "(worker_step L jobs ^^ n) (ws, st) (ws', st') \<Longrightarrow> workers_inv t p jobs (ws, st) \<Longrightarrow> n + to_do ws' = to_do ws"
proof (induction n arbitrary: ws' st')
  case (Suc n)
  obtain ws1 st1 where n: "(worker_step L jobs ^^ n) (ws, st) (ws1, st1)" and s: "worker_step L jobs (ws1, st1) (ws', st')"
    using Suc.prems(1) by auto
  have i: "workers_inv t p jobs (ws1, st1)"
    using workers.steps_inv [OF relpowp_imp_rtranclp [OF n], of p t] assms Suc.prems(2) by simp
  with Suc.IH [OF n Suc.prems(2)] worker_step_inv [OF assms i s] show ?case by simp
qed simp

text \<open>The arbiter before the tasks start: one plane, no lease in force, the identifiers unused.\<close>

definition quiet :: "compute_plane \<Rightarrow> job list \<Rightarrow> arbiter_state \<Rightarrow> bool" where
  "quiet p jobs st \<longleftrightarrow> planes (topology st) = [p] \<and> hm_wf (leases st) \<and> all_over st
     \<and> list_all (\<lambda>j. hm_get (leases st) (j_id j) = None) jobs"

lemma quiet_new: "planes t = [p] \<Longrightarrow> quiet p jobs (new_arbiter t)"
  by (simp add: quiet_def new_arbiter_def all_over_def list_all_iff)

lemma spawned_inv: "quiet p jobs st \<Longrightarrow> workers_inv (topology st) p jobs (spawned jobs st)"
  by (auto simp: workers_inv_def spawned_def held_def quiet_def all_over_def list_all_iff)

lemma to_do_zero:
  assumes "to_do ws = 0" and "Rejected \<notin> set ws" and "k < length ws"
  shows "ws ! k = Finished"
proof -
  have "ws ! k \<noteq> Rejected" using assms(2,3) by (metis nth_mem)
  moreover have "moves (ws ! k) = 0" using assms(1,3) by (simp add: to_do_def)
  ultimately show ?thesis by (cases "ws ! k") simp_all
qed

lemma worker_can_step:
  assumes "to_do ws \<noteq> 0" and "length ws = length jobs"
  shows "\<exists>s'. worker_step L jobs (ws, st) s'"
proof -
  obtain k where "k < length ws" "moves (ws ! k) \<noteq> 0" using assms(1) by (auto simp: to_do_def)
  then have k: "k < length ws" "ws ! k = Waiting \<or> ws ! k = Working" by (cases "ws ! k"; simp)+
  from k(2) show ?thesis
  proof
    assume "ws ! k = Waiting"
    then show ?thesis using worker_step.acquire [OF k(1), where jobs = jobs and st = st] by (metis prod_cases3)
  next
    assume "ws ! k = Working"
    then show ?thesis using worker_step.release [OF k(1), where jobs = jobs and st = st] by (metis surj_pair)
  qed
qed

lemma workers_spec:
  assumes quiet: "quiet p jobs st0" and enough: "enough p jobs"
    and run: "(worker_step L jobs ^^ n) (spawned jobs st0) (ws, st)"
  shows "Rejected \<notin> set ws" and "map (\<lambda>p. unat (p_available p)) (planes (topology st)) = [unat (p_available p) - held jobs ws]"
    and "\<forall>i l. hm_get (leases st) i = Some l \<longrightarrow> l_state l \<in> {Active, Expired}" and "n \<le> 2 * length jobs"
    and "n < 2 * length jobs \<Longrightarrow> \<exists>s'. worker_step L jobs (ws, st) s'"
    and "n = 2 * length jobs \<Longrightarrow> topology st = topology st0 \<and> all_over st \<and> hm_wf (leases st)"
proof -
  have inv: "workers_inv (topology st0) p jobs (ws, st)"
    using workers.steps_inv [OF relpowp_imp_rtranclp [OF run], of p "topology st0"] enough spawned_inv [OF quiet] by simp
  note i = workers_invD [OF inv]
  have "to_do (replicate (length jobs) Waiting) = 2 * length jobs" by (simp add: to_do_def)
  then have n: "n + to_do ws = 2 * length jobs"
    using workers_count [OF enough run [unfolded spawned_def]] spawned_inv [OF quiet] by (simp add: spawned_def)
  have "held jobs ws < 2 ^ 64" using i(3) unsigned_less [of "p_available p", where 'a = nat] by simp
  then have "unat (of_nat (held jobs ws) :: u64) = held jobs ws" by (simp add: unat_of_nat)
  then have left: "map (\<lambda>p. unat (p_available p)) (planes (topology st)) = [unat (p_available p) - held jobs ws]"
    using i(3) by (simp add: i(4) unat_sub_if')
  have states: "l_state l \<in> {Active, Expired} \<and> (to_do ws = 0 \<longrightarrow> l_state l = Expired)" if l: "hm_get (leases st) j = Some l" for j l
  proof (cases "l_state l = Expired")
    case False
    then obtain k where k: "k < length jobs" "j = j_id (jobs ! k)" using i(6) l by (metis imageE in_set_conv_nth)
    have "ws ! k \<noteq> Rejected" using i(1,2) k(1) by (metis nth_mem)
    then show ?thesis using i(7) [OF k(1)] l k to_do_zero [of ws k] i(1,2)
      by (auto simp: lease_of_def new_lease_def split: worker.splits)
  qed simp
  have top: "topology st = topology st0" if "to_do ws = 0"
  proof -
    have "held jobs ws = 0" using to_do_zero [OF that i(2)] i(1) by (simp add: held_def)
    then show ?thesis using i(4) quiet by (simp add: quiet_def)
  qed
  show "Rejected \<notin> set ws" by (rule i(2))
  show "map (\<lambda>p. unat (p_available p)) (planes (topology st)) = [unat (p_available p) - held jobs ws]" by (rule left)
  show "\<forall>i l. hm_get (leases st) i = Some l \<longrightarrow> l_state l \<in> {Active, Expired}" using states by blast
  show "n \<le> 2 * length jobs" using n by simp
  show "\<exists>s'. worker_step L jobs (ws, st) s'" if "n < 2 * length jobs" using worker_can_step [OF _ i(1), of L st] n that by simp
  show "topology st = topology st0 \<and> all_over st \<and> hm_wf (leases st)" if "n = 2 * length jobs"
    using top states i(5) n that by (simp add: all_over_def)
qed

lemma workers_complete:
  assumes quiet: "quiet p jobs st0" and enough: "enough p jobs"
    and run: "(worker_step L jobs ^^ (2 * length jobs)) (spawned jobs st0) (ws, st)"
  shows "ws = replicate (length jobs) Finished" and "topology st = topology st0" and "all_over st" and "hm_wf (leases st)"
proof -
  have inv: "workers_inv (topology st0) p jobs (ws, st)"
    using workers.steps_inv [OF relpowp_imp_rtranclp [OF run], of p "topology st0"] enough spawned_inv [OF quiet] by simp
  have "2 * length jobs + to_do ws = to_do (replicate (length jobs) Waiting)"
    using workers_count [OF enough run [unfolded spawned_def]] spawned_inv [OF quiet] by (simp add: spawned_def)
  then have "to_do ws = 0" by (simp add: to_do_def)
  then show "ws = replicate (length jobs) Finished"
    using to_do_zero workers_invD(1,2) [OF inv] by (simp add: list_eq_iff_nth_eq)
qed (use workers_spec(6) [OF assms] in simp_all)


definition ex_jobs :: "job list" where
  "ex_jobs = map (\<lambda>(i, b). \<lparr>j_psi = calm, j_id = i, j_now = 0, j_priority = Interactive, j_bytes = b, j_plane = None, j_unit = None, j_pid = None\<rparr>)
     [(1, 400), (2, 600)]"

definition ex_gpu :: hardware_topology where
  "ex_gpu = ex_topology\<lparr>planes := [ex_plane ''gpu0'' DiscreteGpu 1000 1000]\<rparr>"

definition ex_working :: arbiter_state where
  "ex_working = fst (snd (job_acquire (ex_jobs ! 0) (fst (snd (job_acquire (ex_jobs ! 1) (new_arbiter ex_gpu))))))"

lemma worker_acquires:
  "k < length ws \<Longrightarrow> ws ! k = Waiting \<Longrightarrow> \<not> isl (fst (job_acquire (jobs ! k) st))
    \<Longrightarrow> worker_step L jobs (ws, st) (ws[k := Working], fst (snd (job_acquire (jobs ! k) st)))"
  using worker_step.acquire [of k ws jobs st "fst (job_acquire (jobs ! k) st)" "fst (snd (job_acquire (jobs ! k) st))" "snd (snd (job_acquire (jobs ! k) st))" L]
  by simp

lemma worker_releases:
  "k < length ws \<Longrightarrow> ws ! k = Working \<Longrightarrow> worker_step L jobs (ws, st) (ws[k := Finished], snd (release_lease L (j_id (jobs ! k)) st))"
  by (rule worker_step.release [OF _ _ prod.collapse [symmetric]])

lemma ex_workers_run:
  "(worker_step ex_lib ex_jobs ^^ 3) (spawned ex_jobs (new_arbiter ex_gpu)) ([Working, Finished], snd (release_lease ex_lib 2 ex_working))"
proof -
  let ?s1 = "fst (snd (job_acquire (ex_jobs ! 1) (new_arbiter ex_gpu)))"
  have ok: "\<not> isl (fst (job_acquire (ex_jobs ! 1) (new_arbiter ex_gpu)))" "\<not> isl (fst (job_acquire (ex_jobs ! 0) ?s1))"
    "j_id (ex_jobs ! 1) = 2" "spawned ex_jobs (new_arbiter ex_gpu) = ([Waiting, Waiting], new_arbiter ex_gpu)" by code_simp+
  have "worker_step ex_lib ex_jobs ([Waiting, Waiting], new_arbiter ex_gpu) ([Waiting, Working], ?s1)"
    using worker_acquires [of 1 "[Waiting, Waiting]" ex_jobs "new_arbiter ex_gpu" ex_lib] ok(1) by simp
  moreover have "worker_step ex_lib ex_jobs ([Waiting, Working], ?s1) ([Working, Working], ex_working)"
    using worker_acquires [of 0 "[Waiting, Working]" ex_jobs ?s1 ex_lib] ok(2) by (simp add: ex_working_def)
  moreover have "worker_step ex_lib ex_jobs ([Working, Working], ex_working) ([Working, Finished], snd (release_lease ex_lib 2 ex_working))"
    using worker_releases [of 1 "[Working, Working]" ex_lib ex_jobs ex_working] ok(3) by simp
  ultimately show ?thesis unfolding ok(4) by (auto simp: numeral_3_eq_3)
qed


section \<open>Thaw storms\<close>

text \<open>
  Tasks that release the leases \<open>rs\<close> and tasks that thaw the preempted leases \<open>ps\<close>, trying again
  while memory is short, in any order.
\<close>

inductive storm_step ::
  "text_lib \<Rightarrow> lease_id list \<times> lease_id list \<times> arbiter_state \<Rightarrow> lease_id list \<times> lease_id list \<times> arbiter_state \<Rightarrow> bool" for L where
  release: "i \<in> set rs \<Longrightarrow> release_lease L i st = (r, st') \<Longrightarrow> storm_step L (rs, ps, st) (removeAll i rs, ps, st')"
| thawed: "i \<in> set ps \<Longrightarrow> thaw_lease L i st = (Ok (), st') \<Longrightarrow> storm_step L (rs, ps, st) (rs, removeAll i ps, st')"
| retry: "i \<in> set ps \<Longrightarrow> thaw_lease L i st = (Err (ResourceExhaustion q need avail), st') \<Longrightarrow> storm_step L (rs, ps, st) (rs, ps, st')"

text \<open>What the leases \<open>is\<close> of a table take from plane \<open>q\<close> when they are active.\<close>

definition due :: "hardware_topology \<Rightarrow> lease_table \<Rightarrow> string \<Rightarrow> lease_id \<Rightarrow> nat" where
  "due t ls q i = (case hm_get ls i of Some l \<Rightarrow> if touched t (l_plane_id l) q then unat (l_allocated l) else 0 | None \<Rightarrow> 0)"

definition load :: "arbiter_state \<Rightarrow> string \<Rightarrow> lease_id list \<Rightarrow> nat" where
  "load st q is = (\<Sum>i \<leftarrow> is. due (topology st) (leases st) q i)"

definition in_state :: "arbiter_state \<Rightarrow> (lease_state \<Rightarrow> bool) \<Rightarrow> lease_id list \<Rightarrow> bool" where
  "in_state st P is \<longleftrightarrow> list_all (\<lambda>i. case hm_get (leases st) i of Some l \<Rightarrow> P (l_state l) | None \<Rightarrow> False) is"

text \<open>The lease \<open>i\<close> when \<open>rs\<close> are still to be released and \<open>ps\<close> still to be thawed.\<close>

definition storm_lease :: "arbiter_state \<Rightarrow> lease_id list \<Rightarrow> lease_id list \<Rightarrow> lease_id list \<Rightarrow> lease_id list \<Rightarrow> lease_id \<Rightarrow> compute_lease option" where
  "storm_lease st0 rs0 ps0 rs ps i =
     (if i \<in> set rs0 - set rs then map_option (\<lambda>l. l\<lparr>l_state := Expired\<rparr>) (hm_get (leases st0) i)
      else if i \<in> set ps0 - set ps then map_option (\<lambda>l. l\<lparr>l_state := Active\<rparr>) (hm_get (leases st0) i)
      else hm_get (leases st0) i)"

definition storm_inv :: "(string \<Rightarrow> nat) \<Rightarrow> arbiter_state \<Rightarrow> lease_id list \<Rightarrow> lease_id list \<Rightarrow> lease_id list \<times> lease_id list \<times> arbiter_state \<Rightarrow> bool" where
  "storm_inv base st0 rs0 ps0 = (\<lambda>(rs, ps, st).
     arbiter_inv st \<and> balanced base (topology st) (leases st) \<and> skeleton (topology st) = skeleton (topology st0)
     \<and> distinct (rs @ ps) \<and> set rs \<subseteq> set rs0 \<and> set ps \<subseteq> set ps0
     \<and> (\<forall>i. hm_get (leases st) i = storm_lease st0 rs0 ps0 rs ps i)
     \<and> (\<forall>q. demand (topology st0) (leases st) q + load st0 q ps + load st0 q rs0
            = demand (topology st0) (leases st0) q + load st0 q rs + load st0 q ps0))"

lemma load_removeAll: "i \<in> set is \<Longrightarrow> distinct is \<Longrightarrow> load st q is = load st q (removeAll i is) + due (topology st) (leases st) q i"
  by (induction "is") (auto simp: load_def removeAll_id)

lemma due_le_load: "i \<in> set is \<Longrightarrow> due (topology st) (leases st) q i \<le> load st q is"
  unfolding load_def by (rule member_le_sum_list) auto

lemma thaw_inv: "arbiter_inv st \<Longrightarrow> arbiter_inv (snd (thaw_lease L i st))"
  using guarded_step_inv [of st "\<lambda>_ _. True" L "snd (thaw_lease L i st)"] guarded_step.op [of "OpThaw i" st "\<lambda>_ _. True" L] by simp

lemma storm_step_inv:
  assumes act: "in_state st0 active_state rs0" and pre: "in_state st0 (\<lambda>s. s = Preempted) ps0" and apart: "distinct (rs0 @ ps0)"
    and inv: "storm_inv base st0 rs0 ps0 s" and step: "storm_step L s s'"
  shows "storm_inv base st0 rs0 ps0 s'"
proof -
  obtain rs ps st where s: "s = (rs, ps, st)" by (metis prod_cases3)
  have v: "arbiter_inv st" "balanced base (topology st) (leases st)" "skeleton (topology st) = skeleton (topology st0)"
    "distinct (rs @ ps)" "set rs \<subseteq> set rs0" "set ps \<subseteq> set ps0" "\<And>i. hm_get (leases st) i = storm_lease st0 rs0 ps0 rs ps i"
    and eq: "\<And>q. demand (topology st0) (leases st) q + load st0 q ps + load st0 q rs0
            = demand (topology st0) (leases st0) q + load st0 q rs + load st0 q ps0"
    using inv by (simp_all add: storm_inv_def s)
  have c: "core (topology st) (leases st)" using v(1) by (simp add: arbiter_inv_core)
  have still: "hm_get (leases st) i = hm_get (leases st0) i" if "i \<in> set rs \<union> set ps" for i
    using that v(5,6) v(7) [of i] apart by (auto simp: storm_lease_def)
  have dem: "demand (topology st) = demand (topology st0)" and tou: "touched (topology st) = touched (topology st0)"
    by (rule demand_skeleton [OF v(3)], rule touched_skeleton [OF v(3)])
  from step show ?thesis
    unfolding s
  proof (cases rule: storm_step.cases)
    case (release i r st')
    have "i \<in> set rs0" using release v(5) by auto
    then obtain l where l: "hm_get (leases st) i = Some l" "is_active l" "hm_get (leases st0) i = Some l"
      using act still [of i] release by (auto simp: in_state_def list_all_iff is_active_def split: option.splits)
    have st': "st' = st\<lparr>leases := set_lease_state i Expired (leases st), topology := restore_plane_memory (topology st) (l_plane_id l) (l_allocated l)\<rparr>"
      using release l by (auto simp: release_lease_def end_lease_def)
    have "demand (topology st0) (leases st) q = demand (topology st0) (leases st') q + due (topology st0) (leases st0) q i" for q
      using demand_end [OF core_wf [OF c] l(1,2), of Expired "topology st" q] st' l(3) by (simp add: dem tou due_def)
    then have "demand (topology st0) (leases st') q + load st0 q ps + load st0 q rs0
        = demand (topology st0) (leases st0) q + load st0 q (removeAll i rs) + load st0 q ps0" for q
      using eq [of q] load_removeAll [of i rs st0 q] release v(4) by (simp add: s)
    moreover have "arbiter_inv st'" using release_inv [OF v(1), of L i] release by simp
    moreover have "balanced base (topology st') (leases st')"
      using end_lease_account(1) [OF _ c _ v(2), of Expired L i r st'] release by (simp add: release_lease_def)
    moreover have "skeleton (topology st') = skeleton (topology st0)" by (simp add: st' restore_plane_memory_def v(3))
    moreover have "hm_get (leases st') j = storm_lease st0 rs0 ps0 (removeAll i rs) ps j" for j
      using v(7) [of j] \<open>i \<in> set rs0\<close> l by (auto simp: st' set_state_get storm_lease_def)
    ultimately show ?thesis using release v(4-6) by (auto simp: storm_inv_def s distinct_removeAll)
  next
    case (thawed i st')
    have "i \<in> set ps0" using thawed v(6) by auto
    then obtain l where l: "hm_get (leases st) i = Some l" "l_state l = Preempted" "hm_get (leases st0) i = Some l"
      using pre still [of i] thawed by (auto simp: in_state_def list_all_iff split: option.splits)
    have st': "leases st' = set_lease_state i Active (leases st)" "topology st' = on_plane (take_bytes (l_allocated l)) (l_plane_id l) (topology st)"
      using thawed l by (auto simp: thaw_lease_def Let_def split: option.splits if_splits)
    have "demand (topology st0) (leases st') q = demand (topology st0) (leases st) q + due (topology st0) (leases st0) q i" for q
      using demand_set_state [OF core_wf [OF c] l(1), of "topology st" Active q] st' l(2,3)
      by (simp add: dem tou due_def contrib_def is_active_def)
    then have "demand (topology st0) (leases st') q + load st0 q (removeAll i ps) + load st0 q rs0
        = demand (topology st0) (leases st0) q + load st0 q rs + load st0 q ps0" for q
      using eq [of q] load_removeAll [of i ps st0 q] thawed v(4) by (simp add: s)
    moreover have "arbiter_inv st'" using thaw_inv [OF v(1), of L i] thawed by simp
    moreover have "balanced base (topology st') (leases st')" using thaw_account(1) [OF thawed(3) c v(2)] .
    moreover have "skeleton (topology st') = skeleton (topology st0)" by (simp add: st' v(3))
    moreover have "hm_get (leases st') j = storm_lease st0 rs0 ps0 rs (removeAll i ps) j" for j
      using v(7) [of j] \<open>i \<in> set ps0\<close> l apart by (auto simp: st' set_state_get storm_lease_def)
    ultimately show ?thesis using thawed v(4-6) by (auto simp: storm_inv_def s distinct_removeAll)
  next
    case (retry i q need avail st')
    have "i \<in> set ps0" using retry v(6) by auto
    then obtain l where "hm_get (leases st) i = Some l" "l_state l = Preempted"
      using pre still [of i] retry by (auto simp: in_state_def list_all_iff split: option.splits)
    then have "st' = st" using retry thaw_preempted_spec(3) [OF v(1)] by fastforce
    then show ?thesis using inv retry s by simp
  qed
qed

interpretation storm: transition_invariant "storm_step L"
  "\<lambda>s. in_state st0 active_state rs0 \<and> in_state st0 (\<lambda>s. s = Preempted) ps0 \<and> distinct (rs0 @ ps0) \<and> storm_inv base st0 rs0 ps0 s" for L st0 rs0 ps0 base
  by unfold_locales (use storm_step_inv in auto)

lemma storm_run_inv:
  assumes "arbiter_inv st0" and "balanced base (topology st0) (leases st0)"
    and "in_state st0 active_state rs0" "in_state st0 (\<lambda>s. s = Preempted) ps0" "distinct (rs0 @ ps0)"
    and run: "(storm_step L)\<^sup>*\<^sup>* (rs0, ps0, st0) (rs, ps, st)"
  shows "storm_inv base st0 rs0 ps0 (rs, ps, st)"
proof -
  have "storm_inv base st0 rs0 ps0 (rs0, ps0, st0)" using assms by (simp add: storm_inv_def storm_lease_def)
  then show ?thesis using storm.steps_inv [OF run] assms(3-5) by blast
qed

lemma storm_spec:
  assumes inv: "arbiter_inv st0" and bal: "balanced base (topology st0) (leases st0)"
    and leases: "in_state st0 active_state rs0" "in_state st0 (\<lambda>s. s = Preempted) ps0" "distinct (rs0 @ ps0)"
    and room: "\<And>q p. plane_of (topology st0) q = Some p \<Longrightarrow> load st0 q ps0 \<le> unat (p_available p) + load st0 q rs0"
    and run: "(storm_step L)\<^sup>*\<^sup>* (rs0, ps0, st0) (rs, ps, st)"
  shows "(\<forall>i \<in> set ps. case fst (thaw_lease L i st) of Ok _ \<Rightarrow> True | Err e \<Rightarrow> (\<exists>q need avail. e = ResourceExhaustion q need avail))
    \<and> (rs = [] \<longrightarrow> (\<forall>i \<in> set ps. fst (thaw_lease L i st) = Ok ()))
    \<and> (rs = [] \<and> ps = [] \<longrightarrow> (\<forall>q p p0. plane_of (topology st) q = Some p \<longrightarrow> plane_of (topology st0) q = Some p0 \<longrightarrow>
         unat (p_available p) + load st0 q ps0 = unat (p_available p0) + load st0 q rs0))"
proof -
  have v0: "storm_inv base st0 rs0 ps0 (rs, ps, st)" by (rule storm_run_inv [OF inv bal leases run])
  then have v: "arbiter_inv st" "balanced base (topology st) (leases st)" "skeleton (topology st) = skeleton (topology st0)"
    "set ps \<subseteq> set ps0" "\<forall>i \<in> set ps. hm_get (leases st) i = hm_get (leases st0) i"
    and eq: "\<And>q. demand (topology st0) (leases st) q + load st0 q ps + load st0 q rs0
            = demand (topology st0) (leases st0) q + load st0 q rs + load st0 q ps0"
    using leases(3) by (auto simp: storm_inv_def storm_lease_def)
  have same: "demand (topology st) = demand (topology st0)" "touched (topology st) = touched (topology st0)"
    by (rule demand_skeleton [OF v(3)], rule touched_skeleton [OF v(3)])
  have base: "unat (p_available p) + demand (topology st0) (leases st) q = base q" if "plane_of (topology st) q = Some p" for q p
    using v(2) that by (auto simp: balanced_def same)
  have base0: "unat (p_available p) + demand (topology st0) (leases st0) q = base q" if "plane_of (topology st0) q = Some p" for q p
    using bal that by (auto simp: balanced_def)
  have "map fst (skeleton (topology st)) = map fst (skeleton (topology st0))" using v(3) by simp
  then have ids: "plane_of (topology st) q = None \<longleftrightarrow> plane_of (topology st0) q = None" for q
    unfolding ids_skeleton [symmetric] plane_of_None_iff by (metis (no_types, lifting) image_iff list.set_map)
  have pre: "\<exists>l. hm_get (leases st) i = Some l \<and> hm_get (leases st0) i = Some l \<and> l_state l = Preempted" if "i \<in> set ps" for i
    using that leases(2) v(4,5) unfolding in_state_def list_all_iff by (fastforce split: option.splits)
  have "case fst (thaw_lease L i st) of Ok _ \<Rightarrow> True | Err e \<Rightarrow> (\<exists>q need avail. e = ResourceExhaustion q need avail)" if "i \<in> set ps" for i
    using pre [OF that] thaw_preempted_spec(3) [OF v(1) _ _ prod.collapse [symmetric], of i _ L] by (force split: sum.splits)
  moreover have "fst (thaw_lease L i st) = Ok ()" if "rs = []" and i: "i \<in> set ps" for i
  proof -
    obtain l where l: "hm_get (leases st) i = Some l" "hm_get (leases st0) i = Some l" "l_state l = Preempted" using pre [OF i] by blast
    have "l_allocated l \<le> p_available p" if t: "touched (topology st) (l_plane_id l) q" and p: "plane_of (topology st) q = Some p" for q p
    proof -
      obtain p0 where p0: "plane_of (topology st0) q = Some p0" using p ids by (metis not_Some_eq)
      have "unat (l_allocated l) \<le> load st0 q ps" using due_le_load [OF i, of st0 q] l(2) t by (simp add: due_def same)
      moreover have "load st0 q rs = 0" using \<open>rs = []\<close> by (simp add: load_def)
      ultimately show ?thesis using eq [of q] base [OF p] base0 [OF p0] room [OF p0] by (simp add: word_le_nat_alt)
    qed
    then show ?thesis using thaw_preempted_spec(1) [OF v(1) l(1,3) prod.collapse [symmetric]] by blast
  qed
  moreover have "unat (p_available p) + load st0 q ps0 = unat (p_available p0) + load st0 q rs0"
    if "rs = []" "ps = []" "plane_of (topology st) q = Some p" "plane_of (topology st0) q = Some p0" for q p p0
    using eq [of q] base [OF that(3)] base0 [OF that(4)] that(1,2) by (simp add: load_def)
  ultimately show ?thesis by blast
qed



end
