(* ===== verification/Qa_Support.thy ===== *)
theory Qa_Support
  imports Arbiter_Workers "HOL-Library.Monad_Syntax"
begin

text \<open>
  The acceptance tests of the repository (\<^verbatim>\<open>src/qa\<close>) as programs of the model. A test is a
  value of the option type: \<open>None\<close> when an assertion fails or an \<open>unwrap\<close> panics, \<open>Some ()\<close>
  when it passes. A test that only the host decides (the pressure, identifiers, clocks) has
  these in its environment, and is shown to pass in every environment; a test whose tasks run
  concurrently is shown to pass under every schedule. The theories \<open>Qa_Edge\<close>, \<open>Qa_Stress\<close>,
  \<open>Qa_Unit\<close> and \<open>Qa_Integration\<close> hold the tests, in the order of the directories, and
  \<open>Qa_Crates\<close> the tests kept beside the core library.
\<close>

section \<open>Environment\<close>

record qa_env =
  q_lib :: text_lib
  q_psi :: pressure_metrics
  q_id :: "nat \<Rightarrow> lease_id" \<comment> \<open>the identifiers of successive leases\<close>
  q_now :: "nat \<Rightarrow> timestamp"

text \<open>The host is not under critical pressure, and the identifiers of a test's leases differ.\<close>

definition qa_ok :: "qa_env \<Rightarrow> bool" where
  "qa_ok E \<longleftrightarrow> level (q_psi E) \<noteq> Critical \<and> inj_on (q_id E) {..<128}"

text \<open>\<open>SIMULATED_PSI.scope\<close>.\<close>

definition simulated_psi :: "pressure_level \<Rightarrow> qa_env \<Rightarrow> qa_env" where
  "simulated_psi l E = E\<lparr>q_psi := read_current (Some l) empty_os\<rparr>"

definition unwrap :: "('e, 'a) result \<Rightarrow> 'a option" where
  "unwrap r = (case r of Ok x \<Rightarrow> Some x | Err _ \<Rightarrow> None)"

definition check :: "bool \<Rightarrow> unit option" where
  "check b = (if b then Some () else None)"

section \<open>Steps of a test\<close>

text \<open>The \<open>k\<close>-th request of a test.\<close>

definition req :: "qa_env \<Rightarrow> nat \<Rightarrow> lease_priority \<Rightarrow> u64 \<Rightarrow> string option \<Rightarrow> string option \<Rightarrow> u32 option \<Rightarrow> job" where
  "req E k pr b plane un pid = \<lparr>j_psi = q_psi E, j_id = q_id E k, j_now = q_now E k, j_priority = pr, j_bytes = b,
     j_plane = plane, j_unit = un, j_pid = pid\<rparr>"

definition acquire :: "job \<Rightarrow> arbiter_state \<Rightarrow> (error, compute_lease) result \<times> arbiter_state" where
  "acquire j st = (case job_acquire j st of (r, st', _) \<Rightarrow> (r, st'))"

fun acquire_all :: "job list \<Rightarrow> arbiter_state \<Rightarrow> (compute_lease list \<times> arbiter_state) option" where
  "acquire_all [] st = Some ([], st)"
| "acquire_all (j # js) st = (case acquire j st of (r, st1) \<Rightarrow>
     do { l \<leftarrow> unwrap r; (ls, st2) \<leftarrow> acquire_all js st1; Some (l # ls, st2) })"

fun release_all :: "text_lib \<Rightarrow> compute_lease list \<Rightarrow> arbiter_state \<Rightarrow> arbiter_state option" where
  "release_all L [] st = Some st"
| "release_all L (l # ls) st = (case release_lease L (l_id l) st of (r, st1) \<Rightarrow> do { unwrap r; release_all L ls st1 })"

text \<open>Indexing a vector panics out of its range.\<close>

definition plane_at :: "arbiter_state \<Rightarrow> nat \<Rightarrow> compute_plane option" where
  "plane_at st k = (if k < length (planes (topology st)) then Some (planes (topology st) ! k) else None)"

definition default_topology :: hardware_topology where
  "default_topology = \<lparr>planes = [], total_ram = 0, available_ram = 0, cpu_cores_total = 0, numa_nodes = 0\<rparr>"

definition test_plane :: "string \<Rightarrow> string \<Rightarrow> compute_plane_kind \<Rightarrow> u64 \<Rightarrow> u64 \<Rightarrow> compute_plane" where
  "test_plane i name kind tot av = \<lparr>p_id = i, p_name = name, p_kind = kind, p_device_path = None, p_total = tot, p_available = av,
     p_numa_node = None, p_supported_formats = [], p_triage_reserved = False, p_quarantined = False, p_features = []\<rparr>"

definition with_planes :: "compute_plane list \<Rightarrow> arbiter_state" where
  "with_planes ps = new_arbiter (default_topology\<lparr>planes := ps\<rparr>)"

definition is_exhaustion :: "error \<Rightarrow> bool" where
  "is_exhaustion e = (case e of ResourceExhaustion _ _ _ \<Rightarrow> True | _ \<Rightarrow> False)"

definition is_plane_not_found :: "error \<Rightarrow> bool" where
  "is_plane_not_found e = (case e of PlaneNotFound _ \<Rightarrow> True | _ \<Rightarrow> False)"

definition is_lease_not_found :: "error \<Rightarrow> bool" where
  "is_lease_not_found e = (case e of LeaseNotFound _ \<Rightarrow> True | _ \<Rightarrow> False)"

definition is_saturation :: "error \<Rightarrow> bool" where
  "is_saturation e = (case e of BusSaturation _ \<Rightarrow> True | _ \<Rightarrow> False)"

text \<open>\<open>matches!(res, Err(..))\<close>\<close>

definition fails_with :: "(error \<Rightarrow> bool) \<Rightarrow> (error, 'a) result \<Rightarrow> bool" where
  "fails_with P r = (case r of Err e \<Rightarrow> P e | Ok _ \<Rightarrow> False)"

text \<open>A file of the given content at \<open>/tmp/f\<close>.\<close>

definition one_file :: "string list \<Rightarrow> os" where
  "one_file ls = empty_os\<lparr>os_read_to_string := (\<lambda>p. if p = ''/tmp/f'' then Some (concat (map (\<lambda>l. l @ [nl]) ls)) else None)\<rparr>"

section \<open>Evaluation\<close>

lemma qa_calm: "qa_ok E \<Longrightarrow> level (q_psi E) \<noteq> Critical"
  by (simp add: qa_ok_def)

lemma qa_id_eq: "qa_ok E \<Longrightarrow> i < 128 \<Longrightarrow> j < 128 \<Longrightarrow> q_id E i = q_id E j \<longleftrightarrow> i = j"
  by (auto simp: qa_ok_def dest: inj_onD)

lemma qa_ok_simulated: "qa_ok E \<Longrightarrow> l \<noteq> Critical \<Longrightarrow> qa_ok (simulated_psi l E)"
  by (simp add: qa_ok_def simulated_psi_def)

lemma qa_ranges: "[0..<2] = [0, 1]" "[0..<4] = [0, 1, 2, 3]"
  by code_simp+

lemma qa_distinct_ids:
  assumes "qa_ok E"
  shows "n \<le> 128 \<Longrightarrow> distinct (map (q_id E) [0..<n])" and "c + n \<le> 128 \<Longrightarrow> distinct (map (\<lambda>i. q_id E (c + i)) [0..<n])"
  using qa_id_eq [OF assms] by (auto simp: distinct_map inj_on_def)

lemma qa_workers:
  assumes "quiet p jobs st0" and "enough p jobs" and "(worker_step L jobs ^^ n) (spawned jobs st0) (ws, st)" and "n = 2 * length jobs"
  shows "list_all (\<lambda>w. w = Finished) ws" and "topology st = topology st0" and "list_all (\<lambda>l. l_state l = Expired) (list_leases st)"
proof -
  note w = workers_complete [OF assms(1,2) assms(3) [unfolded assms(4)]]
  show "list_all (\<lambda>w. w = Finished) ws" and "topology st = topology st0" using w by (simp_all add: list_all_iff)
  show "list_all (\<lambda>l. l_state l = Expired) (list_leases st)"
    using w(3,4) by (auto simp: list_all_iff list_leases_def hm_values_def all_over_def hm_get_Some_iff)
qed

lemma bind_weak: "a = b \<Longrightarrow> Option.bind a f = Option.bind b f"
  by simp

text \<open>The arbiter's definitions, for tests that are run step by step.\<close>

lemmas qa_arbiter = Let_def unwrap_def check_def req_def acquire_def job_acquire_def plane_at_def default_topology_def test_plane_def
  with_planes_def new_arbiter_def acquire_lease_def select_plane_def preemptable_def freeze_effects_def prune_leases_def charge_at_def
  take_bytes_def saturating_sub_def new_lease_def release_lease_def end_lease_def set_lease_state_def restore_plane_memory_def
  on_plane_def is_uma_def plane_of_def give_bytes_def is_cpu_plane_def is_active_def list_leases_def less_lease_priority_def get_lease_def

lemmas qa_tables = hm_insert_def hm_len_def hm_get_def hm_values_def hm_modify_def hm_new_def hm_retain_def

lemmas qa_text = check_def one_file_def read_meminfo_from_def str_lines_def meminfo_line_def strip_prefix_def parse_kb_def trim_def
  trim_start_def trim_end_def split_whitespace_def parse_u64_def parse_uint_def starts_with_def strip_cr_def is_ws_def is_ascii_digit_def
  digits_value_def digit_value_def

lemmas qa_errors = fails_with_def is_exhaustion_def is_plane_not_found_def is_lease_not_found_def is_saturation_def

lemmas qa_run = qa_arbiter qa_tables qa_errors qa_calm qa_id_eq

end
