(* ===== verification/Qa_Edge.thy ===== *)
theory Qa_Edge
  imports Qa_Support Sentry
begin

text \<open>
  The edge cases (\<^verbatim>\<open>src/qa/edge\<close>): \<^verbatim>\<open>mod.rs\<close>, \<^verbatim>\<open>boundary_limits.rs\<close>, \<^verbatim>\<open>dead_client_reclaim.rs\<close>,
  \<^verbatim>\<open>preemption_storm.rs\<close>, \<^verbatim>\<open>corrupt_inputs.rs\<close> and \<^verbatim>\<open>sentry_stress.rs\<close>.
\<close>

section \<open>Refusals (\<open>mod.rs\<close>)\<close>

definition test_edge_insufficient_memory_rejection :: "qa_env \<Rightarrow> unit option" where
  "test_edge_insufficient_memory_rejection E = do {
     let st = with_planes [test_plane ''plane-small'' ''Small Accelerator'' DiscreteGpu (1024 * 1024 * 1024) (512 * 1024 * 1024)];
     let (res, st) = acquire (req E 0 Interactive (2 * 1024 * 1024 * 1024) (Some ''plane-small'') None None) st;
     check (fails_with is_exhaustion res)
   }"

definition test_edge_nonexistent_plane_requested :: "qa_env \<Rightarrow> unit option" where
  "test_edge_nonexistent_plane_requested E = do {
     let (res, st) = acquire (req E 0 Interactive 1024 (Some ''nonexistent-plane-404'') None None) (with_planes []);
     check (fails_with is_plane_not_found res)
   }"

definition test_edge_release_unknown_lease :: "qa_env \<Rightarrow> unit option" where
  "test_edge_release_unknown_lease E = do {
     let (res, st) = release_lease (q_lib E) (q_id E 0) (with_planes []);
     check (fails_with is_lease_not_found res)
   }"

definition test_edge_sentry_emergency_preemption_succeeds_even_when_exhausted :: "qa_env \<Rightarrow> unit option" where
  "test_edge_sentry_emergency_preemption_succeeds_even_when_exhausted E = do {
     let st = with_planes [(test_plane ''npu-triage'' ''Dedicated NPU'' NpuAccelerator (1024 * 1024 * 1024) 0)\<lparr>p_triage_reserved := True\<rparr>];
     let (res, st) = acquire (req E 0 EmergencyTriage (512 * 1024 * 1024) None (Some ''systemd-sentry.service'') None) st;
     lease \<leftarrow> unwrap res;
     check (l_priority lease = EmergencyTriage);
     check (l_plane_id lease = ''npu-triage'')
   }"

definition test_edge_corrupt_or_empty_meminfo :: "unit option" where
  "test_edge_corrupt_or_empty_meminfo = do {
     let h = one_file [''Corrupt file without MemTotal or MemAvailable''];
     check (read_meminfo_from h ''/tmp/f'' = (0, 0));
     check (read_meminfo_from h ''/path/that/does/not/exist'' = (0, 0))
   }"

definition test_edge_empty_cpuinfo_core_fallback :: "unit option" where
  "test_edge_empty_cpuinfo_core_fallback = check (count_cpu_cores (one_file []) ''/tmp/f'' = 1)"

section \<open>Boundaries (\<open>boundary_limits.rs\<close>)\<close>

definition make_boundary_arbiter :: "u64 \<Rightarrow> arbiter_state" where
  "make_boundary_arbiter capacity = with_planes [test_plane ''plane-edge-limit'' ''Boundary Limit Plane'' DiscreteGpu capacity capacity]"

definition test_edge_zero_bytes_lease_request :: "qa_env \<Rightarrow> unit option" where
  "test_edge_zero_bytes_lease_request E = do {
     let (r, st) = acquire (req E 0 Interactive 0 None None None) (make_boundary_arbiter (1024 * 1024 * 1024));
     lease \<leftarrow> unwrap r;
     check (l_allocated lease = 0);
     check (l_state lease = Active);
     unwrap (fst (release_lease (q_lib E) (l_id lease) st))
   }"

definition test_edge_u64_max_memory_rejection :: "qa_env \<Rightarrow> unit option" where
  "test_edge_u64_max_memory_rejection E = do {
     let (res, st) = acquire (req E 0 Interactive (- 1) None None None) (make_boundary_arbiter (16 * 1024 * 1024 * 1024));
     check (fails_with is_exhaustion res)
   }"

definition test_edge_exceeding_capacity_by_one_byte :: "qa_env \<Rightarrow> unit option" where
  "test_edge_exceeding_capacity_by_one_byte E = do {
     let cap = 4 * 1024 * 1024 * 1024;
     let (res, st) = acquire (req E 0 Interactive (cap + 1) None None None) (make_boundary_arbiter cap);
     check (fails_with is_exhaustion res)
   }"

definition test_edge_release_lease_idempotence :: "qa_env \<Rightarrow> unit option" where
  "test_edge_release_lease_idempotence E = do {
     let (r, st) = acquire (req E 0 Interactive (512 * 1024 * 1024) None None None) (make_boundary_arbiter (1024 * 1024 * 1024));
     lease \<leftarrow> unwrap r;
     let (r, st) = release_lease (q_lib E) (l_id lease) st;
     unwrap r;
     let (res, st) = release_lease (q_lib E) (l_id lease) st;
     check (\<not> isl res)
   }"

definition test_edge_all_zeros_uuid_lease_not_found :: "qa_env \<Rightarrow> unit option" where
  "test_edge_all_zeros_uuid_lease_not_found E =
     check (fails_with is_lease_not_found (fst (release_lease (q_lib E) 0 (make_boundary_arbiter (1024 * 1024 * 1024)))))"

section \<open>Reclaiming (\<open>dead_client_reclaim.rs\<close>)\<close>

definition test_dead_client_lease_reclaim_lifecycle :: "qa_env \<Rightarrow> unit option" where
  "test_dead_client_lease_reclaim_lifecycle E = do {
     let total_mem = 8 * 1024 * 1024 * 1024;
     let st = with_planes [test_plane ''gpu-reclaim'' ''Discrete GPU Reclaim Plane'' DiscreteGpu total_mem total_mem];
     let (r, st) = acquire (req E 0 Interactive (2 * 1024 * 1024 * 1024) (Some ''gpu-reclaim'') (Some ''ephemeral-worker.service'') (Some 99999)) st;
     lease \<leftarrow> unwrap r;
     p \<leftarrow> plane_at st 0;
     check (p_available p = 6 * 1024 * 1024 * 1024);
     let (r, st) = release_lease (q_lib E) (l_id lease) st;
     unwrap r;
     p \<leftarrow> plane_at st 0;
     check (p_available p = total_mem);
     released \<leftarrow> find (\<lambda>l. l_id l = l_id lease) (list_leases st);
     check (l_state released = Expired);
     let (r, st) = release_lease (q_lib E) (l_id lease) st;
     unwrap r;
     p \<leftarrow> plane_at st 0;
     check (p_available p = total_mem);
     check (fails_with is_lease_not_found (fst (release_lease (q_lib E) (q_id E 1) st)))
   }"

section \<open>Preemption (\<open>preemption_storm.rs\<close>)\<close>

definition test_preemption_storm_under_saturation :: "qa_env \<Rightarrow> unit option" where
  "test_preemption_storm_under_saturation E = do {
     let total_mem = 4 * 1024 * 1024 * 1024;
     let st = with_planes [test_plane ''gpu-storm'' ''Discrete GPU Storm Plane'' DiscreteGpu total_mem total_mem];
     (batch_leases, st) \<leftarrow> acquire_all (map (\<lambda>i. req E i Batch (1024 * 1024 * 1024) (Some ''gpu-storm'')
         (Some (''batch-'' @ show_nat i @ ''.service'')) None) [0..<4]) st;
     p \<leftarrow> plane_at st 0;
     check (p_available p = 0);
     (interactive_leases, st) \<leftarrow> acquire_all (map (\<lambda>i. req E (4 + i) Interactive (1024 * 1024 * 1024) (Some ''gpu-storm'')
         (Some (''interactive-'' @ show_nat i @ ''.service'')) None) [0..<2]) st;
     let preempted_count = length (filter (\<lambda>l. l_state l = Preempted) (list_leases st));
     check (2 \<le> preempted_count);
     let (r, st) = acquire (req E 6 EmergencyTriage (1024 * 1024 * 1024) (Some ''gpu-storm'') (Some ''systemd-sentry.service'') None) st;
     triage_lease \<leftarrow> unwrap r;
     check (l_priority triage_lease = EmergencyTriage);
     st \<leftarrow> release_all (q_lib E) (triage_lease # interactive_leases) st;
     Some ()
   }"

section \<open>Corrupt inputs (\<open>corrupt_inputs.rs\<close>)\<close>

definition test_edge_corrupt_meminfo_garbage_lines :: "unit option" where
  "test_edge_corrupt_meminfo_garbage_lines = do {
     let h = one_file [''!@#$%^&*()_+'', ''MemTotal: not_a_number kB'', ''MemAvailable: null kB''];
     check (read_meminfo_from h ''/tmp/f'' = (0, 0))
   }"

definition test_edge_corrupt_meminfo_missing_avail :: "unit option" where
  "test_edge_corrupt_meminfo_missing_avail =
     check (read_meminfo_from (one_file [''MemTotal:       8192 kB'']) ''/tmp/f'' = (8192 * 1024, 0))"

definition test_edge_corrupt_cpuinfo_no_flags :: "unit option" where
  "test_edge_corrupt_cpuinfo_no_flags = do {
     let h = one_file [''processor : 0'', ''model name : Unknown CPU''];
     check (detect_cpu_features h ''/tmp/f'' = (False, False, False))
   }"

definition test_edge_corrupt_cpuinfo_zero_bytes :: "unit option" where
  "test_edge_corrupt_cpuinfo_zero_bytes = check (count_cpu_cores (one_file []) ''/tmp/f'' = 1)"

section \<open>Triage (\<open>sentry_stress.rs\<close>)\<close>

definition make_stress_arbiter :: arbiter_state where
  "make_stress_arbiter = with_planes [(test_plane ''npu-sentry-stress'' ''Sentry Triage NPU'' NpuAccelerator
     (2 * 1024 * 1024 * 1024) (2 * 1024 * 1024 * 1024))\<lparr>p_triage_reserved := True\<rparr>]"

text \<open>The fifteen tasks, and what is asserted of the state in which they end.\<close>

definition sentry_ping_tasks :: "qa_env \<Rightarrow> job list" where
  "sentry_ping_tasks E = map (\<lambda>i. req E i EmergencyTriage (128 * 1024 * 1024) None (Some (''systemd-sentry-worker-'' @ show_nat i)) None) [0..<15]"

definition test_edge_sentry_rapid_concurrent_pings :: "worker list \<times> arbiter_state \<Rightarrow> unit option" where
  "test_edge_sentry_rapid_concurrent_pings s = (case s of (ws, st) \<Rightarrow> do {
     check (list_all (\<lambda>w. w = Finished) ws);
     p \<leftarrow> plane_at st 0;
     check (p_available p = 2 * 1024 * 1024 * 1024)
   })"

definition test_edge_sentry_displaces_multiple_batch_leases :: "qa_env \<Rightarrow> unit option" where
  "test_edge_sentry_displaces_multiple_batch_leases E = do {
     (batch, st) \<leftarrow> acquire_all (map (\<lambda>i. req E i Batch (512 * 1024 * 1024) (Some ''npu-sentry-stress'') None None) [0..<4]) make_stress_arbiter;
     p \<leftarrow> plane_at st 0;
     check (p_available p = 0);
     let (r, st) = acquire (req E 4 EmergencyTriage (1536 * 1024 * 1024) None (Some ''systemd-sentry.service'') None) st;
     emergency \<leftarrow> unwrap r;
     check (l_state emergency = Active);
     let preempted_count = length (filter (\<lambda>l. case get_lease st (l_id l) of Some lease \<Rightarrow> l_state lease = Preempted | None \<Rightarrow> False) batch);
     check (3 \<le> preempted_count)
   }"

text \<open>The fallback for a message that is not JSON, which \<open>decode\<close> refuses.\<close>

definition test_edge_sentry_payload_serialization_tolerance :: "(string \<Rightarrow> json option) \<Rightarrow> unit option" where
  "test_edge_sentry_payload_serialization_tolerance decode = do {
     raw \<leftarrow> get_str ''raw'' (sentry_payload decode ''non-json-kernel-dump-text-crash'');
     check (raw = ''non-json-kernel-dump-text-crash'')
   }"

definition test_edge_sentry_payload_missing_incident_id :: "unit option" where
  "test_edge_sentry_payload_missing_incident_id = check (get_str ''incident_id'' (JObj [(''action'', JStr ''triage_ping'')]) = None)"

section \<open>Results\<close>

lemma edge_refusals_pass:
  assumes "qa_ok E"
  shows "test_edge_insufficient_memory_rejection E = Some ()" and "test_edge_nonexistent_plane_requested E = Some ()"
    and "test_edge_release_unknown_lease E = Some ()"
    and "test_edge_sentry_emergency_preemption_succeeds_even_when_exhausted E = Some ()"
  unfolding test_edge_insufficient_memory_rejection_def test_edge_nonexistent_plane_requested_def test_edge_release_unknown_lease_def
    test_edge_sentry_emergency_preemption_succeeds_even_when_exhausted_def
  using assms by (simp_all add: qa_run cong: bind_weak)

lemma boundary_limits_pass:
  assumes "qa_ok E"
  shows "test_edge_zero_bytes_lease_request E = Some ()" and "test_edge_u64_max_memory_rejection E = Some ()"
    and "test_edge_exceeding_capacity_by_one_byte E = Some ()" and "test_edge_release_lease_idempotence E = Some ()"
    and "test_edge_all_zeros_uuid_lease_not_found E = Some ()"
  unfolding test_edge_zero_bytes_lease_request_def test_edge_u64_max_memory_rejection_def test_edge_exceeding_capacity_by_one_byte_def
    test_edge_release_lease_idempotence_def test_edge_all_zeros_uuid_lease_not_found_def
  using assms by (simp_all add: make_boundary_arbiter_def qa_run cong: bind_weak)

lemma dead_client_reclaim_passes: "qa_ok E \<Longrightarrow> test_dead_client_lease_reclaim_lifecycle E = Some ()"
  by (simp add: test_dead_client_lease_reclaim_lifecycle_def qa_run cong: bind_weak)

lemma preemption_storm_passes: "qa_ok E \<Longrightarrow> test_preemption_storm_under_saturation E = Some ()"
  by (simp add: test_preemption_storm_under_saturation_def qa_run qa_ranges cong: bind_weak)

lemma corrupt_inputs_pass:
  "test_edge_corrupt_or_empty_meminfo = Some ()" "test_edge_empty_cpuinfo_core_fallback = Some ()"
  "test_edge_corrupt_meminfo_garbage_lines = Some ()" "test_edge_corrupt_cpuinfo_no_flags = Some ()" "test_edge_corrupt_cpuinfo_zero_bytes = Some ()"
  by code_simp+

lemma missing_avail_passes: "test_edge_corrupt_meminfo_missing_avail = Some ()"
  by (simp add: test_edge_corrupt_meminfo_missing_avail_def qa_text)

lemma sentry_pings_pass:
  assumes E: "qa_ok E" and run: "(worker_step L (sentry_ping_tasks E) ^^ 30) (spawned (sentry_ping_tasks E) make_stress_arbiter) (ws, st)"
  shows "test_edge_sentry_rapid_concurrent_pings (ws, st) = Some ()"
proof -
  let ?p = "(test_plane ''npu-sentry-stress'' ''Sentry Triage NPU'' NpuAccelerator 2147483648 2147483648)\<lparr>p_triage_reserved := True\<rparr>"
  have "wanted (sentry_ping_tasks E) = 15 * 134217728"
    by (simp add: wanted_sum_list sentry_ping_tasks_def req_def comp_def sum_list_triv)
  then have "enough ?p (sentry_ping_tasks E)"
    using qa_distinct_ids(1) [OF E, of 15]
    by (simp add: enough_def sentry_ping_tasks_def req_def admissible_def list_all_iff test_plane_def comp_def)
  moreover have "quiet ?p (sentry_ping_tasks E) make_stress_arbiter" by (simp add: make_stress_arbiter_def with_planes_def quiet_new)
  ultimately show ?thesis
    using qa_workers [OF _ _ run, of ?p]
    by (simp add: sentry_ping_tasks_def test_edge_sentry_rapid_concurrent_pings_def make_stress_arbiter_def with_planes_def new_arbiter_def
        plane_at_def check_def test_plane_def)
qed

lemma sentry_displaces_passes: "qa_ok E \<Longrightarrow> test_edge_sentry_displaces_multiple_batch_leases E = Some ()"
  by (simp add: test_edge_sentry_displaces_multiple_batch_leases_def make_stress_arbiter_def qa_run qa_ranges cong: bind_weak)

lemma sentry_payload_passes:
  "decode ''non-json-kernel-dump-text-crash'' = None \<Longrightarrow> test_edge_sentry_payload_serialization_tolerance decode = Some ()"
  "test_edge_sentry_payload_missing_incident_id = Some ()"
proof -
  have "utf8_lossy ''non-json-kernel-dump-text-crash'' = ''non-json-kernel-dump-text-crash''" by code_simp
  then show "decode ''non-json-kernel-dump-text-crash'' = None \<Longrightarrow> test_edge_sentry_payload_serialization_tolerance decode = Some ()"
    by (simp add: test_edge_sentry_payload_serialization_tolerance_def sentry_payload_def get_str_def json_get_def check_def as_str_def)
  show "test_edge_sentry_payload_missing_incident_id = Some ()"
    by (simp add: test_edge_sentry_payload_missing_incident_id_def get_str_def json_get_def check_def)
qed

end
