(* ===== verification/Arbiter_Rank.thy ===== *)
theory Arbiter_Rank
  imports Arbiter_Uma
begin

text \<open>
  Admission by rank. Preemption takes the leases of lower priority one by one until the request
  fits; what it comes to is that a lease of lower priority does not count. This file makes that
  precise: whether a request is granted depends on the memory held by leases of its own or a
  higher priority only.
\<close>

section \<open>Memory held at or above a priority\<close>

definition outranking :: "hardware_topology \<Rightarrow> lease_table \<Rightarrow> string \<Rightarrow> lease_priority \<Rightarrow> nat" where
  "outranking t ls q pr = sum_list (map (\<lambda>(_, l). if pr \<le> l_priority l then contrib t q l else 0) ls)"

text \<open>No lease on another plane takes memory of \<open>q\<close>.\<close>

definition unshared :: "hardware_topology \<Rightarrow> string \<Rightarrow> bool" where
  "unshared t q \<longleftrightarrow> (\<forall>r. touched t r q \<longrightarrow> r = q)"

lemma preempt_all_map:
  "preempt_all is ls = map (\<lambda>(j, l). (j, if j \<in> set is then l\<lparr>l_state := Preempted\<rparr> else l)) ls"
proof (induction "is" arbitrary: ls)
  case Nil
  then show ?case by (simp add: preempt_all_def case_prod_beta)
next
  case (Cons i "is")
  have "preempt_all (i # is) ls = preempt_all is (set_lease_state i Preempted ls)" by (simp add: preempt_all_def)
  also have "\<dots> = map (\<lambda>(j, l). (j, if j \<in> set (i # is) then l\<lparr>l_state := Preempted\<rparr> else l)) ls"
    by (auto simp: Cons set_lease_state_def hm_modify_def)
  finally show ?case .
qed

lemma candidate_iff:
  assumes "leases_ok ls" and "(j, l) \<in> set ls"
  shows "j \<in> set (preemptable ls q pr) \<longleftrightarrow> l_plane_id l = q \<and> is_active l \<and> l_priority l < pr"
proof -
  have "hm_get ls j = Some l" using assms hm_get_Some_iff [OF leases_ok_wf [OF assms(1)]] by blast
  then show ?thesis by (simp add: preemptable_set [OF assms(1)])
qed

lemma demand_preempt_all:
  assumes ok: "leases_ok ls" and "unshared t q"
  shows "demand t (preempt_all (preemptable ls q pr) ls) q = outranking t ls q pr"
proof -
  have "map (\<lambda>(_, l). contrib t q l) (preempt_all (preemptable ls q pr) ls) = map (\<lambda>(_, l). if pr \<le> l_priority l then contrib t q l else 0) ls"
    using assms(2) by (auto simp: preempt_all_map candidate_iff [OF ok] contrib_def is_active_def unshared_def not_le)
  then show ?thesis by (simp add: demand_def outranking_def)
qed

lemma outranking_le_demand:
  assumes ok: "leases_ok ls" and "set is \<subseteq> set (preemptable ls q pr)"
  shows "outranking t ls q pr \<le> demand t (preempt_all is ls) q"
proof -
  have "(if pr \<le> l_priority l then contrib t q l else 0) \<le> contrib t q (if j \<in> set is then l\<lparr>l_state := Preempted\<rparr> else l)"
    if "(j, l) \<in> set ls" for j l
    using candidate_iff [OF ok that, of q pr] assms(2) by (auto simp: not_less)
  then show ?thesis
    unfolding outranking_def demand_def preempt_all_map map_map by (intro sum_list_mono) (auto split del: if_split)
qed

section \<open>Admission\<close>

lemma acquire_rank_spec:
  assumes inv: "arbiter_inv st" and bal: "balanced base (topology st) (leases st)" and fresh: "hm_get (leases st) i = None"
    and calm: "level psi \<noteq> Critical" and ord: "pr \<noteq> EmergencyTriage" and sel: "select_plane (planes (topology st)) pr pref = Ok idx"
    and q: "q = p_id (planes (topology st) ! idx)" "unshared (topology st) q"
    and acq: "acquire_lease psi i now pr req pref u pid st = (r, st', fx)"
  shows "(\<exists>l. r = Ok l) \<longleftrightarrow> outranking (topology st) (leases st) q pr + unat req \<le> base q"
  using acq
proof (cases rule: acquire_cases)
  case throttled
  then show ?thesis using calm by simp
next
  case (no_plane e)
  then show ?thesis using sel by simp
next
  case (exhausted idx' plane t1 ls1 fz)
  have idx: "idx' = idx" "plane = q" using exhausted(2,3) sel q by simp_all
  have ok: "leases_ok (leases st)" and c: "core (topology st) (leases st)" using inv by (simp_all add: arbiter_inv_core core_def)
  obtain k where k: "ls1 = preempt_all (take k (preemptable (leases st) q pr)) (leases st)"
    "k = length (preemptable (leases st) q pr) \<or> req \<le> p_available (planes t1 ! idx)"
    using preempt_loop_prefix [OF exhausted(4) preemptable_ok [OF ok]] idx by auto
  then have ls1: "ls1 = preempt_all (preemptable (leases st) q pr) (leases st)" using exhausted(5) idx by auto
  have li: "loop_inv (topology st) (leases st) t1 ls1" by (rule preempt_loop_core [OF exhausted(4) c])
  then have sk: "skeleton t1 = skeleton (topology st)" and c1: "core t1 ls1" by (simp_all add: loop_inv_def)
  have "plane_of t1 q = Some (planes t1 ! idx)"
    using plane_of_nth [OF core_ids [OF c1], of idx] select_plane_Ok [OF sel] length_skeleton [OF sk] skeleton_nth_id [OF sk] q by simp
  then have "unat (p_available (planes t1 ! idx)) + demand t1 ls1 q = base q"
    using preempt_loop_balanced [OF exhausted(4) c bal] by (auto simp: balanced_def)
  moreover have "demand t1 ls1 q = outranking (topology st) (leases st) q pr"
    using demand_preempt_all [OF ok q(2)] demand_skeleton [OF sk] ls1 by simp
  ultimately show ?thesis using exhausted(5,7) idx by (auto simp: word_less_nat_alt)
next
  case (granted idx' plane t1 ls1 fz lease)
  have idx: "idx' = idx" "plane = q" using granted(2,3) sel q by simp_all
  have ok: "leases_ok (leases st)" and c: "core (topology st) (leases st)" using inv by (simp_all add: arbiter_inv_core core_def)
  obtain k where k: "ls1 = preempt_all (take k (preemptable (leases st) q pr)) (leases st)"
    using preempt_loop_prefix [OF granted(4) preemptable_ok [OF ok]] idx by auto
  note ch = granted_charge [OF c fresh granted(2,3,4,6)]
  have "unat (p_available (planes t1 ! idx)) + demand t1 ls1 q = base q"
    using preempt_loop_balanced [OF granted(4) c bal] ch(3) idx by (auto simp: balanced_def)
  moreover have "outranking (topology st) (leases st) q pr \<le> demand t1 ls1 q"
    using outranking_le_demand [OF ok set_take_subset, of "topology st" q pr k] demand_skeleton [OF ch(4)] k by simp
  moreover have "unat req \<le> unat (p_available (planes t1 ! idx))" using granted(5) ord idx by (auto simp: word_le_nat_alt)
  ultimately show ?thesis using granted(7) by auto
qed

lemma outranking_skeleton: "skeleton t' = skeleton t \<Longrightarrow> outranking t' = outranking t"
  using contrib_skeleton [of t' t] unfolding outranking_def [abs_def] by (simp cong del: if_weak_cong)

lemma outranking_preempt_all:
  assumes ok: "leases_ok ls" and "set is \<subseteq> set (preemptable ls q pr)"
  shows "outranking t (preempt_all is ls) q pr = outranking t ls q pr"
proof -
  have "(let m = (if j \<in> set is then l\<lparr>l_state := Preempted\<rparr> else l) in if pr \<le> l_priority m then contrib t q m else 0)
      = (if pr \<le> l_priority l then contrib t q l else 0)" if "(j, l) \<in> set ls" for j l
    using candidate_iff [OF ok that, of q pr] assms(2) by (auto simp: not_le [symmetric])
  then have "map (\<lambda>(_, l). if pr \<le> l_priority l then contrib t q l else 0) (preempt_all is ls)
      = map (\<lambda>(_, l). if pr \<le> l_priority l then contrib t q l else 0) ls"
    by (auto simp: preempt_all_map Let_def split del: if_split)
  then show ?thesis by (simp add: outranking_def)
qed

lemma outranking_prune: "outranking t (prune_leases ls) q pr = outranking t ls q pr"
proof -
  have "outranking t (hm_retain (\<lambda>_ l. is_active l \<or> l_state l = Preempted) ls) q pr = outranking t ls q pr"
    by (induction ls) (auto simp: outranking_def hm_retain_def contrib_def split: if_splits)
  then show ?thesis by (simp add: prune_leases_def)
qed

lemma outranking_insert_new:
  "hm_get ls i = None \<Longrightarrow> outranking t (hm_insert i l ls) q pr = outranking t ls q pr + (if pr \<le> l_priority l then contrib t q l else 0)"
  by (induction ls) (auto simp: outranking_def hm_insert_def hm_get_def split: if_splits)

text \<open>What a grant leaves behind: older leases of its priority or above are as they were, lower ones may
  have been preempted, and the request now counts at its priority.\<close>

lemma acquire_rank_grant:
  assumes inv: "arbiter_inv st" and fresh: "hm_get (leases st) i = None" and sel: "select_plane (planes (topology st)) pr pref = Ok idx"
    and q: "q = p_id (planes (topology st) ! idx)" and acq: "acquire_lease psi i now pr req pref u pid st = (Ok l, st', fx)"
  shows "l = new_lease i now q req pr u pid" and "skeleton (topology st') = skeleton (topology st)"
    and "outranking (topology st) (leases st') q pr = outranking (topology st) (leases st) q pr + unat req"
    and "hm_get (leases st') i = Some l" and "\<And>j. j \<noteq> i \<Longrightarrow> hm_get (leases st) j = None \<Longrightarrow> hm_get (leases st') j = None"
    and "\<And>j m. hm_get (leases st) j = Some m \<Longrightarrow> live_state (l_state m) \<Longrightarrow>
      hm_get (leases st') j = Some m \<or> is_active m \<and> l_priority m < pr \<and> hm_get (leases st') j = Some (m\<lparr>l_state := Preempted\<rparr>)"
proof -
  have c: "core (topology st) (leases st)" and ok: "leases_ok (leases st)" using inv by (simp_all add: arbiter_inv_core core_def)
  from acq obtain t1 ls1 fz where loop: "preempt_loop idx q req (preemptable (leases st) q pr) (topology st) (leases st) [] = (t1, ls1, fz)"
    and l: "l = new_lease i now q req pr u pid"
    and st': "st' = st\<lparr>topology := charge_at idx req t1, leases := hm_insert i l (prune_leases ls1)\<rparr>"
    using sel q by (cases rule: acquire_cases) auto
  show "l = new_lease i now q req pr u pid" by (rule l)
  obtain k where ls1: "ls1 = preempt_all (take k (preemptable (leases st) q pr)) (leases st)"
    using preempt_loop_prefix [OF loop preemptable_ok [OF ok]] by auto
  note ch = granted_charge [OF c fresh sel q loop l]
  have wf: "hm_wf ls1" by (rule core_wf [OF ch(2)])
  show "skeleton (topology st') = skeleton (topology st)" by (simp add: st' ch(1) ch(4))
  have none: "hm_get (prune_leases ls1) i = None" using fresh by (simp add: prune_get [OF wf]) (simp add: ls1 preempt_all_get)
  have "contrib (topology st) q l = unat req" "l_priority l = pr" by (simp_all add: l new_lease_def contrib_def is_active_def touched_def)
  moreover have "outranking (topology st) (prune_leases ls1) q pr = outranking (topology st) (leases st) q pr"
    by (simp add: outranking_prune ls1 outranking_preempt_all [OF ok set_take_subset])
  ultimately show "outranking (topology st) (leases st') q pr = outranking (topology st) (leases st) q pr + unat req"
    by (simp add: st' outranking_insert_new [OF none])
  show "hm_get (leases st') i = Some l" by (simp add: st')
  show "hm_get (leases st') j = None" if "j \<noteq> i" "hm_get (leases st) j = None" for j
    using that by (simp add: st' prune_get [OF wf]) (simp add: ls1 preempt_all_get)
  fix j m assume m: "hm_get (leases st) j = Some m" "live_state (l_state m)"
  then have "j \<noteq> i" using fresh by auto
  have cand: "j \<in> set (take k (preemptable (leases st) q pr)) \<Longrightarrow> is_active m \<and> l_priority m < pr"
    using m(1) by (auto simp: preemptable_set [OF ok] dest: in_set_takeD)
  have get: "hm_get ls1 j = Some (if j \<in> set (take k (preemptable (leases st) q pr)) then m\<lparr>l_state := Preempted\<rparr> else m)"
    using m(1) by (simp add: ls1 preempt_all_get)
  show "hm_get (leases st') j = Some m \<or> is_active m \<and> l_priority m < pr \<and> hm_get (leases st') j = Some (m\<lparr>l_state := Preempted\<rparr>)"
    using cand m(2) \<open>j \<noteq> i\<close> by (auto simp: st' prune_get [OF wf] get is_active_def)
qed



end
