(* ===== verification/Qa_Stress.thy ===== *)
theory Qa_Stress
  imports Qa_Support Arbiter_Rank
begin

text \<open>
  The stress tests of \<^verbatim>\<open>challenger_r3_psi_uma_stress.rs\<close>, \<^verbatim>\<open>uma_thaw_storm_tests.rs\<close> and
  \<^verbatim>\<open>psi_churn_stress_tests.rs\<close> in \<^verbatim>\<open>src/qa/edge\<close> and of \<^verbatim>\<open>src/qa/fuzz/mod.rs\<close>, whose tasks run
  concurrently. Tasks that only wait for the lock are given as the order in which they get it;
  tasks that acquire and release, and the storm of thaws, are runs of the step relations of
  \<open>Arbiter_Workers\<close>.
\<close>

section \<open>Topologies\<close>

definition create_psi_topology :: "u64 \<Rightarrow> hardware_topology" where
  "create_psi_topology total_mem = default_topology\<lparr>planes :=
     [test_plane ''plane-psi-adversarial'' ''Adversarial PSI Test Plane'' DiscreteGpu total_mem total_mem]\<rparr>"

definition create_uma_cpu_topology :: "u64 \<Rightarrow> hardware_topology" where
  "create_uma_cpu_topology capacity = default_topology\<lparr>planes :=
     [(test_plane ''plane-uma-adv'' ''Adversarial UMA Plane'' IntegratedUma capacity capacity)
        \<lparr>p_numa_node := Some 0, p_features := [''unified_memory'']\<rparr>,
      (test_plane ''plane-cpu-adv'' ''Adversarial CPU Plane'' CpuMatrixExtension capacity capacity)
        \<lparr>p_numa_node := Some 0, p_features := [''avx512'']\<rparr>]\<rparr>"

definition create_uma_pair :: "u64 \<Rightarrow> hardware_topology" where
  "create_uma_pair capacity = default_topology\<lparr>planes :=
     [(test_plane ''plane-uma-0'' ''Integrated UMA Plane'' IntegratedUma capacity capacity)
        \<lparr>p_numa_node := Some 0, p_features := [''unified_memory'']\<rparr>,
      (test_plane ''plane-cpu-0'' ''CPU Matrix Extension'' CpuMatrixExtension capacity capacity)
        \<lparr>p_numa_node := Some 0, p_features := [''amx'']\<rparr>]\<rparr>"

definition check_dual_accounting :: "arbiter_state \<Rightarrow> unit option" where
  "check_dual_accounting st = do {
     uma \<leftarrow> find (\<lambda>p. p_kind p = IntegratedUma) (planes (topology st));
     cpu \<leftarrow> find (\<lambda>p. p_kind p = CpuMatrixExtension) (planes (topology st));
     check (p_available uma = p_available cpu)
   }"

section \<open>Mass thaw storm\<close>

definition uma_batch_task :: "qa_env \<Rightarrow> nat \<Rightarrow> job" where
  "uma_batch_task E i = req E i Batch (1024 * 1024 * 1024) (Some ''plane-uma-adv'') (Some (''batch-task-'' @ show_nat i @ ''.service''))
     (Some (400 + of_nat i))"

definition uma_interactive_task :: "qa_env \<Rightarrow> nat \<Rightarrow> job" where
  "uma_interactive_task E i = req E (16 + i) Interactive (2 * 1024 * 1024 * 1024) (Some ''plane-uma-adv'')
     (Some (''interactive-task-'' @ show_nat i @ ''.service'')) (Some (600 + of_nat i))"

definition batch_worker :: "qa_env \<Rightarrow> nat \<Rightarrow> job" where
  "batch_worker E i = req E i Batch (1024 * 1024 * 1024) (Some ''plane-uma-0'') (Some (''batch-worker-'' @ show_nat i @ ''.service''))
     (Some (100 + of_nat i))"

definition interactive_worker :: "qa_env \<Rightarrow> nat \<Rightarrow> job" where
  "interactive_worker E i = req E (8 + i) Interactive (2 * 1024 * 1024 * 1024) (Some ''plane-uma-0'')
     (Some (''interactive-worker-'' @ show_nat i @ ''.service'')) (Some (200 + of_nat i))"

text \<open>The first two phases: the batch leases, the interactive leases that preempt them, and the state.
  The two tests differ in the topology and in the tasks.\<close>

definition uma_storm_start :: "hardware_topology \<Rightarrow> job list \<Rightarrow> job list \<Rightarrow> nat \<Rightarrow> nat \<Rightarrow> (compute_lease list \<times> compute_lease list \<times> arbiter_state) option" where
  "uma_storm_start topo batch_tasks interactive_tasks batches interactives = do {
     let st = new_arbiter topo;
     check_dual_accounting st;
     (batch_leases, st) \<leftarrow> acquire_all batch_tasks st;
     check (length batch_leases = batches);
     check_dual_accounting st;
     uma \<leftarrow> plane_at st 0;
     cpu \<leftarrow> plane_at st 1;
     check (p_available uma = 0);
     check (p_available cpu = 0);
     (interactive_leases, st) \<leftarrow> acquire_all interactive_tasks st;
     check (length interactive_leases = interactives);
     let preempted_count = length (filter (\<lambda>l. l_state l = Preempted) (list_leases st));
     check (preempted_count = batches);
     check_dual_accounting st;
     Some (batch_leases, interactive_leases, st)
   }"

text \<open>The last phase, after the storm of thaws and releases has left \<open>st\<close>.\<close>

definition uma_storm_end :: "text_lib \<Rightarrow> u64 \<Rightarrow> compute_lease list \<Rightarrow> arbiter_state \<Rightarrow> unit option" where
  "uma_storm_end L capacity batch_leases st = do {
     check_dual_accounting st;
     uma \<leftarrow> plane_at st 0;
     cpu \<leftarrow> plane_at st 1;
     check (p_available uma = 0);
     check (p_available cpu = 0);
     st \<leftarrow> release_all L batch_leases st;
     check_dual_accounting st;
     uma \<leftarrow> plane_at st 0;
     cpu \<leftarrow> plane_at st 1;
     check (p_available uma = capacity);
     check (p_available cpu = capacity)
   }"

definition lock_order :: "nat \<Rightarrow> nat list \<Rightarrow> bool" where
  "lock_order n order \<longleftrightarrow> mset order = mset [0..<n]"

text \<open>The tests, for an order in which the tasks of each phase get the lock.\<close>

definition test_adversarial_uma_cpu_storm :: "qa_env \<Rightarrow> nat list \<Rightarrow> nat list \<Rightarrow> (compute_lease list \<times> compute_lease list \<times> arbiter_state) option" where
  "test_adversarial_uma_cpu_storm E batch_order interactive_order =
     uma_storm_start (create_uma_cpu_topology (16 * 1024 * 1024 * 1024)) (map (uma_batch_task E) batch_order)
       (map (uma_interactive_task E) interactive_order) 16 8"

definition test_uma_preemption_storm :: "qa_env \<Rightarrow> nat list \<Rightarrow> nat list \<Rightarrow> (compute_lease list \<times> compute_lease list \<times> arbiter_state) option" where
  "test_uma_preemption_storm E batch_order interactive_order =
     uma_storm_start (create_uma_pair (8 * 1024 * 1024 * 1024)) (map (batch_worker E) batch_order)
       (map (interactive_worker E) interactive_order) 8 4"

definition test_adversarial_uma_cpu_storm_end :: "text_lib \<Rightarrow> compute_lease list \<Rightarrow> arbiter_state \<Rightarrow> unit option" where
  "test_adversarial_uma_cpu_storm_end L = uma_storm_end L (16 * 1024 * 1024 * 1024)"

definition test_uma_preemption_storm_end :: "text_lib \<Rightarrow> compute_lease list \<Rightarrow> arbiter_state \<Rightarrow> unit option" where
  "test_uma_preemption_storm_end L = uma_storm_end L (8 * 1024 * 1024 * 1024)"

subsection \<open>Acquiring by rank\<close>

text \<open>Requests of one priority that fit beside everything of their rank are all granted, in any order.\<close>

definition ranked :: "string \<Rightarrow> lease_priority \<Rightarrow> job list \<Rightarrow> bool" where
  "ranked u pr js \<longleftrightarrow> pr \<noteq> EmergencyTriage \<and> distinct (map j_id js)
     \<and> list_all (\<lambda>j. level (j_psi j) \<noteq> Critical \<and> j_priority j = pr \<and> j_plane j = Some u) js"

lemma in_step_unshared: "ids_distinct t \<Longrightarrow> in_step u c t \<Longrightarrow> unshared t u"
  using first_cpu_not_uma [of t u] by (auto simp: unshared_def touched_def in_step_def)

lemma select_preferred:
  assumes "ids_distinct t" and "plane_of t u \<noteq> None"
  obtains idx where "select_plane (planes t) pr (Some u) = Ok idx" and "u = p_id (planes t ! idx)"
proof -
  obtain i where i: "position (\<lambda>p. p_id p = u) (planes t) = Some i"
    using assms(2) by (cases "position (\<lambda>p. p_id p = u) (planes t)") (auto simp: position_None_iff plane_of_None_iff)
  show thesis
  proof (rule that)
    show "select_plane (planes t) pr (Some u) = Ok i" using i by (simp add: select_plane_def)
    show "u = p_id (planes t ! i)" using position_SomeD [OF i] by simp
  qed
qed

text \<open>Leases in force stay as they are, or are preempted for a request of higher priority.\<close>

definition kept_below :: "lease_priority \<Rightarrow> lease_table \<Rightarrow> lease_table \<Rightarrow> bool" where
  "kept_below pr ls ls' \<longleftrightarrow> (\<forall>i m. hm_get ls i = Some m \<longrightarrow> live_state (l_state m) \<longrightarrow>
     hm_get ls' i = Some m \<or> is_active m \<and> l_priority m < pr \<and> hm_get ls' i = Some (m\<lparr>l_state := Preempted\<rparr>))"

lemma kept_belowD:
  "kept_below pr ls ls' \<Longrightarrow> hm_get ls i = Some m \<Longrightarrow> live_state (l_state m) \<Longrightarrow>
     hm_get ls' i = Some m \<or> is_active m \<and> l_priority m < pr \<and> hm_get ls' i = Some (m\<lparr>l_state := Preempted\<rparr>)"
  unfolding kept_below_def by blast

lemma kept_below_trans: "kept_below pr a b \<Longrightarrow> kept_below pr b c \<Longrightarrow> kept_below pr a c"
  unfolding kept_below_def by (fastforce simp: is_active_def)

lemma acquire_one_ranked:
  assumes sb: "shared_balanced u c base st" and rk: "ranked u pr (j # js)" and fresh: "hm_get (leases st) (j_id j) = None"
    and room: "outranking (topology st) (leases st) u pr + unat (j_bytes j) \<le> base u"
  shows "\<exists>l st'. acquire j st = (Ok l, st') \<and> l = new_lease (j_id j) (j_now j) u (j_bytes j) pr (j_unit j) (j_pid j)
    \<and> shared_balanced u c base st' \<and> skeleton (topology st') = skeleton (topology st)
    \<and> outranking (topology st') (leases st') u pr = outranking (topology st) (leases st) u pr + unat (j_bytes j)
    \<and> hm_get (leases st') (j_id j) = Some l \<and> (\<forall>i. i \<noteq> j_id j \<longrightarrow> hm_get (leases st) i = None \<longrightarrow> hm_get (leases st') i = None)
    \<and> kept_below pr (leases st) (leases st')"
proof -
  have inv: "arbiter_inv st" and bal: "balanced base (topology st) (leases st)" and step: "in_step u c (topology st)"
    using sb by (simp_all add: shared_balanced_def shared_in_step_def)
  have d: "ids_distinct (topology st)" using inv by (simp add: arbiter_inv_def topo_ok_def)
  have uma: "is_uma (topology st) u" and "first_cpu (topology st) = Some c" using step by (simp_all add: in_step_def)
  then have uc: "u \<noteq> c" using first_cpu_not_uma [OF d, of u] by auto
  obtain idx where sel: "select_plane (planes (topology st)) pr (Some u) = Ok idx" and q: "u = p_id (planes (topology st) ! idx)"
    using select_preferred [OF d, of u] uma by (auto simp: is_uma_def split: option.splits)
  have j: "level (j_psi j) \<noteq> Critical" "j_priority j = pr" "j_plane j = Some u" "pr \<noteq> EmergencyTriage" using rk by (simp_all add: ranked_def)
  let ?op = "OpAcquire (j_psi j) (j_id j) (j_now j) pr (j_bytes j) (Some u) (j_unit j) (j_pid j)"
  obtain r st' fx where a: "acquire_lease (j_psi j) (j_id j) (j_now j) pr (j_bytes j) (Some u) (j_unit j) (j_pid j) st = (r, st', fx)"
    by (metis prod_cases3)
  obtain l where r: "r = Ok l"
    using acquire_rank_spec [OF inv bal fresh j(1,4) sel q in_step_unshared [OF d step] a] room by blast
  note g = acquire_rank_grant [OF inv fresh sel q a [unfolded r]]
  have "guarded_step (spares_unforced u c) undefined st (exec_op undefined ?op st)"
    by (rule guarded_step.op) (use fresh j(4) sel q uc in \<open>simp_all add: spares_unforced_def\<close>)
  then have "shared_balanced u c base st'" using conserved.step_inv [OF sb] a by simp
  moreover have "kept_below pr (leases st) (leases st')" unfolding kept_below_def using g(6) by blast
  ultimately show ?thesis using a r g(1-5) j outranking_skeleton [OF g(2)] by (simp add: acquire_def job_acquire_def)
qed

lemma acquire_all_ranked:
  assumes "shared_balanced u c base st" and "ranked u pr js" and "\<forall>j \<in> set js. hm_get (leases st) (j_id j) = None"
    and "outranking (topology st) (leases st) u pr + (\<Sum>j \<leftarrow> js. unat (j_bytes j)) \<le> base u"
  shows "\<exists>ls st'. acquire_all js st = Some (ls, st') \<and> ls = map (\<lambda>j. new_lease (j_id j) (j_now j) u (j_bytes j) pr (j_unit j) (j_pid j)) js
    \<and> shared_balanced u c base st' \<and> skeleton (topology st') = skeleton (topology st)
    \<and> outranking (topology st') (leases st') u pr = outranking (topology st) (leases st) u pr + (\<Sum>j \<leftarrow> js. unat (j_bytes j))
    \<and> (\<forall>l \<in> set ls. hm_get (leases st') (l_id l) = Some l)
    \<and> (\<forall>i. i \<notin> j_id ` set js \<longrightarrow> hm_get (leases st) i = None \<longrightarrow> hm_get (leases st') i = None)
    \<and> kept_below pr (leases st) (leases st')"
  using assms
proof (induction js arbitrary: st)
  case Nil
  then show ?case by (simp add: kept_below_def)
next
  case (Cons j js)
  have fresh: "hm_get (leases st) (j_id j) = None" using Cons.prems(3) by simp
  have room: "outranking (topology st) (leases st) u pr + unat (j_bytes j) \<le> base u" using Cons.prems(4) by simp
  obtain l st1 where l: "acquire j st = (Ok l, st1)" "l = new_lease (j_id j) (j_now j) u (j_bytes j) pr (j_unit j) (j_pid j)"
    "shared_balanced u c base st1" "skeleton (topology st1) = skeleton (topology st)"
    "outranking (topology st1) (leases st1) u pr = outranking (topology st) (leases st) u pr + unat (j_bytes j)"
    "hm_get (leases st1) (j_id j) = Some l" "\<And>i. i \<noteq> j_id j \<Longrightarrow> hm_get (leases st) i = None \<Longrightarrow> hm_get (leases st1) i = None"
    "kept_below pr (leases st) (leases st1)"
    using acquire_one_ranked [OF Cons.prems(1,2) fresh room] by blast
  have d: "j_id j \<notin> j_id ` set js" and rk: "ranked u pr js" using Cons.prems(2) by (auto simp: ranked_def)
  then have "\<forall>k \<in> set js. hm_get (leases st1) (j_id k) = None" using l(7) Cons.prems(3) by (metis image_eqI list.set_intros(2))
  moreover have "outranking (topology st1) (leases st1) u pr + (\<Sum>j \<leftarrow> js. unat (j_bytes j)) \<le> base u" using Cons.prems(4) l(5) by simp
  ultimately obtain ls st' where r: "acquire_all js st1 = Some (ls, st')"
    "ls = map (\<lambda>j. new_lease (j_id j) (j_now j) u (j_bytes j) pr (j_unit j) (j_pid j)) js"
    "shared_balanced u c base st'" "skeleton (topology st') = skeleton (topology st1)"
    "outranking (topology st') (leases st') u pr = outranking (topology st1) (leases st1) u pr + (\<Sum>j \<leftarrow> js. unat (j_bytes j))"
    "\<forall>l \<in> set ls. hm_get (leases st') (l_id l) = Some l"
    "\<And>i. i \<notin> j_id ` set js \<Longrightarrow> hm_get (leases st1) i = None \<Longrightarrow> hm_get (leases st') i = None"
    "kept_below pr (leases st1) (leases st')"
    using Cons.IH [OF l(3) rk] by blast
  have "l_id l = j_id j" "live_state (l_state l)" "\<not> l_priority l < pr" by (simp_all add: l(2) new_lease_def)
  then have "hm_get (leases st') (l_id l) = Some l" using kept_belowD [OF r(8) l(6)] by auto
  moreover have "hm_get (leases st') i = None" if "i \<notin> j_id ` set (j # js)" "hm_get (leases st) i = None" for i
    using l(7) [of i] r(7) [of i] that by simp
  ultimately show ?case using l(1-5) r(1-6) kept_below_trans [OF l(8) r(8)] by (simp add: unwrap_def)
qed

subsection \<open>The planes of the storm\<close>

definition uma_frame :: "string \<Rightarrow> string \<Rightarrow> (string \<times> compute_plane_kind) list" where
  "uma_frame u c = [(u, IntegratedUma), (c, CpuMatrixExtension)]"

lemma uma_frame_planes:
  assumes "skeleton (topology st) = uma_frame u c" and "u \<noteq> c"
  obtains a b where "planes (topology st) = [a, b]" and "p_id a = u" "p_kind a = IntegratedUma"
    "p_id b = c" "p_kind b = CpuMatrixExtension"
    and "plane_of (topology st) u = Some a" "plane_of (topology st) c = Some b"
proof -
  obtain a b where "planes (topology st) = [a, b]" "p_id a = u" "p_kind a = IntegratedUma"
    "p_id b = c" "p_kind b = CpuMatrixExtension"
    using assms by (auto simp: skeleton_def uma_frame_def map_eq_Cons_conv)
  then show thesis using that assms(2) by (simp add: plane_of_def)
qed

text \<open>What the test reads of a state in which each plane has \<open>n\<close> bytes left.\<close>

lemma uma_frame_reads:
  assumes "skeleton (topology st) = uma_frame u c" and "u \<noteq> c" and "balanced base (topology st) (leases st)"
    and "base u = demand (topology st) (leases st) u + n"
      "base c = demand (topology st) (leases st) c + n"
  shows "check_dual_accounting st = Some ()"
    and "map_option (\<lambda>p. unat (p_available p)) (plane_at st 0) = Some n" and "map_option (\<lambda>p. unat (p_available p)) (plane_at st 1) = Some n"
proof -
  obtain a b where p: "planes (topology st) = [a, b]" "p_kind a = IntegratedUma" "p_kind b = CpuMatrixExtension"
    "plane_of (topology st) u = Some a" "plane_of (topology st) c = Some b"
    using uma_frame_planes [OF assms(1,2)] by metis
  have av: "unat (p_available a) = n" "unat (p_available b) = n" using assms(3-) p(4,5) unfolding balanced_def by (metis add.commute add_right_cancel)+
  then have "p_available a = p_available b" by (simp add: word_unat_eq_iff)
  then show "check_dual_accounting st = Some ()" using p by (simp add: check_dual_accounting_def check_def)
  show "map_option (\<lambda>p. unat (p_available p)) (plane_at st 0) = Some n" "map_option (\<lambda>p. unat (p_available p)) (plane_at st 1) = Some n"
    using p av by (simp_all add: plane_at_def)
qed

text \<open>Two planes of one size, a unified one and the CPU's.\<close>

definition uma_pair :: "string \<Rightarrow> string \<Rightarrow> u64 \<Rightarrow> hardware_topology \<Rightarrow> bool" where
  "uma_pair u c cap t \<longleftrightarrow> u \<noteq> c \<and> skeleton t = uma_frame u c \<and> list_all (\<lambda>p. p_available p = cap \<and> p_total p = cap) (planes t)"

lemma uma_pairs:
  "uma_pair ''plane-uma-adv'' ''plane-cpu-adv'' cap (create_uma_cpu_topology cap)"
  "uma_pair ''plane-uma-0'' ''plane-cpu-0'' cap (create_uma_pair cap)"
  by (simp_all add: uma_pair_def create_uma_cpu_topology_def create_uma_pair_def skeleton_def uma_frame_def test_plane_def)

abbreviation uma_base :: "string \<Rightarrow> string \<Rightarrow> u64 \<Rightarrow> string \<Rightarrow> nat" where
  "uma_base u c cap q \<equiv> (if q \<in> fst ` set (uma_frame u c) then unat cap else 0)"

lemma uma_start:
  assumes "uma_pair u c cap t"
  shows "shared_balanced u c (uma_base u c cap) (new_arbiter t)" and "check_dual_accounting (new_arbiter t) = Some ()"
proof -
  have t: "topology (new_arbiter t) = t" "u \<noteq> c" by (use assms in \<open>simp_all add: new_arbiter_def uma_pair_def\<close>)
  obtain a b where p: "planes t = [a, b]" "p_id a = u" "p_kind a = IntegratedUma" "p_id b = c" "p_kind b = CpuMatrixExtension"
    using uma_frame_planes [of "new_arbiter t" u c] assms by (metis t uma_pair_def)
  have s: "p_available a = cap" "p_total a = cap" "p_available b = cap" "p_total b = cap" using assms p(1) by (simp_all add: uma_pair_def)
  have "topo_ok t" "in_step u c t"
    using p s t(2) by (auto simp: topo_ok_def ids_distinct_def bounded_planes_def in_step_def skeleton_def first_cpu_def is_uma_def plane_of_def is_cpu_plane_def)
  then have "shared_balanced u c (base_of t) (new_arbiter t)" by (rule shared_balanced_start)
  moreover have "base_of t = uma_base u c cap" using p s t(2) by (auto simp: base_of_def plane_of_def uma_frame_def fun_eq_iff)
  ultimately show "shared_balanced u c (uma_base u c cap) (new_arbiter t)" by simp
  show "check_dual_accounting (new_arbiter t) = Some ()" using p s t(1) by (simp add: check_dual_accounting_def check_def)
qed

subsection \<open>Who is left\<close>

lemma outranking_gap:
  assumes "demand t ls q \<le> outranking t ls q pr" and "(i, l) \<in> set ls" and "l_priority l < pr"
  shows "contrib t q l = 0"
proof -
  have "demand t ls q = outranking t ls q pr + (\<Sum>(i, l) \<leftarrow> ls. if pr \<le> l_priority l then 0 else contrib t q l)"
    by (induction ls) (auto simp: demand_def outranking_def)
  then have "(\<Sum>(i, l) \<leftarrow> ls. if pr \<le> l_priority l then 0 else contrib t q l) = 0" using assms(1) by simp
  then have "\<forall>(i, l) \<in> set ls. (if pr \<le> l_priority l then 0 else contrib t q l) = 0" by (simp add: sum_list_eq_0_iff case_prod_beta)
  then show ?thesis using assms(2,3) by (fastforce dest: leD split: if_splits)
qed

lemma outranking_none:
  assumes "hm_wf ls" and "\<And>i l. hm_get ls i = Some l \<Longrightarrow> l_priority l < pr"
  shows "outranking t ls q pr = 0"
proof -
  have "\<not> pr \<le> l_priority l" if "(i, l) \<in> set ls" for i l using assms that by (meson hm_get_Some_iff leD)
  then show ?thesis by (auto simp: outranking_def sum_list_eq_0_iff)
qed

lemma count_values:
  assumes "hm_wf ls"
  shows "length (filter P (hm_values ls)) = card {i. \<exists>l. hm_get ls i = Some l \<and> P l}"
proof -
  have "{i. \<exists>l. hm_get ls i = Some l \<and> P l} = set (map fst (filter (P \<circ> snd) ls))" using hm_get_Some_iff [OF assms] by force
  moreover have "distinct (map fst (filter (P \<circ> snd) ls))" using assms by (simp add: hm_wf_def distinct_map_filter)
  then have "length (map fst (filter (P \<circ> snd) ls)) = card (set (map fst (filter (P \<circ> snd) ls)))" by (rule distinct_card [symmetric])
  ultimately show ?thesis by (simp only: hm_values_def filter_map length_map)
qed

lemma balanced_bound: "balanced base t ls \<Longrightarrow> plane_of t q \<noteq> None \<Longrightarrow> demand t ls q \<le> base q"
  unfolding balanced_def by (metis le_add2 not_Some_eq)

lemma shared_demand:
  assumes "shared_balanced u c base st" and "base u = base c"
  shows "demand (topology st) (leases st) c = demand (topology st) (leases st) u" and "touched (topology st) u u" "touched (topology st) u c"
proof -
  have s: "in_step u c (topology st)" and b: "balanced base (topology st) (leases st)"
    using assms(1) by (simp_all add: shared_balanced_def shared_in_step_def)
  obtain p p' where p: "plane_of (topology st) u = Some p" "plane_of (topology st) c = Some p'" "p_available p = p_available p'"
    using s by (cases "plane_of (topology st) c") (auto simp: in_step_def is_uma_def split: option.splits)
  have "unat (p_available p) + demand (topology st) (leases st) u = base u" "unat (p_available p') + demand (topology st) (leases st) c = base c"
    using b p(1,2) by (simp_all add: balanced_def)
  then show "demand (topology st) (leases st) c = demand (topology st) (leases st) u" using p(3) assms(2) by simp
  show "touched (topology st) u u" "touched (topology st) u c" using s by (simp_all add: touched_def in_step_def)
qed

lemma load_same:
  assumes "touched (topology st) u q"
  shows "\<forall>l \<in> set ls. \<exists>s. hm_get (leases st) (l_id l) = Some (l\<lparr>l_state := s\<rparr>) \<and> l_plane_id l = u
    \<Longrightarrow> load st q (map l_id ls) = (\<Sum>l \<leftarrow> ls. unat (l_allocated l))"
  using assms by (induction ls) (auto simp: load_def due_def)

text \<open>The state the storm starts from: the interactive leases hold the whole memory, the batch leases are preempted.\<close>

definition storm_ready :: "string \<Rightarrow> string \<Rightarrow> u64 \<Rightarrow> compute_lease list \<Rightarrow> compute_lease list \<Rightarrow> arbiter_state \<Rightarrow> bool" where
  "storm_ready u c cap bl il st \<longleftrightarrow> u \<noteq> c \<and> arbiter_inv st \<and> balanced (uma_base u c cap) (topology st) (leases st)
     \<and> skeleton (topology st) = uma_frame u c \<and> distinct (map l_id il @ map l_id bl)
     \<and> (\<forall>l \<in> set il. hm_get (leases st) (l_id l) = Some l \<and> l_state l = Active)
     \<and> (\<forall>l \<in> set bl. hm_get (leases st) (l_id l) = Some (l\<lparr>l_state := Preempted\<rparr>))
     \<and> (\<forall>q \<in> fst ` set (uma_frame u c). demand (topology st) (leases st) q = unat cap \<and> load st q (map l_id il) = unat cap \<and> load st q (map l_id bl) = unat cap)"

text \<open>The tasks of each phase ask for the whole memory.\<close>

definition storm_tasks :: "string \<Rightarrow> u64 \<Rightarrow> job list \<Rightarrow> job list \<Rightarrow> bool" where
  "storm_tasks u cap bjs ijs \<longleftrightarrow> ranked u Batch bjs \<and> ranked u Interactive ijs \<and> distinct (map j_id (ijs @ bjs))
     \<and> (\<Sum>j \<leftarrow> bjs. unat (j_bytes j)) = unat cap \<and> (\<Sum>j \<leftarrow> ijs. unat (j_bytes j)) = unat cap \<and> list_all (\<lambda>j. unat (j_bytes j) > 0) bjs"

lemma orderD: "lock_order n xs \<Longrightarrow> distinct xs \<and> set xs = {..<n} \<and> length xs = n"
  unfolding lock_order_def by (metis atLeast0LessThan diff_zero distinct_upt length_upt mset_eq_imp_distinct_iff mset_eq_length mset_eq_setD set_upt)

lemma storm_tasksI:
  assumes E: "qa_ok E" and order: "lock_order nb bs" "lock_order ni is" and n: "nb + ni \<le> 128"
    and bt: "\<And>i. \<exists>un pid. bt i = req E i Batch b (Some u) un pid" and it: "\<And>i. \<exists>un pid. it i = req E (nb + i) Interactive b' (Some u) un pid"
    and sums: "nb * unat b = unat cap" "ni * unat b' = unat cap" "0 < unat b"
  shows "storm_tasks u cap (map bt bs) (map it is)"
proof -
  have b: "j_id (bt i) = q_id E i" "j_bytes (bt i) = b" "j_priority (bt i) = Batch" "j_plane (bt i) = Some u" "level (j_psi (bt i)) \<noteq> Critical" for i
    using bt [of i] qa_calm [OF E] by (auto simp: req_def)
  have i: "j_id (it i) = q_id E (nb + i)" "j_bytes (it i) = b'" "j_priority (it i) = Interactive" "j_plane (it i) = Some u" "level (j_psi (it i)) \<noteq> Critical" for i
    using it [of i] qa_calm [OF E] by (auto simp: req_def)
  note o = orderD [OF order(1)] orderD [OF order(2)]
  have "inj_on (q_id E) {..<nb + ni}" using E n by (auto simp: qa_ok_def intro: inj_on_subset)
  moreover have "set bs \<subseteq> {..<nb + ni}" "(+) nb ` set is \<subseteq> {..<nb + ni}" "set bs \<inter> (+) nb ` set is = {}" using o by auto
  ultimately have "q_id E ` set bs \<inter> q_id E ` (+) nb ` set is = {}" "inj_on (q_id E) (set bs)" "inj_on (q_id E) ((+) nb ` set is)"
    by (metis image_empty inj_on_image_Int, metis inj_on_subset, metis inj_on_subset)
  then have "distinct (map j_id (map it is @ map bt bs))" "distinct (map j_id (map bt bs))" "distinct (map j_id (map it is))"
    using o by (auto simp: b i distinct_map comp_def image_image inj_on_def)
  then show ?thesis using sums o by (simp add: storm_tasks_def ranked_def list_all_iff b i comp_def sum_list_triv)
qed

lemma storm_tasks_ok:
  assumes E: "qa_ok E"
  shows "lock_order 16 bs \<Longrightarrow> lock_order 8 is \<Longrightarrow>
      storm_tasks ''plane-uma-adv'' 17179869184 (map (uma_batch_task E) bs) (map (uma_interactive_task E) is)"
    and "lock_order 8 bs \<Longrightarrow> lock_order 4 is \<Longrightarrow>
      storm_tasks ''plane-uma-0'' 8589934592 (map (batch_worker E) bs) (map (interactive_worker E) is)"
proof -
  show "storm_tasks ''plane-uma-adv'' 17179869184 (map (uma_batch_task E) bs) (map (uma_interactive_task E) is)"
    if "lock_order 16 bs" "lock_order 8 is"
    by (rule storm_tasksI [OF E that, of _ 1073741824 _ _ 2147483648]) (simp_all add: uma_batch_task_def uma_interactive_task_def, blast+)
  show "storm_tasks ''plane-uma-0'' 8589934592 (map (batch_worker E) bs) (map (interactive_worker E) is)"
    if "lock_order 8 bs" "lock_order 4 is"
    by (rule storm_tasksI [OF E that, of _ 1073741824 _ _ 2147483648]) (simp_all add: batch_worker_def interactive_worker_def, blast+)
qed

lemma batch_phase:
  assumes pair: "uma_pair u c cap t" and tasks: "storm_tasks u cap bjs ijs"
  shows "\<exists>bl st. acquire_all bjs (new_arbiter t) = Some (bl, st) \<and> bl = map (\<lambda>j. new_lease (j_id j) (j_now j) u (j_bytes j) Batch (j_unit j) (j_pid j)) bjs
    \<and> shared_balanced u c (uma_base u c cap) st \<and> skeleton (topology st) = uma_frame u c \<and> demand (topology st) (leases st) u = unat cap
    \<and> (\<forall>l \<in> set bl. hm_get (leases st) (l_id l) = Some l) \<and> (\<forall>i. i \<notin> set (map l_id bl) \<longrightarrow> hm_get (leases st) i = None)"
proof -
  have t: "ranked u Batch bjs" and sum: "(\<Sum>j \<leftarrow> bjs. unat (j_bytes j)) = unat cap" using tasks by (simp_all add: storm_tasks_def)
  have uc: "u \<noteq> c" using pair by (simp add: uma_pair_def)
  have start: "leases (new_arbiter t) = hm_new" "topology (new_arbiter t) = t" "skeleton t = uma_frame u c"
    using pair by (simp_all add: new_arbiter_def uma_pair_def)
  have zero: "outranking (topology (new_arbiter t)) (leases (new_arbiter t)) u Batch = 0" by (simp add: start outranking_def hm_new_def)
  obtain bl st where a: "acquire_all bjs (new_arbiter t) = Some (bl, st)" "bl = map (\<lambda>j. new_lease (j_id j) (j_now j) u (j_bytes j) Batch (j_unit j) (j_pid j)) bjs"
    "shared_balanced u c (uma_base u c cap) st" "skeleton (topology st) = uma_frame u c" "outranking (topology st) (leases st) u Batch = unat cap"
    "\<forall>l \<in> set bl. hm_get (leases st) (l_id l) = Some l" "\<forall>i. i \<notin> j_id ` set bjs \<longrightarrow> hm_get (leases st) i = None"
    using acquire_all_ranked [OF uma_start(1) [OF pair] t, unfolded sum zero] start by (auto simp: uma_frame_def)
  have "demand (topology st) (leases st) u = unat cap"
  proof -
    have "arbiter_inv st" and b: "balanced (uma_base u c cap) (topology st) (leases st)" using a(3) by (simp_all add: shared_balanced_def shared_in_step_def)
    then have "outranking (topology st) (leases st) u Batch \<le> demand (topology st) (leases st) u"
      using outranking_le_demand [of "leases st" "[]" u Batch "topology st"] by (simp add: arbiter_inv_core core_def preempt_all_def)
    moreover have "demand (topology st) (leases st) u \<le> uma_base u c cap u"
      using balanced_bound [OF b] uma_frame_planes [OF a(4) uc] by (metis option.distinct(1))
    ultimately show ?thesis using a(5) by (simp add: uma_frame_def)
  qed
  moreover have "j_id ` set bjs = set (map l_id bl)" by (auto simp: a(2) new_lease_def)
  then have "\<forall>i. i \<notin> set (map l_id bl) \<longrightarrow> hm_get (leases st) i = None" using a(7) by simp
  ultimately show ?thesis using a(1-4,6) by (intro exI [of _ bl] exI [of _ st] conjI)
qed

lemma interactive_phase:
  fixes base :: "string \<Rightarrow> nat" and u c :: string
  assumes sb: "shared_balanced u c base st1" and base: "base u = n" "base c = n"
    and rk: "ranked u Interactive js" and sum: "(\<Sum>j \<leftarrow> js. unat (j_bytes j)) = n" and apart: "distinct (map j_id js @ map l_id bl)"
    and bl: "\<forall>l \<in> set bl. l_plane_id l = u \<and> unat (l_allocated l) > 0 \<and> l_priority l = Batch \<and> l_state l = Active"
    and get: "\<forall>l \<in> set bl. hm_get (leases st1) (l_id l) = Some l" and only: "\<forall>i. i \<notin> set (map l_id bl) \<longrightarrow> hm_get (leases st1) i = None"
  shows "\<exists>il st. acquire_all js st1 = Some (il, st) \<and> il = map (\<lambda>j. new_lease (j_id j) (j_now j) u (j_bytes j) Interactive (j_unit j) (j_pid j)) js
    \<and> shared_balanced u c base st \<and> skeleton (topology st) = skeleton (topology st1)
    \<and> demand (topology st) (leases st) u = n \<and> demand (topology st) (leases st) c = n
    \<and> (\<forall>l \<in> set il. hm_get (leases st) (l_id l) = Some l) \<and> (\<forall>l \<in> set bl. hm_get (leases st) (l_id l) = Some (l\<lparr>l_state := Preempted\<rparr>))
    \<and> length (filter (\<lambda>l. l_state l = Preempted) (list_leases st)) = length bl"
proof -
  have inv1: "arbiter_inv st1" using sb by (simp add: shared_balanced_def shared_in_step_def)
  have fresh: "\<forall>j \<in> set js. hm_get (leases st1) (j_id j) = None" using apart only by fastforce
  have "l_priority l < Interactive" if "hm_get (leases st1) i = Some l" for i l
    using that only get bl by (cases "i \<in> set (map l_id bl)") (auto simp: less_lease_priority_def)
  then have zero: "outranking (topology st1) (leases st1) u Interactive = 0"
    using inv1 by (intro outranking_none) (simp_all add: arbiter_inv_core core_wf [of "topology st1"])
  obtain il st where a: "acquire_all js st1 = Some (il, st)" "il = map (\<lambda>j. new_lease (j_id j) (j_now j) u (j_bytes j) Interactive (j_unit j) (j_pid j)) js"
    "shared_balanced u c base st" "skeleton (topology st) = skeleton (topology st1)" "outranking (topology st) (leases st) u Interactive = n"
    "\<forall>l \<in> set il. hm_get (leases st) (l_id l) = Some l" "\<forall>i. i \<notin> j_id ` set js \<longrightarrow> hm_get (leases st1) i = None \<longrightarrow> hm_get (leases st) i = None"
    "kept_below Interactive (leases st1) (leases st)"
    using acquire_all_ranked [OF sb rk fresh, unfolded sum zero base] by auto
  have inv: "arbiter_inv st" and bal: "balanced base (topology st) (leases st)" and "in_step u c (topology st)"
    using a(3) by (simp_all add: shared_balanced_def shared_in_step_def)
  have wf: "hm_wf (leases st)" using inv by (simp add: arbiter_inv_core core_wf [of "topology st"])
  have le: "demand (topology st) (leases st) u \<le> n"
    using balanced_bound [OF bal, of u] \<open>in_step u c (topology st)\<close> base(1) by (auto simp: in_step_def is_uma_def split: option.splits)
  have pre: "hm_get (leases st) (l_id l) = Some (l\<lparr>l_state := Preempted\<rparr>)" if "l \<in> set bl" for l
  proof -
    have l: "hm_get (leases st1) (l_id l) = Some l" "live_state (l_state l)" "l_plane_id l = u" "unat (l_allocated l) > 0" "is_active l" "l_priority l < Interactive"
      using that get bl by (auto simp: is_active_def less_lease_priority_def)
    then have "contrib (topology st) u l \<noteq> 0" by (simp add: contrib_def touched_def)
    then have "hm_get (leases st) (l_id l) \<noteq> Some l"
      using outranking_gap [of "topology st" "leases st" u Interactive "l_id l" l] le a(5) l(6) hm_get_Some_iff [OF wf] by auto
    then show ?thesis using kept_belowD [OF a(8) l(1,2)] by blast
  qed
  have "{i. \<exists>l. hm_get (leases st) i = Some l \<and> l_state l = Preempted} = set (map l_id bl)"
  proof (rule set_eqI, rule iffI)
    fix i assume "i \<in> {i. \<exists>l. hm_get (leases st) i = Some l \<and> l_state l = Preempted}"
    then obtain l where l: "hm_get (leases st) i = Some l" "l_state l = Preempted" by blast
    have "i \<notin> j_id ` set js" using l a(2,6) by (auto simp: new_lease_def)
    then show "i \<in> set (map l_id bl)" using l(1) a(7) only by (metis option.distinct(1))
  next
    fix i assume "i \<in> set (map l_id bl)"
    then show "i \<in> {i. \<exists>l. hm_get (leases st) i = Some l \<and> l_state l = Preempted}" using pre by auto
  qed
  then have "length (filter (\<lambda>l. l_state l = Preempted) (list_leases st)) = length bl"
    using count_values [OF wf, of "\<lambda>l. l_state l = Preempted"] apart distinct_card [of "map l_id bl"] by (simp add: list_leases_def)
  moreover have "n \<le> demand (topology st) (leases st) u"
    using outranking_le_demand [of "leases st" "[]" u Interactive "topology st"] inv a(5) by (simp add: arbiter_inv_core core_def preempt_all_def)
  ultimately show ?thesis using a(1-4,6) pre le shared_demand(1) [OF a(3)] base by auto
qed

lemma uma_storm_start_passes:
  assumes pair: "uma_pair u c cap t" and tasks: "storm_tasks u cap bjs ijs" and len: "length bjs = nb" "length ijs = ni"
  shows "\<exists>bl il st. uma_storm_start t bjs ijs nb ni = Some (bl, il, st) \<and> storm_ready u c cap bl il st"
proof -
  have b: "uma_base u c cap u = unat cap" "uma_base u c cap c = unat cap" and uc: "u \<noteq> c" using pair by (simp_all add: uma_frame_def uma_pair_def)
  obtain bl st1 where p1: "acquire_all bjs (new_arbiter t) = Some (bl, st1)" "bl = map (\<lambda>j. new_lease (j_id j) (j_now j) u (j_bytes j) Batch (j_unit j) (j_pid j)) bjs"
    "shared_balanced u c (uma_base u c cap) st1" "skeleton (topology st1) = uma_frame u c" "demand (topology st1) (leases st1) u = unat cap"
    "\<forall>l \<in> set bl. hm_get (leases st1) (l_id l) = Some l" "\<forall>i. i \<notin> set (map l_id bl) \<longrightarrow> hm_get (leases st1) i = None"
    using batch_phase [OF pair tasks] by blast
  have bl: "\<forall>l \<in> set bl. l_plane_id l = u \<and> unat (l_allocated l) > 0 \<and> l_priority l = Batch \<and> l_state l = Active"
    "map l_id bl = map j_id bjs" "(\<Sum>l \<leftarrow> bl. unat (l_allocated l)) = unat cap"
    using tasks by (auto simp: p1(2) new_lease_def storm_tasks_def list_all_iff comp_def)
  have t: "ranked u Interactive ijs" "(\<Sum>j \<leftarrow> ijs. unat (j_bytes j)) = unat cap" "distinct (map j_id ijs @ map l_id bl)"
    using tasks by (auto simp: storm_tasks_def bl(2))
  obtain il st where p2: "acquire_all ijs st1 = Some (il, st)" "il = map (\<lambda>j. new_lease (j_id j) (j_now j) u (j_bytes j) Interactive (j_unit j) (j_pid j)) ijs"
    "shared_balanced u c (uma_base u c cap) st" "skeleton (topology st) = uma_frame u c"
    "demand (topology st) (leases st) u = unat cap" "demand (topology st) (leases st) c = unat cap"
    "\<forall>l \<in> set il. hm_get (leases st) (l_id l) = Some l" "\<forall>l \<in> set bl. hm_get (leases st) (l_id l) = Some (l\<lparr>l_state := Preempted\<rparr>)"
    "length (filter (\<lambda>l. l_state l = Preempted) (list_leases st)) = length bl"
    using interactive_phase [OF p1(3) b t bl(1) p1(6,7)] p1(4) by auto
  have len': "length bl = nb" "length il = ni" using p1(2) p2(2) len by simp_all
  have il: "\<forall>l \<in> set il. l_plane_id l = u \<and> l_state l = Active" "map l_id il = map j_id ijs" "(\<Sum>l \<leftarrow> il. unat (l_allocated l)) = unat cap"
    using t(2) by (auto simp: p2(2) new_lease_def comp_def)
  have bal: "balanced (uma_base u c cap) (topology s) (leases s)" if "shared_balanced u c (uma_base u c cap) s" for s using that by (simp add: shared_balanced_def)
  have dem1: "demand (topology st1) (leases st1) c = unat cap" using shared_demand(1) [OF p1(3)] b p1(5) by simp
  have d: "uma_base u c cap u = demand (topology s) (leases s) u + 0 \<and> uma_base u c cap c = demand (topology s) (leases s) c + 0" if "s = st1 \<or> s = st" for s
    using that b p1(5) dem1 p2(5,6) by auto
  note r1 = uma_frame_reads [OF p1(4) uc bal [OF p1(3)], of 0] and r2 = uma_frame_reads [OF p2(4) uc bal [OF p2(3)], of 0]
  have "uma_storm_start t bjs ijs nb ni = Some (bl, il, st)"
    using r1 r2(1) d p1(1) p2(1,9) uma_start(2) [OF pair] len' by (auto simp: uma_storm_start_def check_def unat_eq_0)
  moreover have "load st q (map l_id il) = unat cap" "load st q (map l_id bl) = unat cap" if "q \<in> fst ` set (uma_frame u c)" for q
  proof -
    have t: "touched (topology st) u q" using that shared_demand(2,3) [OF p2(3)] b by (auto simp: uma_frame_def)
    have "\<exists>s. hm_get (leases st) (l_id l) = Some (l\<lparr>l_state := s\<rparr>)" if "l \<in> set il" for l
      using p2(7) that by (intro exI [of _ "l_state l"]) simp
    then show "load st q (map l_id il) = unat cap" "load st q (map l_id bl) = unat cap"
      using load_same [OF t, of il] load_same [OF t, of bl] il(1,3) bl(1,3) p2(8) by auto
  qed
  moreover have "arbiter_inv st" using p2(3) by (simp add: shared_balanced_def shared_in_step_def)
  moreover have "demand (topology st) (leases st) q = unat cap" if "q \<in> fst ` set (uma_frame u c)" for q using that p2(5,6) by (auto simp: uma_frame_def)
  moreover have "distinct (map l_id il @ map l_id bl)" using t(3) il(2) by metis
  ultimately have "storm_ready u c cap bl il st"
    unfolding storm_ready_def using bal [OF p2(3)] p2(4,7,8) il(1) uc by (intro conjI ballI) simp_all
  with \<open>uma_storm_start t bjs ijs nb ni = Some (bl, il, st)\<close> show ?thesis by (intro exI conjI)
qed

subsection \<open>The end of the storm\<close>

text \<open>Releases one after the other are a storm without thaws.\<close>

lemma release_all_storm:
  assumes inv: "arbiter_inv st0" "balanced base (topology st0) (leases st0)" "in_state st0 active_state (map l_id ls0)" "distinct (map l_id ls0)"
  shows "(storm_step L)\<^sup>*\<^sup>* (map l_id ls0, [], st0) (map l_id ls, [], st) \<Longrightarrow> distinct (map l_id ls) \<Longrightarrow>
    \<exists>st'. release_all L ls st = Some st' \<and> (storm_step L)\<^sup>*\<^sup>* (map l_id ls0, [], st0) ([], [], st')"
proof (induction ls arbitrary: st)
  case Nil
  then show ?case by simp
next
  case (Cons l ls)
  have v: "storm_inv base st0 (map l_id ls0) [] (map l_id (l # ls), [], st)"
    using storm_run_inv [OF inv(1-3) _ _ Cons.prems(1)] inv(4) by (simp add: in_state_def)
  then have mem: "l_id l \<in> set (map l_id ls0)" and get: "hm_get (leases st) (l_id l) = hm_get (leases st0) (l_id l)"
    by (auto simp: storm_inv_def storm_lease_def)
  then obtain m where m: "hm_get (leases st) (l_id l) = Some m" "is_active m"
    using inv(3) unfolding in_state_def list_all_iff by (fastforce simp: is_active_def split: option.splits)
  obtain r st1 where rel: "release_lease L (l_id l) st = (r, st1)" by (metis surj_pair)
  then have r: "r = Ok ()" using m by (auto simp: release_lease_def end_lease_def)
  have "storm_step L (map l_id (l # ls), [], st) (removeAll (l_id l) (map l_id (l # ls)), [], st1)"
    by (rule storm_step.release [OF _ rel]) simp
  moreover have "removeAll (l_id l) (map l_id (l # ls)) = map l_id ls" using Cons.prems(2) by simp
  ultimately have "(storm_step L)\<^sup>*\<^sup>* (map l_id ls0, [], st0) (map l_id ls, [], st1)"
    using Cons.prems(1) by (simp add: rtranclp.rtrancl_into_rtrancl)
  then show ?case using Cons.IH [of st1] Cons.prems(2) rel r by (auto simp: unwrap_def)
qed

lemma load_leases: "(\<And>i. i \<in> set is \<Longrightarrow> due t ls q i = due (topology st) (leases st) q i) \<Longrightarrow> (\<Sum>i \<leftarrow> is. due t ls q i) = load st q is"
  by (induction "is") (auto simp: load_def)

lemma uma_storm_end_passes:
  assumes ready: "storm_ready u c cap bl il st0" and bl: "mset bl' = mset bl"
    and run: "(storm_step L)\<^sup>*\<^sup>* (map l_id il, map l_id bl, st0) ([], [], st)"
  shows "uma_storm_end L cap bl' st = Some ()"
proof -
  have f: "u \<in> fst ` set (uma_frame u c)" "c \<in> fst ` set (uma_frame u c)" by (simp_all add: uma_frame_def)
  have uc: "u \<noteq> c" and r: "arbiter_inv st0" "balanced (uma_base u c cap) (topology st0) (leases st0)" "skeleton (topology st0) = uma_frame u c" "distinct (map l_id il @ map l_id bl)"
    "\<And>l. l \<in> set il \<Longrightarrow> hm_get (leases st0) (l_id l) = Some l \<and> l_state l = Active"
    "\<And>l. l \<in> set bl \<Longrightarrow> hm_get (leases st0) (l_id l) = Some (l\<lparr>l_state := Preempted\<rparr>)"
    and sums: "\<And>q. q \<in> fst ` set (uma_frame u c) \<Longrightarrow> demand (topology st0) (leases st0) q = unat cap
      \<and> load st0 q (map l_id il) = unat cap \<and> load st0 q (map l_id bl) = unat cap"
    using ready unfolding storm_ready_def by (simp_all only: simp_thms)
  have "in_state st0 active_state (map l_id il)" "in_state st0 (\<lambda>s. s = Preempted) (map l_id bl)"
    using r(5,6) by (simp_all add: in_state_def list_all_iff)
  note v0 = storm_run_inv [OF r(1,2) this r(4) run]
  then have v: "arbiter_inv st" "balanced (uma_base u c cap) (topology st) (leases st)" "skeleton (topology st) = uma_frame u c"
    "\<And>i. hm_get (leases st) i = storm_lease st0 (map l_id il) (map l_id bl) [] [] i"
    "\<And>q. demand (topology st0) (leases st) q + load st0 q (map l_id il) = demand (topology st0) (leases st0) q + load st0 q (map l_id bl)"
    using r(3) by (simp_all add: storm_inv_def load_def)
  have dem: "demand (topology st) (leases st) q = unat cap" if "q \<in> fst ` set (uma_frame u c)" for q
    using v(5) [of q] sums [OF that] demand_skeleton [of "topology st" "topology st0"] v(3) r(3) by simp
  have get: "hm_get (leases st) (l_id l) = Some (l\<lparr>l_state := Active\<rparr>)" if "l \<in> set bl" for l
    using v(4) [of "l_id l"] r(4,6) that by (auto simp: storm_lease_def)
  have set: "set bl' = set bl" by (rule mset_eq_setD [OF bl])
  have "distinct (map l_id bl')" using r(4) bl by (metis distinct_append mset_eq_imp_distinct_iff mset_map)
  moreover have "in_state st active_state (map l_id bl')" using get set by (simp add: in_state_def list_all_iff)
  ultimately obtain st' where st': "release_all L bl' st = Some st'" and run': "(storm_step L)\<^sup>*\<^sup>* (map l_id bl', [], st) ([], [], st')"
    using release_all_storm [OF v(1,2), of bl' L bl' st] by blast
  have "storm_inv (uma_base u c cap) st (map l_id bl') [] ([], [], st')"
    by (rule storm_run_inv [OF v(1,2) _ _ _ run']) (use \<open>distinct (map l_id bl')\<close> \<open>in_state st active_state (map l_id bl')\<close> in \<open>simp_all add: in_state_def\<close>)
  then have w: "balanced (uma_base u c cap) (topology st') (leases st')" "skeleton (topology st') = uma_frame u c"
    "\<And>q. demand (topology st) (leases st') q + load st q (map l_id bl') = demand (topology st) (leases st) q"
    using v(3) by (simp_all add: storm_inv_def load_def)
  have "load st q (map l_id bl') = load st0 q (map l_id bl)" for q
  proof -
    have "due (topology st) (leases st) q i = due (topology st0) (leases st0) q i" if "i \<in> set (map l_id bl)" for i
      using that get r(6) touched_skeleton [of "topology st" "topology st0"] v(3) r(3) by (auto simp: due_def)
    then have "load st q (map l_id bl) = load st0 q (map l_id bl)" using load_leases unfolding load_def by metis
    moreover have "mset (map (due (topology st) (leases st) q) (map l_id bl')) = mset (map (due (topology st) (leases st) q) (map l_id bl))"
      using bl by simp
    then have "load st q (map l_id bl') = load st q (map l_id bl)" unfolding load_def by (metis sum_mset_sum_list)
    ultimately show ?thesis by simp
  qed
  then have dem': "demand (topology st') (leases st') q = 0" if "q \<in> fst ` set (uma_frame u c)" for q
    using w(3) [of q] sums [OF that] dem [OF that] demand_skeleton [of "topology st'" "topology st"] v(3) w(2) by simp
  have d: "uma_base u c cap u = demand (topology st) (leases st) u + 0" "uma_base u c cap c = demand (topology st) (leases st) c + 0"
    "uma_base u c cap u = demand (topology st') (leases st') u + unat cap" "uma_base u c cap c = demand (topology st') (leases st') c + unat cap"
    using dem dem' f by simp_all
  note reads = uma_frame_reads [OF v(3) uc v(2) d(1,2)] uma_frame_reads [OF w(2) uc w(1) d(3,4)]
  have cap: "unat (p_available p) = unat cap \<longleftrightarrow> p_available p = cap" for p :: compute_plane by (simp add: word_unat_eq_iff)
  show ?thesis using reads st' by (auto simp: uma_storm_end_def check_def unat_eq_0 cap)
qed

lemma uma_storms_pass:
  assumes E: "qa_ok E"
  shows "lock_order 16 bs \<Longrightarrow> lock_order 8 is \<Longrightarrow>
      \<exists>bl il st. test_adversarial_uma_cpu_storm E bs is = Some (bl, il, st) \<and> storm_ready ''plane-uma-adv'' ''plane-cpu-adv'' 17179869184 bl il st"
    and "lock_order 8 bs \<Longrightarrow> lock_order 4 is \<Longrightarrow>
      \<exists>bl il st. test_uma_preemption_storm E bs is = Some (bl, il, st) \<and> storm_ready ''plane-uma-0'' ''plane-cpu-0'' 8589934592 bl il st"
  using uma_storm_start_passes [OF uma_pairs(1) storm_tasks_ok(1) [OF E]] uma_storm_start_passes [OF uma_pairs(2) storm_tasks_ok(2) [OF E]]
  by (simp_all add: test_adversarial_uma_cpu_storm_def test_uma_preemption_storm_def orderD)

text \<open>Whatever the order of the tasks and the course of the storm, the tests pass to their end.\<close>

lemma adversarial_storm_passes:
  assumes "qa_ok E" and "lock_order 16 bs" "lock_order 8 is" and "test_adversarial_uma_cpu_storm E bs is = Some (bl, il, st0)"
    and "mset bl' = mset bl" and "(storm_step L)\<^sup>*\<^sup>* (map l_id il, map l_id bl, st0) ([], [], st)"
  shows "test_adversarial_uma_cpu_storm_end L bl' st = Some ()"
  using uma_storms_pass(1) [OF assms(1-3)] assms(4) uma_storm_end_passes [OF _ assms(5,6)] by (simp add: test_adversarial_uma_cpu_storm_end_def)

lemma concurrent_thaw_storm_passes:
  assumes "qa_ok E" and "lock_order 8 bs" "lock_order 4 is" and "test_uma_preemption_storm E bs is = Some (bl, il, st0)"
    and "mset bl' = mset bl" and "(storm_step L)\<^sup>*\<^sup>* (map l_id il, map l_id bl, st0) ([], [], st)"
  shows "test_uma_preemption_storm_end L bl' st = Some ()"
  using uma_storms_pass(2) [OF assms(1-3)] assms(4) uma_storm_end_passes [OF _ assms(5,6)] by (simp add: test_uma_preemption_storm_end_def)

section \<open>Oscillating pressure\<close>

definition psi_attempt :: "qa_env \<Rightarrow> nat \<Rightarrow> nat \<times> arbiter_state \<Rightarrow> nat \<times> arbiter_state" where
  "psi_attempt E i = (\<lambda>(rejected, st). case acquire (req (simulated_psi Critical E) i Interactive (128 * 1024 * 1024) None None None) st of
     (r, st') \<Rightarrow> (if fails_with is_saturation r then rejected + 1 else rejected, st'))"

definition psi_triage_task :: "qa_env \<Rightarrow> nat \<Rightarrow> job" where
  "psi_triage_task E i = req (simulated_psi Critical E) (20 + i) EmergencyTriage (128 * 1024 * 1024) (Some ''plane-psi-adversarial'')
     (Some (''sentry-triage-'' @ show_nat i @ ''.service'')) (Some (9000 + of_nat i))"

definition psi_churn_tasks :: "qa_env \<Rightarrow> job list" where
  "psi_churn_tasks E = map (\<lambda>i. req (simulated_psi Normal E) (30 + i) Interactive (64 * 1024 * 1024) (Some ''plane-psi-adversarial'')
     (Some (''churn-client-'' @ show_nat i @ ''.service'')) (Some (8000 + of_nat i))) [0..<60]"

text \<open>The test up to the churn, and what it asserts of the workers' end.\<close>

definition psi_oscillation_start :: "qa_env \<Rightarrow> arbiter_state option" where
  "psi_oscillation_start E = do {
     let total_mem = 8 * 1024 * 1024 * 1024;
     let (rejected, st) = fold (psi_attempt E) [0..<20] (0, new_arbiter (create_psi_topology total_mem));
     check (rejected = 20);
     (triage_leases, st) \<leftarrow> acquire_all (map (psi_triage_task E) [0..<10]) st;
     check (length triage_leases = 10);
     release_all (q_lib E) triage_leases st
   }"

definition psi_oscillation_end :: "worker list \<times> arbiter_state \<Rightarrow> unit option" where
  "psi_oscillation_end = (\<lambda>(workers, st). do {
     let total_mem = 8 * 1024 * 1024 * 1024;
     check (list_all (\<lambda>w. w = Finished) workers);
     p \<leftarrow> plane_at st 0;
     check (p_available p = total_mem);
     check (list_all (\<lambda>l. l_state l = Expired) (list_leases st))
   })"

lemma psi_attempts: "fold (psi_attempt E) is (n, st) = (n + length is, st)"
proof (induction "is" arbitrary: n)
  case (Cons i "is")
  have "psi_attempt E i (n, st) = (n + 1, st)"
    by (simp add: psi_attempt_def acquire_def job_acquire_def req_def simulated_psi_def read_current_def acquire_lease_def qa_errors)
  then show ?case using Cons by simp
qed simp

lemma q_id_simulated [simp]: "q_id (simulated_psi l E) = q_id E"
  by (simp add: simulated_psi_def)

lemma psi_oscillation_start_passes:
  assumes "qa_ok E"
  shows "\<exists>st. psi_oscillation_start E = Some st \<and> quiet (test_plane ''plane-psi-adversarial'' ''Adversarial PSI Test Plane'' DiscreteGpu 8589934592 8589934592)
    (psi_churn_tasks E) st"
  using assms
  by (simp add: psi_oscillation_start_def psi_attempts qa_run psi_triage_task_def simulated_psi_def create_psi_topology_def upt_rec [of _ 10] cong: bind_weak)
     (simp add: quiet_def psi_churn_tasks_def req_def qa_run list_all_iff hm_wf_def all_over_def)

lemma psi_oscillation_passes:
  assumes E: "qa_ok E" and start: "psi_oscillation_start E = Some st0"
    and run: "(worker_step L (psi_churn_tasks E) ^^ 120) (spawned (psi_churn_tasks E) st0) (ws, st)"
  shows "psi_oscillation_end (ws, st) = Some ()"
proof -
  let ?p = "test_plane ''plane-psi-adversarial'' ''Adversarial PSI Test Plane'' DiscreteGpu 8589934592 8589934592"
  have q: "quiet ?p (psi_churn_tasks E) st0" using psi_oscillation_start_passes [OF E] start by simp
  have "wanted (psi_churn_tasks E) = 60 * 67108864" by (simp add: wanted_sum_list psi_churn_tasks_def req_def comp_def sum_list_triv)
  then have "enough ?p (psi_churn_tasks E)"
    using qa_distinct_ids(2) [OF E, of 30 60]
    by (simp add: enough_def psi_churn_tasks_def req_def admissible_def list_all_iff test_plane_def comp_def) (simp add: simulated_psi_def read_current_def)
  moreover have "planes (topology st0) = [?p]" using q by (simp add: quiet_def)
  ultimately show ?thesis
    using qa_workers [OF q _ run]
    by (simp add: psi_churn_tasks_def psi_oscillation_end_def plane_at_def check_def test_plane_def)
qed

section \<open>Randomised leases\<close>

definition fuzz_topology :: hardware_topology where
  "fuzz_topology = default_topology\<lparr>planes :=
     [test_plane ''plane-fuzz'' ''Fuzzing Stress Plane'' DiscreteGpu (100 * 1024 * 1024 * 1024) (100 * 1024 * 1024 * 1024)]\<rparr>"

definition fuzz_tasks :: "qa_env \<Rightarrow> job list" where
  "fuzz_tasks E = map (\<lambda>i. let priority = (if i mod 5 = 0 then EmergencyTriage else if i mod 2 = 0 then Interactive else Batch);
       needed = (of_nat i + 1) * 256 * 1024 * 1024
     in req E i priority needed None None None) [0..<20]"

text \<open>A task whose request is refused ends as well: only the memory is asserted.\<close>

definition fuzz_end :: "arbiter_state \<Rightarrow> unit option" where
  "fuzz_end st = do { p \<leftarrow> plane_at st 0; check (p_available p = 100 * 1024 * 1024 * 1024) }"

lemma fuzz_passes:
  assumes E: "qa_ok E" and run: "(worker_step L (fuzz_tasks E) ^^ 40) (spawned (fuzz_tasks E) (new_arbiter fuzz_topology)) (ws, st)"
  shows "fuzz_end st = Some ()"
proof -
  let ?p = "test_plane ''plane-fuzz'' ''Fuzzing Stress Plane'' DiscreteGpu 107374182400 107374182400"
  have "wanted (fuzz_tasks E) = 56371445760" by (simp add: wanted_sum_list fuzz_tasks_def req_def comp_def Let_def upt_rec)
  moreover have "map j_id (fuzz_tasks E) = map (q_id E) [0..<20]" by (simp add: fuzz_tasks_def req_def Let_def)
  ultimately have "enough ?p (fuzz_tasks E)"
    using qa_distinct_ids(1) [OF E, of 20] qa_calm [OF E]
    by (simp add: enough_def) (simp add: fuzz_tasks_def req_def admissible_def list_all_iff test_plane_def Let_def)
  moreover have "quiet ?p (fuzz_tasks E) (new_arbiter fuzz_topology)" by (simp add: fuzz_topology_def quiet_new)
  ultimately show ?thesis
    using qa_workers(2) [OF _ _ run, of ?p]
    by (simp add: fuzz_tasks_def fuzz_end_def fuzz_topology_def new_arbiter_def plane_at_def check_def test_plane_def)
qed

section \<open>Churn under pressure\<close>

definition create_test_topology :: "u64 \<Rightarrow> hardware_topology" where
  "create_test_topology total_mem = default_topology\<lparr>planes :=
     [test_plane ''plane-psi-stress'' ''PSI Stress Plane'' DiscreteGpu total_mem total_mem]\<rparr>"

definition pressed_client :: "qa_env \<Rightarrow> nat \<Rightarrow> job" where
  "pressed_client E i = (let prio = (if i mod 2 = 0 then Interactive else Batch)
     in req (simulated_psi Critical E) i prio (128 * 1024 * 1024) (Some ''plane-psi-stress'') (Some (''client-'' @ show_nat i @ ''.service''))
          (Some (1000 + of_nat i)))"

definition pressed_triage :: "qa_env \<Rightarrow> nat \<Rightarrow> job" where
  "pressed_triage E i = req (simulated_psi Critical E) (50 + i) EmergencyTriage (256 * 1024 * 1024) (Some ''plane-psi-stress'')
     (Some (''sentry-triage-'' @ show_nat i @ ''.service'')) (Some (2000 + of_nat i))"

text \<open>A task that is not refused for saturation makes the test panic.\<close>

fun throttled :: "job list \<Rightarrow> nat \<times> arbiter_state \<Rightarrow> (nat \<times> arbiter_state) option" where
  "throttled [] s = Some s"
| "throttled (j # js) (n, st) = (case acquire j st of
     (Err (BusSaturation msg), st') \<Rightarrow> do { check (contains ''Memory bus saturated'' msg); throttled js (n + 1, st') }
   | _ \<Rightarrow> None)"

definition test_psi_churn_stress_under_critical_pressure :: "qa_env \<Rightarrow> nat list \<Rightarrow> nat list \<Rightarrow> unit option" where
  "test_psi_churn_stress_under_critical_pressure E order triage_order = do {
     let total_mem = 16 * 1024 * 1024 * 1024;
     (bus_saturation_count, st) \<leftarrow> throttled (map (pressed_client E) order) (0, new_arbiter (create_test_topology total_mem));
     check (bus_saturation_count = 50);
     p \<leftarrow> plane_at st 0;
     check (p_available p = total_mem);
     (triage_leases, st) \<leftarrow> acquire_all (map (pressed_triage E) triage_order) st;
     check (list_all (\<lambda>l. l_priority l = EmergencyTriage) triage_leases);
     check (length triage_leases = 10);
     st \<leftarrow> release_all (q_lib E) triage_leases st;
     p \<leftarrow> plane_at st 0;
     check (p_available p = total_mem)
   }"

definition churn_workers :: "qa_env \<Rightarrow> job list" where
  "churn_workers E = map (\<lambda>i. req (simulated_psi Normal E) (1 + i) Interactive (64 * 1024 * 1024) (Some ''plane-psi-stress'')
     (Some (''worker-'' @ show_nat i @ ''.service'')) (Some (3000 + of_nat i))) [0..<50]"

definition psi_transition_start :: "qa_env \<Rightarrow> arbiter_state option" where
  "psi_transition_start E = (case acquire (req (simulated_psi Critical E) 0 Interactive (128 * 1024 * 1024) None None None)
       (new_arbiter (create_test_topology (8 * 1024 * 1024 * 1024))) of
     (fail_res, st) \<Rightarrow> do { check (fails_with is_saturation fail_res); Some st })"

definition test_inferenced_simulate_psi_task_local_hook :: "os \<Rightarrow> unit option" where
  "test_inferenced_simulate_psi_task_local_hook h = do {
     let metrics = read_current (Some Critical) h;
     check (level metrics = Critical);
     check (memory_some_avg10 metrics = Fin 60);
     check (memory_full_avg10 metrics = Fin 25);
     let elevated_metrics = read_current (Some Elevated) h;
     check (level elevated_metrics = Elevated);
     check (memory_some_avg10 elevated_metrics = Fin 20);
     let normal_metrics = read_current (Some Normal) h;
     check (level normal_metrics = Normal);
     check (memory_some_avg10 normal_metrics = Fin 0)
   }"

text \<open>Requests that all fit are granted one after the other, and released one after the other.\<close>

lemma acquire_all_granted:
  assumes e: "enough p jobs"
  shows "workers_inv t p jobs (replicate k Working @ replicate m Waiting, st) \<Longrightarrow> length jobs = k + m \<Longrightarrow>
    \<exists>st'. acquire_all (drop k jobs) st = Some (map (lease_of p) (drop k jobs), st') \<and> workers_inv t p jobs (replicate (length jobs) Working, st')"
proof (induction m arbitrary: k st)
  case (Suc m)
  obtain r st1 fx where a: "job_acquire (jobs ! k) st = (r, st1, fx)" by (metis prod_cases3)
  have k: "k < length jobs" "(replicate k Working @ replicate (Suc m) Waiting) ! k = Waiting" using Suc.prems(2) by (simp_all add: nth_append)
  have w: "r = Ok (lease_of p (jobs ! k)) \<and> workers_inv t p jobs ((replicate k Working @ replicate (Suc m) Waiting)[k := Working], st1)"
    using worker_acquire [OF Suc.prems(1) _ _ _ k a] e by (auto simp: enough_def list_all_iff)
  moreover have "(replicate k Working @ replicate (Suc m) Waiting)[k := Working] = replicate (Suc k) Working @ replicate m Waiting"
    by (simp add: list_update_append replicate_append_same)
  ultimately obtain st' where "acquire_all (drop (Suc k) jobs) st1 = Some (map (lease_of p) (drop (Suc k) jobs), st')"
    "workers_inv t p jobs (replicate (length jobs) Working, st')"
    using Suc.IH [of "Suc k" st1] Suc.prems(2) by auto
  moreover have "drop k jobs = jobs ! k # drop (Suc k) jobs" using Cons_nth_drop_Suc [OF k(1)] by simp
  ultimately show ?case using w a by (simp add: unwrap_def acquire_def)
qed simp

lemma release_all_granted:
  assumes e: "enough p jobs"
  shows "workers_inv t p jobs (replicate k Finished @ replicate m Working, st) \<Longrightarrow> length jobs = k + m \<Longrightarrow>
    \<exists>st'. release_all L (map (lease_of p) (drop k jobs)) st = Some st' \<and> workers_inv t p jobs (replicate (length jobs) Finished, st')"
proof (induction m arbitrary: k st)
  case (Suc m)
  obtain r st1 where a: "release_lease L (j_id (jobs ! k)) st = (r, st1)" by (metis surj_pair)
  have k: "k < length jobs" "(replicate k Finished @ replicate (Suc m) Working) ! k = Working" using Suc.prems(2) by (simp_all add: nth_append)
  have w: "r = Ok () \<and> workers_inv t p jobs ((replicate k Finished @ replicate (Suc m) Working)[k := Finished], st1)"
    using worker_release [OF Suc.prems(1) _ _ k a] e by (auto simp: enough_def)
  moreover have "(replicate k Finished @ replicate (Suc m) Working)[k := Finished] = replicate (Suc k) Finished @ replicate m Working"
    by (simp add: list_update_append replicate_append_same)
  ultimately obtain st' where "release_all L (map (lease_of p) (drop (Suc k) jobs)) st1 = Some st'"
    "workers_inv t p jobs (replicate (length jobs) Finished, st')"
    using Suc.IH [of "Suc k" st1] Suc.prems(2) by auto
  moreover have "drop k jobs = jobs ! k # drop (Suc k) jobs" using Cons_nth_drop_Suc [OF k(1)] by simp
  moreover have "l_id (lease_of p (jobs ! k)) = j_id (jobs ! k)" by (simp add: lease_of_def new_lease_def)
  ultimately show ?case using w a by (simp add: unwrap_def)
qed simp

lemma granted_and_released:
  assumes e: "enough p jobs" and q: "quiet p jobs st"
  shows "\<exists>st1 st2. acquire_all jobs st = Some (map (lease_of p) jobs, st1) \<and> release_all L (map (lease_of p) jobs) st1 = Some st2 \<and> topology st2 = topology st"
proof -
  have "workers_inv (topology st) p jobs (replicate 0 Working @ replicate (length jobs) Waiting, st)"
    using spawned_inv [OF q] by (simp add: spawned_def)
  from acquire_all_granted [OF e this] obtain st1 where st1: "acquire_all jobs st = Some (map (lease_of p) jobs, st1)"
    and "workers_inv (topology st) p jobs (replicate 0 Finished @ replicate (length jobs) Working, st1)" by auto
  from release_all_granted [OF e this(2), of L] obtain st2 where st2: "release_all L (map (lease_of p) jobs) st1 = Some st2"
    and w: "workers_inv (topology st) p jobs (replicate (length jobs) Finished, st2)" by auto
  have "held jobs (replicate (length jobs) Finished) = 0" by (simp add: held_def)
  then have "topology st2 = topology st" using workers_invD(4) [OF w] q by (simp add: quiet_def)
  then show ?thesis using st1 st2 by blast
qed

lemma throttled_all: "throttled (map (pressed_client E) order) (n, st) = Some (n + length order, st)"
proof (induction order arbitrary: n)
  case (Cons i order)
  have "acquire (pressed_client E i) st = (Err (BusSaturation (saturation_message (from_level Critical))), st)"
    by (simp add: pressed_client_def Let_def acquire_def job_acquire_def req_def simulated_psi_def read_current_def acquire_lease_def)
  moreover have "contains ''Memory bus saturated'' (saturation_message psi)" for psi by (simp add: saturation_message_def starts_with_def)
  ultimately show ?case using Cons by (simp add: check_def)
qed simp

lemma critical_pressure_passes:
  assumes E: "qa_ok E" and order: "lock_order 50 order" "lock_order 10 triage_order"
  shows "test_psi_churn_stress_under_critical_pressure E order triage_order = Some ()"
proof -
  let ?p = "test_plane ''plane-psi-stress'' ''PSI Stress Plane'' DiscreteGpu 17179869184 17179869184" and ?js = "map (pressed_triage E) triage_order"
  let ?st = "new_arbiter (create_test_topology 17179869184)"
  note o = orderD [OF order(1)] orderD [OF order(2)]
  have "wanted ?js = 10 * 268435456" using o by (simp add: wanted_sum_list pressed_triage_def req_def comp_def sum_list_triv)
  moreover have "distinct (map j_id ?js)"
    using o qa_id_eq [OF E] by (auto simp: distinct_map inj_on_def pressed_triage_def req_def)
  ultimately have e: "enough ?p ?js"
    by (simp add: enough_def list_all_iff admissible_def pressed_triage_def req_def test_plane_def)
  have "planes (topology ?st) = [?p]" by (simp add: create_test_topology_def new_arbiter_def)
  moreover have "quiet ?p ?js ?st" by (rule quiet_new) (simp add: create_test_topology_def)
  ultimately show ?thesis
    using granted_and_released [OF e, of ?st "q_lib E"] o
    by (auto simp: test_psi_churn_stress_under_critical_pressure_def throttled_all check_def plane_at_def list_all_iff lease_of_def
        new_lease_def pressed_triage_def req_def test_plane_def)
qed

lemma psi_transition_passes:
  assumes E: "qa_ok E" and run: "(worker_step L (churn_workers E) ^^ 100) (spawned (churn_workers E) st0) (ws, st)"
    and start: "psi_transition_start E = Some st0"
  shows "psi_oscillation_end (ws, st) = Some ()"
proof -
  let ?p = "test_plane ''plane-psi-stress'' ''PSI Stress Plane'' DiscreteGpu 8589934592 8589934592"
  have st0: "st0 = new_arbiter (create_test_topology 8589934592)"
    using start by (simp add: psi_transition_start_def acquire_def job_acquire_def req_def simulated_psi_def read_current_def acquire_lease_def qa_errors check_def)
  then have q: "quiet ?p (churn_workers E) st0" "planes (topology st0) = [?p]" by (simp_all add: create_test_topology_def quiet_new) (simp add: new_arbiter_def)
  have "wanted (churn_workers E) = 50 * 67108864" by (simp add: wanted_sum_list churn_workers_def req_def comp_def sum_list_triv)
  then have "enough ?p (churn_workers E)"
    using qa_distinct_ids(2) [OF E, of 1 50]
    by (simp add: enough_def churn_workers_def req_def admissible_def list_all_iff test_plane_def comp_def) (simp add: simulated_psi_def read_current_def)
  then show ?thesis
    using qa_workers [OF q(1) _ run] q(2) by (simp add: churn_workers_def psi_oscillation_end_def plane_at_def check_def test_plane_def)
qed

lemma psi_hook_passes: "test_inferenced_simulate_psi_task_local_hook h = Some ()" "psi_transition_start E \<noteq> None"
  by (simp_all add: test_inferenced_simulate_psi_task_local_hook_def read_current_def check_def psi_transition_start_def acquire_def job_acquire_def
      req_def simulated_psi_def acquire_lease_def qa_errors)

end
