(* ===== verification/Qa_Unit.thy ===== *)
theory Qa_Unit
  imports Qa_Support Freezer
begin

text \<open>
  The unit tests of \<^verbatim>\<open>src/qa/unit/mod.rs\<close>, \<^verbatim>\<open>discovery_tests.rs\<close>, \<^verbatim>\<open>preempt_tests.rs\<close> and \<^verbatim>\<open>sentry_tests.rs\<close>:
  parsing of the files of \<^verbatim>\<open>/proc\<close>, the triage enclave, a lease from request to release, the life of
  a model in the registry, the life of a preempted lease and emergency leases.
\<close>

section \<open>Files of the host\<close>

definition test_parse_kb :: "unit option" where
  "test_parse_kb = do {
     check (parse_kb ''1024 kB'' = 1024 * 1024);
     check (parse_kb ''   2048 kB  '' = 2048 * 1024);
     check (parse_kb ''invalid'' = 0);
     check (parse_kb [] = 0)
   }"

definition test_read_meminfo_from_mock :: "unit option" where
  "test_read_meminfo_from_mock = do {
     let h = one_file [''MemTotal:       16384 kB'', ''MemFree:         4096 kB'', ''MemAvailable:    8192 kB''];
     let (tot, avail) = read_meminfo_from h ''/tmp/f'';
     check (tot = 16384 * 1024);
     check (avail = 8192 * 1024)
   }"

definition test_detect_cpu_features_mock :: "unit option" where
  "test_detect_cpu_features_mock = do {
     let h = one_file [''flags: fpu vme amx_tile avx512_vnni avx2''];
     let (amx, vnni, avx2) = detect_cpu_features h ''/tmp/f'';
     check amx;
     check vnni;
     check avx2
   }"

definition test_count_cpu_cores_mock :: "unit option" where
  "test_count_cpu_cores_mock = do {
     let h = one_file [''processor : 0'', ''processor : 1'', ''processor : 2'', ''processor : 3''];
     check (count_cpu_cores h ''/tmp/f'' = 4)
   }"

definition test_build_cpu_plane :: "unit option" where
  "test_build_cpu_plane = do {
     let h = one_file [''processor : 0'', ''flags: avx2''];
     let plane = build_cpu_plane h ''/tmp/f'' (10 * 1024 * 1024 * 1024);
     check (p_kind plane = CpuMatrixExtension);
     check (p_id plane = ''cpu-host'');
     check (''AVX2-FMA'' \<in> set (p_features plane))
   }"

section \<open>Triage enclave\<close>

definition test_assign_triage_enclave_prefers_npu :: "unit option" where
  "test_assign_triage_enclave_prefers_npu = do {
     let (planes, reserved) = assign_triage_enclave
       [test_plane ''gpu-0'' ''Discrete GPU'' DiscreteGpu (8 * 1024 * 1024 * 1024) (8 * 1024 * 1024 * 1024),
        test_plane ''npu-accel0'' ''Intel NPU'' NpuAccelerator (2 * 1024 * 1024 * 1024) (2 * 1024 * 1024 * 1024)];
     check (reserved = Some ''npu-accel0'');
     check (1 < length planes \<and> p_triage_reserved (planes ! 1));
     check (\<not> p_triage_reserved (planes ! 0))
   }"

definition test_assign_triage_enclave_falls_back_to_cpu :: "unit option" where
  "test_assign_triage_enclave_falls_back_to_cpu = do {
     let (planes, reserved) = assign_triage_enclave
       [test_plane ''cpu-host'' ''Host CPU'' CpuMatrixExtension (16 * 1024 * 1024 * 1024) (16 * 1024 * 1024 * 1024)];
     check (reserved = Some ''cpu-host'');
     check (0 < length planes \<and> \<not> p_triage_reserved (planes ! 0));
     check (p_available (planes ! 0) = 14 * 1024 * 1024 * 1024)
   }"

definition test_assign_triage_enclave_proportional_on_constrained_host :: "unit option" where
  "test_assign_triage_enclave_proportional_on_constrained_host = do {
     let (planes, reserved) = assign_triage_enclave
       [test_plane ''cpu-edge'' ''Edge Host CPU'' CpuMatrixExtension (4 * 1024 * 1024 * 1024) (4 * 1024 * 1024 * 1024)];
     check (reserved = Some ''cpu-edge'');
     check (0 < length planes \<and> \<not> p_triage_reserved (planes ! 0));
     check (p_available (planes ! 0) = 3 * 1024 * 1024 * 1024)
   }"

section \<open>A lease and a model\<close>

definition test_arbiter_acquire_and_release_lease :: "qa_env \<Rightarrow> unit option" where
  "test_arbiter_acquire_and_release_lease E = do {
     let arbiter = with_planes [test_plane ''plane-test'' ''Test Accelerator'' DiscreteGpu (10 * 1024 * 1024 * 1024) (10 * 1024 * 1024 * 1024)];
     let (r, st) = acquire (req E 0 Interactive (2 * 1024 * 1024 * 1024) None (Some ''test.service'') None) arbiter;
     lease \<leftarrow> unwrap r;
     check (l_plane_id lease = ''plane-test'');
     check (l_state lease = Active);
     p \<leftarrow> plane_at st 0;
     check (p_available p = 8 * 1024 * 1024 * 1024);
     let (r, st) = release_lease (q_lib E) (l_id lease) st;
     unwrap r;
     p \<leftarrow> plane_at st 0;
     check (p_available p = 10 * 1024 * 1024 * 1024)
   }"

definition test_model_registry_lifecycle :: "qa_env \<Rightarrow> unit option" where
  "test_model_registry_lifecycle E = do {
     let desc = \<lparr>m_id = ''qwen2.5-coder:7b'', m_format = ''GGUF'', m_path = ''/models/qwen.gguf'', m_estimated = 4 * 1024 * 1024 * 1024,
       m_placement = Dormant, m_resident_plane = None, m_last_accessed = q_now E 0, m_access_count = 0, m_preferred_plane = None\<rparr>;
     let reg = register desc new_registry;
     check (length (list_registry reg) = 1);
     let (reg, pinned) = pin_for_triage ''qwen2.5-coder:7b'' ''npu-accel0'' reg;
     check pinned;
     m \<leftarrow> get_model_entry reg ''qwen2.5-coder:7b'';
     check (m_placement m = PinnedTriage);
     check (m_resident_plane m = Some ''npu-accel0'');
     let (reg, _) = remove_entry ''qwen2.5-coder:7b'' reg;
     check (get_model_entry reg ''qwen2.5-coder:7b'' = None)
   }"

section \<open>Discovery (\<open>discovery_tests.rs\<close>)\<close>

definition test_discovery_read_meminfo_valid :: "unit option" where
  "test_discovery_read_meminfo_valid = do {
     let h = one_file [''MemTotal:       32768 kB'', ''MemFree:         8192 kB'', ''MemAvailable:   16384 kB''];
     let (tot, avail) = read_meminfo_from h ''/tmp/f'';
     check (tot = 32768 * 1024);
     check (avail = 16384 * 1024)
   }"

definition test_discovery_count_cpu_cores :: "unit option" where
  "test_discovery_count_cpu_cores =
     check (count_cpu_cores (one_file (map (\<lambda>i. ''processor : '' @ show_nat i) [0..<8])) ''/tmp/f'' = 8)"

definition test_discovery_build_cpu_plane :: "unit option" where
  "test_discovery_build_cpu_plane = do {
     let h = one_file [''processor : 0'', ''flags: amx_tile avx512_vnni avx2''];
     let plane = build_cpu_plane h ''/tmp/f'' (32 * 1024 * 1024 * 1024);
     check (p_kind plane = CpuMatrixExtension);
     check (p_id plane = ''cpu-host'');
     check (''Intel-AMX'' \<in> set (p_features plane));
     check (''AVX512-VNNI'' \<in> set (p_features plane));
     check (''AVX2-FMA'' \<in> set (p_features plane))
   }"

definition test_discovery_triage_enclave_selection_hierarchy :: "unit option" where
  "test_discovery_triage_enclave_selection_hierarchy = do {
     let (planes, reserved) = assign_triage_enclave
       [test_plane ''gpu-0'' ''Discrete GPU'' DiscreteGpu (16 * 1024 * 1024 * 1024) (16 * 1024 * 1024 * 1024),
        test_plane ''npu-0'' ''Neural Processing Unit'' NpuAccelerator (4 * 1024 * 1024 * 1024) (4 * 1024 * 1024 * 1024)];
     check (reserved = Some ''npu-0'');
     check (1 < length planes \<and> p_triage_reserved (planes ! 1));
     check (\<not> p_triage_reserved (planes ! 0))
   }"

section \<open>Preemption (\<open>preempt_tests.rs\<close>)\<close>

definition make_test_arbiter :: "u64 \<Rightarrow> arbiter_state" where
  "make_test_arbiter capacity_bytes = with_planes [test_plane ''plane-test-gpu'' ''Test Discrete GPU'' DiscreteGpu capacity_bytes capacity_bytes]"

text \<open>A call that must succeed, and the state of a lease.\<close>

definition done_ok :: "('e, 'a) result \<times> arbiter_state \<Rightarrow> ('a \<times> arbiter_state) option" where
  "done_ok c = (case c of (r, st) \<Rightarrow> do { x \<leftarrow> unwrap r; Some (x, st) })"

definition state_of :: "arbiter_state \<Rightarrow> compute_lease \<Rightarrow> lease_state option" where
  "state_of st l = map_option l_state (get_lease st (l_id l))"

definition test_preempt_cooperative_yield_state_transition :: "qa_env \<Rightarrow> unit option" where
  "test_preempt_cooperative_yield_state_transition E = do {
     let arbiter = make_test_arbiter (8 * 1024 * 1024 * 1024);
     (lease, st) \<leftarrow> done_ok (acquire (req E 0 Batch (2 * 1024 * 1024 * 1024) None None None) arbiter);
     check (l_state lease = Active);
     (_, st) \<leftarrow> done_ok (yield_lease (q_lib E) (l_id lease) st);
     check (state_of st lease = Some Preempting)
   }"

definition test_preempt_freeze_and_thaw_lease_state :: "qa_env \<Rightarrow> unit option" where
  "test_preempt_freeze_and_thaw_lease_state E = do {
     let arbiter = make_test_arbiter (8 * 1024 * 1024 * 1024);
     (lease, st) \<leftarrow> done_ok (acquire (req E 0 Batch (1024 * 1024 * 1024) None None None) arbiter);
     (_, st) \<leftarrow> done_ok (freeze_lease (q_lib E) (l_id lease) st);
     check (state_of st lease = Some Frozen);
     (_, st) \<leftarrow> done_ok (thaw_lease (q_lib E) (l_id lease) st);
     check (state_of st lease = Some Active)
   }"

definition test_preempt_priority_preemption_reclaims_memory :: "qa_env \<Rightarrow> unit option" where
  "test_preempt_priority_preemption_reclaims_memory E = do {
     let total_bytes = 4 * 1024 * 1024 * 1024;
     (batch_lease, st) \<leftarrow> done_ok (acquire (req E 0 Batch total_bytes None (Some ''batch.service'') None) (make_test_arbiter total_bytes));
     p \<leftarrow> plane_at st 0;
     check (p_available p = 0);
     (high_prio_lease, st) \<leftarrow> done_ok (acquire (req E 1 Interactive total_bytes None (Some ''user.service'') None) st);
     check (l_priority high_prio_lease = Interactive);
     check (state_of st batch_lease = Some Preempted)
   }"

definition test_preempt_cooperative_yield_signal_dispatch :: "kernel \<Rightarrow> unit option" where
  "test_preempt_cooperative_yield_signal_dispatch k = do {
     check (isl (fst (send_cooperative_yield_signal k 999999)));
     check (isl (fst (signal_process k 0 Usr1)))
   }"

definition test_preempt_multiple_lower_priority_leases_preempted_in_order :: "qa_env \<Rightarrow> unit option" where
  "test_preempt_multiple_lower_priority_leases_preempted_in_order E = do {
     (b1, st) \<leftarrow> done_ok (acquire (req E 0 Batch (2 * 1024 * 1024 * 1024) None None None) (make_test_arbiter (6 * 1024 * 1024 * 1024)));
     (b2, st) \<leftarrow> done_ok (acquire (req E 1 Batch (2 * 1024 * 1024 * 1024) None None None) st);
     (high, st) \<leftarrow> done_ok (acquire (req E 2 Interactive (5 * 1024 * 1024 * 1024) None None None) st);
     check (l_state high = Active);
     check (state_of st b1 = Some Preempted);
     check (state_of st b2 = Some Preempted)
   }"

definition test_preempt_thaw_preempted_lease_memory_safety :: "qa_env \<Rightarrow> unit option" where
  "test_preempt_thaw_preempted_lease_memory_safety E = do {
     let total_bytes = 4 * 1024 * 1024 * 1024;
     (batch, st) \<leftarrow> done_ok (acquire (req E 0 Batch total_bytes None None None) (make_test_arbiter total_bytes));
     (interactive, st) \<leftarrow> done_ok (acquire (req E 1 Interactive total_bytes None None None) st);
     check (state_of st batch = Some Preempted);
     let (thaw_err, st) = thaw_lease (q_lib E) (l_id batch) st;
     check (isl thaw_err);
     (_, st) \<leftarrow> done_ok (release_lease (q_lib E) (l_id interactive) st);
     (_, st) \<leftarrow> done_ok (thaw_lease (q_lib E) (l_id batch) st);
     check (state_of st batch = Some Active);
     p \<leftarrow> plane_at st 0;
     check (p_available p = 0);
     (_, st) \<leftarrow> done_ok (release_lease (q_lib E) (l_id batch) st);
     p \<leftarrow> plane_at st 0;
     check (p_available p = total_bytes)
   }"

definition test_preempt_revoke_preempted_lease_no_double_reclaim :: "qa_env \<Rightarrow> unit option" where
  "test_preempt_revoke_preempted_lease_no_double_reclaim E = do {
     let total_bytes = 4 * 1024 * 1024 * 1024;
     (batch, st) \<leftarrow> done_ok (acquire (req E 0 Batch total_bytes None None None) (make_test_arbiter total_bytes));
     (interactive, st) \<leftarrow> done_ok (acquire (req E 1 Interactive total_bytes None None None) st);
     check (state_of st batch = Some Preempted);
     p \<leftarrow> plane_at st 0;
     check (p_available p = 0);
     (_, st) \<leftarrow> done_ok (revoke_lease (q_lib E) (l_id batch) st);
     p \<leftarrow> plane_at st 0;
     check (p_available p = 0);
     check (state_of st batch = Some Revoked);
     (_, st) \<leftarrow> done_ok (release_lease (q_lib E) (l_id interactive) st);
     p \<leftarrow> plane_at st 0;
     check (p_available p = total_bytes)
   }"

definition test_preempt_release_preempted_lease_expires_without_double_reclaim :: "qa_env \<Rightarrow> unit option" where
  "test_preempt_release_preempted_lease_expires_without_double_reclaim E = do {
     let total_bytes = 4 * 1024 * 1024 * 1024;
     (batch, st) \<leftarrow> done_ok (acquire (req E 0 Batch total_bytes None None None) (make_test_arbiter total_bytes));
     (interactive, st) \<leftarrow> done_ok (acquire (req E 1 Interactive total_bytes None None None) st);
     check (state_of st batch = Some Preempted);
     (_, st) \<leftarrow> done_ok (release_lease (q_lib E) (l_id batch) st);
     check (state_of st batch = Some Expired);
     p \<leftarrow> plane_at st 0;
     check (p_available p = 0);
     (_, st) \<leftarrow> done_ok (release_lease (q_lib E) (l_id interactive) st);
     p \<leftarrow> plane_at st 0;
     check (p_available p = total_bytes)
   }"

section \<open>Sentry (\<open>sentry_tests.rs\<close>)\<close>

definition test_sentry_emergency_lease_bypasses_exhaustion :: "qa_env \<Rightarrow> unit option" where
  "test_sentry_emergency_lease_bypasses_exhaustion E = do {
     let arbiter = with_planes [(test_plane ''cpu-matrix-triage'' ''Dedicated Host CPU'' CpuMatrixExtension (2 * 1024 * 1024 * 1024) 0)
       \<lparr>p_triage_reserved := True, p_features := [''AMX-Tile'']\<rparr>];
     (lease, _) \<leftarrow> done_ok (acquire (req E 0 EmergencyTriage (1024 * 1024 * 1024) None (Some ''systemd-sentry.service'') None) arbiter);
     check (l_priority lease = EmergencyTriage);
     check (l_plane_id lease = ''cpu-matrix-triage'');
     check (l_state lease = Active)
   }"

definition test_sentry_model_pinning :: "qa_env \<Rightarrow> unit option" where
  "test_sentry_model_pinning E = do {
     let desc = \<lparr>m_id = ''sentry-triage-deepseek:1.5b'', m_format = ''GGUF'', m_path = ''/var/lib/systemd-sentry/triage.gguf'',
       m_estimated = 1536 * 1024 * 1024, m_placement = Dormant, m_resident_plane = None, m_last_accessed = q_now E 0, m_access_count = 0,
       m_preferred_plane = None\<rparr>;
     let reg = register desc new_registry;
     let (reg, pinned) = pin_for_triage ''sentry-triage-deepseek:1.5b'' ''npu-pinned-slice'' reg;
     check pinned;
     fetched \<leftarrow> get_model_entry reg ''sentry-triage-deepseek:1.5b'';
     check (m_placement fetched = PinnedTriage);
     check (m_resident_plane fetched = Some ''npu-pinned-slice'')
   }"

definition test_sentry_non_reserved_planes_unaffected_by_sentry_reservation :: "qa_env \<Rightarrow> unit option" where
  "test_sentry_non_reserved_planes_unaffected_by_sentry_reservation E = do {
     let arbiter = with_planes
       [test_plane ''gpu-workload'' ''General Workload dGPU'' DiscreteGpu (8 * 1024 * 1024 * 1024) (8 * 1024 * 1024 * 1024),
        (test_plane ''npu-triage'' ''Sentry Triage Enclave'' NpuAccelerator (2 * 1024 * 1024 * 1024) (2 * 1024 * 1024 * 1024))\<lparr>p_triage_reserved := True\<rparr>];
     (general_lease, st) \<leftarrow> done_ok (acquire (req E 0 Interactive (4 * 1024 * 1024 * 1024) None None None) arbiter);
     check (l_plane_id general_lease = ''gpu-workload'');
     (sentry_lease, st) \<leftarrow> done_ok (acquire (req E 1 EmergencyTriage (1024 * 1024 * 1024) None None None) st);
     check (l_plane_id sentry_lease = ''npu-triage'')
   }"

section \<open>All pass\<close>

lemma parsing_passes: "test_parse_kb = Some ()" "test_read_meminfo_from_mock = Some ()"
  by (simp_all add: test_parse_kb_def test_read_meminfo_from_mock_def qa_text)

lemma cpu_tests_pass:
  "test_detect_cpu_features_mock = Some ()" "test_count_cpu_cores_mock = Some ()" "test_build_cpu_plane = Some ()"
proof -
  show "test_detect_cpu_features_mock = Some ()" "test_count_cpu_cores_mock = Some ()" by code_simp+
  have "detect_cpu_features (one_file [''processor : 0'', ''flags: avx2'']) ''/tmp/f'' = (False, False, True)" by code_simp
  then show "test_build_cpu_plane = Some ()" by (simp add: test_build_cpu_plane_def build_cpu_plane_def check_def Let_def)
qed

lemma enclave_tests_pass:
  "test_assign_triage_enclave_prefers_npu = Some ()" "test_assign_triage_enclave_falls_back_to_cpu = Some ()"
  "test_assign_triage_enclave_proportional_on_constrained_host = Some ()"
  by (simp_all add: test_assign_triage_enclave_prefers_npu_def test_assign_triage_enclave_falls_back_to_cpu_def
      test_assign_triage_enclave_proportional_on_constrained_host_def assign_triage_enclave_def triage_npu_def triage_cpu_def test_plane_def
      reserve_cpu_quota_def CPU_TRIAGE_RESERVED_BYTES_def saturating_sub_def min_def Let_def check_def)

lemma acquire_and_release_passes: "qa_ok E \<Longrightarrow> test_arbiter_acquire_and_release_lease E = Some ()"
  by (simp add: test_arbiter_acquire_and_release_lease_def qa_run cong: bind_weak)

lemma registry_lifecycle_passes: "test_model_registry_lifecycle E = Some ()"
  by (simp add: test_model_registry_lifecycle_def check_def register_def new_registry_def list_registry_def pin_for_triage_def get_model_entry_def
      remove_entry_def evict_candidate_def hm_remove_def qa_tables)

lemmas qa_steps = qa_run done_ok_def state_of_def yield_lease_def freeze_lease_def mark_active_lease_def thaw_lease_def revoke_lease_def

lemma discovery_tests_pass:
  "test_discovery_read_meminfo_valid = Some ()" "test_discovery_count_cpu_cores = Some ()" "test_discovery_build_cpu_plane = Some ()"
  "test_discovery_triage_enclave_selection_hierarchy = Some ()"
proof -
  show "test_discovery_read_meminfo_valid = Some ()" by (simp add: test_discovery_read_meminfo_valid_def qa_text)
  show "test_discovery_count_cpu_cores = Some ()" by code_simp
  have "detect_cpu_features (one_file [''processor : 0'', ''flags: amx_tile avx512_vnni avx2'']) ''/tmp/f'' = (True, True, True)" by code_simp
  then show "test_discovery_build_cpu_plane = Some ()" by (simp add: test_discovery_build_cpu_plane_def build_cpu_plane_def check_def Let_def)
  show "test_discovery_triage_enclave_selection_hierarchy = Some ()"
    by (simp add: test_discovery_triage_enclave_selection_hierarchy_def assign_triage_enclave_def triage_npu_def test_plane_def check_def)
qed

lemma state_tests_pass:
  assumes "qa_ok E"
  shows "test_preempt_cooperative_yield_state_transition E = Some ()" "test_preempt_freeze_and_thaw_lease_state E = Some ()"
  using assms by (simp_all add: test_preempt_cooperative_yield_state_transition_def test_preempt_freeze_and_thaw_lease_state_def make_test_arbiter_def
      qa_steps cong: bind_weak)

lemma preemption_passes: "qa_ok E \<Longrightarrow> test_preempt_priority_preemption_reclaims_memory E = Some ()"
  by (simp add: test_preempt_priority_preemption_reclaims_memory_def make_test_arbiter_def qa_steps cong: bind_weak)

lemma preempted_in_order_passes: "qa_ok E \<Longrightarrow> test_preempt_multiple_lower_priority_leases_preempted_in_order E = Some ()"
  by (simp add: test_preempt_multiple_lower_priority_leases_preempted_in_order_def make_test_arbiter_def qa_steps cong: bind_weak)

lemma thaw_preempted_passes: "qa_ok E \<Longrightarrow> test_preempt_thaw_preempted_lease_memory_safety E = Some ()"
  by (simp add: test_preempt_thaw_preempted_lease_memory_safety_def make_test_arbiter_def qa_steps cong: bind_weak)

lemma no_double_reclaim_passes:
  assumes "qa_ok E"
  shows "test_preempt_revoke_preempted_lease_no_double_reclaim E = Some ()"
    "test_preempt_release_preempted_lease_expires_without_double_reclaim E = Some ()"
  using assms by (simp_all add: test_preempt_revoke_preempted_lease_no_double_reclaim_def test_preempt_release_preempted_lease_expires_without_double_reclaim_def
      make_test_arbiter_def qa_steps cong: bind_weak)

text \<open>On a host that has no process 999999.\<close>

lemma signal_dispatch_passes:
  assumes "pid_zero_invalid K" and "k_kill K 999999 Usr1 = Err e"
  shows "test_preempt_cooperative_yield_signal_dispatch K = Some ()"
proof -
  have "sint (999999 :: u32) = 999999" by code_simp
  then show ?thesis using assms
    by (simp add: test_preempt_cooperative_yield_signal_dispatch_def send_cooperative_yield_signal_def signal_process_def pid_zero_invalid_def check_def)
qed

lemma sentry_tests_pass:
  "test_sentry_emergency_lease_bypasses_exhaustion E = Some ()"
  "qa_ok E \<Longrightarrow> test_sentry_non_reserved_planes_unaffected_by_sentry_reservation E = Some ()"
  by (simp_all add: test_sentry_emergency_lease_bypasses_exhaustion_def test_sentry_non_reserved_planes_unaffected_by_sentry_reservation_def qa_steps
      cong: bind_weak)

lemma pinning_passes: "test_sentry_model_pinning E = Some ()"
  by (simp add: test_sentry_model_pinning_def check_def register_def new_registry_def pin_for_triage_def get_model_entry_def evict_candidate_def qa_tables)

end
