(* ===== verification/Qa_Integration.thy ===== *)
theory Qa_Integration
  imports Qa_Unit Preempt
begin

text \<open>
  The integration tests of \<^verbatim>\<open>src/qa/integration\<close> (\<^verbatim>\<open>cross_feature_tests.rs\<close>, \<^verbatim>\<open>cross_feature_ext.rs\<close>,
  \<^verbatim>\<open>scenario_multitenant.rs\<close>, \<^verbatim>\<open>scenario_panic_triage.rs\<close>), of \<^verbatim>\<open>src/qa/unit/freezer_tests.rs\<close> and of the
  preemption coordinator in \<^verbatim>\<open>src/qa/edge/challenger_preempt.rs\<close>, apart from those that map memory, pass descriptors or
  signal a child process.
\<close>

section \<open>Cross feature tests\<close>

definition make_topo :: "u64 \<Rightarrow> hardware_topology" where
  "make_topo cap = default_topology\<lparr>planes := [test_plane ''plane-cross-gpu'' ''Cross Feature dGPU'' DiscreteGpu cap cap]\<rparr>"

definition test_interaction_sentry_preemption_during_active_streaming :: "qa_env \<Rightarrow> unit option" where
  "test_interaction_sentry_preemption_during_active_streaming E = do {
     let cap = 4 * 1024 * 1024 * 1024;
     (stream_lease, st) \<leftarrow> done_ok (acquire (req E 0 Interactive cap None (Some ''stream-client.service'') None) (new_arbiter (make_topo cap)));
     check (l_state stream_lease = Active);
     (sentry_lease, st) \<leftarrow> done_ok (acquire (req E 1 EmergencyTriage (1024 * 1024 * 1024) None (Some ''systemd-sentry.service'') None) st);
     check (l_priority sentry_lease = EmergencyTriage);
     check (l_state sentry_lease = Active);
     (_, st) \<leftarrow> done_ok (release_lease (q_lib E) (l_id sentry_lease) st);
     Some ()
   }"

definition test_interaction_socket_activation_with_high_psi_pressure :: "qa_env \<Rightarrow> unit option" where
  "test_interaction_socket_activation_with_high_psi_pressure E = do {
     let cap = 8 * 1024 * 1024 * 1024;
     let emergency = fst (acquire (req E 0 EmergencyTriage (2 * 1024 * 1024 * 1024) None (Some ''systemd-sentry.service'') None) (new_arbiter (make_topo cap)));
     check (\<not> isl emergency)
   }"

definition test_interaction_varlink_lease_acquisition_with_cgroup_freeze_and_thaw :: "qa_env \<Rightarrow> unit option" where
  "test_interaction_varlink_lease_acquisition_with_cgroup_freeze_and_thaw E = do {
     let cap = 4 * 1024 * 1024 * 1024;
     (lease, st) \<leftarrow> done_ok (acquire (req E 0 Interactive (1024 * 1024 * 1024) None (Some ''worker.slice'') (Some 1234)) (new_arbiter (make_topo cap)));
     (_, st) \<leftarrow> done_ok (freeze_lease (q_lib E) (l_id lease) st);
     check (state_of st lease = Some Frozen);
     (_, st) \<leftarrow> done_ok (thaw_lease (q_lib E) (l_id lease) st);
     check (state_of st lease = Some Active);
     (_, st) \<leftarrow> done_ok (release_lease (q_lib E) (l_id lease) st);
     check (state_of st lease = Some Expired)
   }"

definition test_interaction_multitenant_arbitration_with_cooperative_yield_fallback :: "qa_env \<Rightarrow> unit option" where
  "test_interaction_multitenant_arbitration_with_cooperative_yield_fallback E = do {
     let cap = 4 * 1024 * 1024 * 1024;
     (t1_batch, st) \<leftarrow> done_ok (acquire (req E 0 Batch (3 * 1024 * 1024 * 1024) None None None) (new_arbiter (make_topo cap)));
     (t2_interactive, st) \<leftarrow> done_ok (acquire (req E 1 Interactive (2 * 1024 * 1024 * 1024) None None None) st);
     check (l_state t2_interactive = Active);
     check (state_of st t1_batch = Some Preempted);
     (_, st) \<leftarrow> done_ok (release_lease (q_lib E) (l_id t2_interactive) st);
     p \<leftarrow> plane_at st 0;
     check (2 * 1024 * 1024 * 1024 \<le> p_available p)
   }"

definition both_available :: "arbiter_state \<Rightarrow> u64 \<Rightarrow> unit option" where
  "both_available st n = do {
     p \<leftarrow> plane_at st 0;
     check (p_available p = n);
     p \<leftarrow> plane_at st 1;
     check (p_available p = n)
   }"

definition test_interaction_uma_preempt_thaw_and_release_lifecycle :: "qa_env \<Rightarrow> unit option" where
  "test_interaction_uma_preempt_thaw_and_release_lifecycle E = do {
     let total_bytes = 8 * 1024 * 1024 * 1024;
     let make_p = (\<lambda>i kind. test_plane i i kind total_bytes total_bytes);
     let arbiter = with_planes [make_p ''plane-uma-gpu'' IntegratedUma, make_p ''cpu-host'' CpuMatrixExtension];
     (batch, st) \<leftarrow> done_ok (acquire (req E 0 Batch (4 * 1024 * 1024 * 1024) (Some ''plane-uma-gpu'') None None) arbiter);
     both_available st (4 * 1024 * 1024 * 1024);
     (interactive, st) \<leftarrow> done_ok (acquire (req E 1 Interactive (6 * 1024 * 1024 * 1024) (Some ''plane-uma-gpu'') None None) st);
     check (state_of st batch = Some Preempted);
     both_available st (2 * 1024 * 1024 * 1024);
     let (r, st) = thaw_lease (q_lib E) (l_id batch) st;
     check (isl r);
     (_, st) \<leftarrow> done_ok (release_lease (q_lib E) (l_id interactive) st);
     both_available st total_bytes;
     (_, st) \<leftarrow> done_ok (thaw_lease (q_lib E) (l_id batch) st);
     check (state_of st batch = Some Active);
     both_available st (4 * 1024 * 1024 * 1024);
     (_, st) \<leftarrow> done_ok (release_lease (q_lib E) (l_id batch) st);
     both_available st total_bytes
   }"

section \<open>Further interactions (\<open>cross_feature_ext.rs\<close>)\<close>

definition make_ext_topo :: hardware_topology where
  "make_ext_topo = default_topology\<lparr>planes :=
     [test_plane ''plane-ext-gpu'' ''Extended Interaction dGPU'' DiscreteGpu (8 * 1024 * 1024 * 1024) (8 * 1024 * 1024 * 1024)]\<rparr>"

definition test_interaction_cli_exec_stream_filter_with_sentry_triage_interruption :: "qa_env \<Rightarrow> unit option" where
  "test_interaction_cli_exec_stream_filter_with_sentry_triage_interruption E = do {
     (stream_lease, st) \<leftarrow> done_ok (acquire (req E 0 Interactive (4 * 1024 * 1024 * 1024) None (Some ''inferenctl-exec'') None) (new_arbiter make_ext_topo));
     (triage_lease, st) \<leftarrow> done_ok (acquire (req E 1 EmergencyTriage (2 * 1024 * 1024 * 1024) None (Some ''systemd-sentry'') None) st);
     check (l_priority triage_lease = EmergencyTriage);
     (_, st) \<leftarrow> done_ok (release_lease (q_lib E) (l_id triage_lease) st);
     (_, st) \<leftarrow> done_ok (release_lease (q_lib E) (l_id stream_lease) st);
     Some ()
   }"

definition test_interaction_hardware_plane_rediscovery_with_active_leases :: "qa_env \<Rightarrow> unit option" where
  "test_interaction_hardware_plane_rediscovery_with_active_leases E = do {
     let initial_topo = make_ext_topo\<lparr>planes := planes make_ext_topo @
       [test_plane ''plane-hotplug-npu'' ''Hotplug NPU'' NpuAccelerator (2 * 1024 * 1024 * 1024) (2 * 1024 * 1024 * 1024)]\<rparr>;
     (l1, st) \<leftarrow> done_ok (acquire (req E 0 Interactive (1024 * 1024 * 1024) (Some ''plane-ext-gpu'') None None) (new_arbiter initial_topo));
     (l2, st) \<leftarrow> done_ok (acquire (req E 1 Interactive (1024 * 1024 * 1024) (Some ''plane-hotplug-npu'') None None) st);
     let st = update_topology make_ext_topo st;
     check (length (planes (topology st)) = 1);
     p \<leftarrow> plane_at st 0;
     check (p_available p = 7 * 1024 * 1024 * 1024);
     check (state_of st l2 = Some Revoked);
     (_, st) \<leftarrow> done_ok (release_lease (q_lib E) (l_id l1) st);
     p \<leftarrow> plane_at st 0;
     check (p_available p = 8 * 1024 * 1024 * 1024)
   }"

definition test_interaction_varlink_stream_inference_under_model_eviction :: "qa_env \<Rightarrow> unit option" where
  "test_interaction_varlink_stream_inference_under_model_eviction E = do {
     let desc = \<lparr>m_id = ''stream-test-model'', m_format = ''GGUF'', m_path = ''/models/stream.gguf'', m_estimated = 2 * 1024 * 1024 * 1024,
       m_placement = Dormant, m_resident_plane = None, m_last_accessed = q_now E 0, m_access_count = 5, m_preferred_plane = None\<rparr>;
     let reg = register desc new_registry;
     check (length (list_registry reg) = 1);
     let (reg, removed) = remove_entry ''stream-test-model'' reg;
     check (removed \<noteq> None);
     check (length (list_registry reg) = 0)
   }"

section \<open>Tenants of one plane (\<open>scenario_multitenant.rs\<close>)\<close>

text \<open>A control group whose freeze file holds \<open>content\<close>, and that content after the calls of the freezer.\<close>

definition cgroup_host :: "string \<Rightarrow> string \<Rightarrow> os" where
  "cgroup_host path content = empty_os\<lparr>os_exists := (\<lambda>p. p = path), os_read_to_string := (\<lambda>p. if p = path then Some content else None)\<rparr>"

fun content_after :: "string \<Rightarrow> syscall list \<Rightarrow> string" where
  "content_after c [] = c"
| "content_after c (WriteFile _ v # cs) = content_after v cs"
| "content_after c (_ # cs) = content_after c cs"

text \<open>Opening, writing and flushing the file succeed.\<close>

definition writable :: "kernel \<Rightarrow> string \<Rightarrow> bool" where
  "writable K path \<longleftrightarrow> k_open_write K path = Ok () \<and> (\<forall>v. k_write K path v = Ok ()) \<and> k_flush K path = Ok ()"

definition test_scenario_multitenant_arbitration_and_cooperative_yield :: "qa_env \<Rightarrow> kernel \<Rightarrow> (string \<Rightarrow> string) \<Rightarrow> unit option" where
  "test_scenario_multitenant_arbitration_and_cooperative_yield E K err = do {
     let arbiter = with_planes [test_plane ''plane-shared-apu'' ''Shared UMA APU Plane'' IntegratedUma (8 * 1024 * 1024 * 1024) (8 * 1024 * 1024 * 1024)];
     (tenant_a, st) \<leftarrow> done_ok (acquire (req E 0 Batch (6 * 1024 * 1024 * 1024) None (Some ''tenant-a-batch.slice'') (Some 1001)) arbiter);
     check (l_state tenant_a = Active);
     (_, st) \<leftarrow> done_ok (yield_lease (q_lib E) (l_id tenant_a) st);
     check (state_of st tenant_a = Some Preempting);
     let freeze_file_path = ''/tmp/d/cgroup.freeze'';
     let content = ''0'' @ [nl];
     let (r, calls) = freeze_cgroup K (cgroup_host freeze_file_path content) freeze_file_path;
     unwrap r;
     let content = content_after content calls;
     (_, st) \<leftarrow> done_ok (freeze_lease (q_lib E) (l_id tenant_a) st);
     frozen \<leftarrow> unwrap (is_cgroup_frozen (cgroup_host freeze_file_path content) err freeze_file_path);
     check frozen;
     check (state_of st tenant_a = Some Frozen);
     (tenant_b, st) \<leftarrow> done_ok (acquire (req E 1 Interactive (2 * 1024 * 1024 * 1024) None (Some ''tenant-b-interactive.service'') (Some 2002)) st);
     check (l_state tenant_b = Active);
     (_, st) \<leftarrow> done_ok (release_lease (q_lib E) (l_id tenant_b) st);
     let (r, calls) = thaw_cgroup K (cgroup_host freeze_file_path content) freeze_file_path;
     unwrap r;
     let content = content_after content calls;
     (_, st) \<leftarrow> done_ok (thaw_lease (q_lib E) (l_id tenant_a) st);
     frozen \<leftarrow> unwrap (is_cgroup_frozen (cgroup_host freeze_file_path content) err freeze_file_path);
     check (\<not> frozen);
     check (state_of st tenant_a = Some Active)
   }"

section \<open>Freezer (\<open>freezer_tests.rs\<close>)\<close>

text \<open>The group's directory is \<open>/tmp/d\<close>; its freeze file starts empty.\<close>

definition test_cgroup_freeze_and_thaw_file_operations :: "kernel \<Rightarrow> (string \<Rightarrow> string) \<Rightarrow> unit option" where
  "test_cgroup_freeze_and_thaw_file_operations K err = do {
     let freeze_file = ''/tmp/d/cgroup.freeze'';
     let content = [];
     let (r, calls) = freeze_cgroup K (cgroup_host freeze_file content) ''/tmp/d'';
     unwrap r;
     let content = content_after content calls;
     frozen_state \<leftarrow> unwrap (is_cgroup_frozen (cgroup_host freeze_file content) err ''/tmp/d'');
     check frozen_state;
     check (trim content = ''1'');
     let (r, calls) = thaw_cgroup K (cgroup_host freeze_file content) ''/tmp/d'';
     unwrap r;
     let content = content_after content calls;
     thawed_state \<leftarrow> unwrap (is_cgroup_frozen (cgroup_host freeze_file content) err ''/tmp/d'');
     check (\<not> thawed_state);
     check (trim content = ''0'')
   }"

definition test_freezer_nonexistent_path_returns_error :: "kernel \<Rightarrow> os \<Rightarrow> unit option" where
  "test_freezer_nonexistent_path_returns_error K h = check (isl (fst (freeze_cgroup K h ''/nonexistent/sys/fs/cgroup/missing.slice'')))"

section \<open>Driver panic (\<open>scenario_panic_triage.rs\<close>)\<close>

text \<open>The server's side of the emergency connection, up to its answer; \<open>released\<close> tells whether it has
  already given its lease back when the client looks at the batch lease.\<close>

definition test_scenario_emergency_driver_panic_triage :: "qa_env \<Rightarrow> bool \<Rightarrow> unit option" where
  "test_scenario_emergency_driver_panic_triage E released = do {
     let arbiter = with_planes
       [test_plane ''gpu-panicked'' ''Discrete GPU (Kernel Panic)'' DiscreteGpu (8 * 1024 * 1024 * 1024) 0,
        (test_plane ''npu-sentry-enclave'' ''Dedicated Sentry NPU Triage Enclave'' NpuAccelerator (2 * 1024 * 1024 * 1024) (2 * 1024 * 1024 * 1024))
          \<lparr>p_triage_reserved := True\<rparr>];
     (batch_lease, st) \<leftarrow> done_ok (acquire (req E 0 Batch (2 * 1024 * 1024 * 1024) (Some ''npu-sentry-enclave'') (Some ''background-worker.service'') None) arbiter);
     check (l_state batch_lease = Active);
     (triage_lease, st) \<leftarrow> done_ok (acquire (req E 1 EmergencyTriage (1024 * 1024 * 1024) None (Some ''systemd-sentry.service'') None) st);
     let allocated_plane = l_plane_id triage_lease;
     (_, st) \<leftarrow> (if released then done_ok (release_lease (q_lib E) (l_id triage_lease) st) else Some ((), st));
     check (allocated_plane = ''npu-sentry-enclave'');
     check (state_of st batch_lease = Some Preempted)
   }"

section \<open>Preemption coordinator (\<open>challenger_preempt.rs\<close>)\<close>

definition make_challenger_arbiter :: arbiter_state where
  "make_challenger_arbiter = with_planes
     [test_plane ''plane-challenger-preempt'' ''Challenger Preempt Plane'' DiscreteGpu (8 * 1024 * 1024 * 1024) (8 * 1024 * 1024 * 1024)]"

text \<open>\<open>polls\<close> are the times of the coordinator's polls and \<open>start\<close> the time of the call. Nobody else
  uses the arbiter, so each poll sees the lease as the yield request left it.\<close>

definition test_adversarial_preempt_exact_250ms_deadline_and_tier2_freeze :: "qa_env \<Rightarrow> kernel \<Rightarrow> os \<Rightarrow> nat \<Rightarrow> nat list \<Rightarrow> unit option" where
  "test_adversarial_preempt_exact_250ms_deadline_and_tier2_freeze E K h start polls = do {
     check (DEFAULT_PREEMPT_TIMEOUT = 250);
     (lease, st) \<leftarrow> done_ok (acquire (req E 0 Batch (1024 * 1024 * 1024) (Some ''plane-challenger-preempt'') (Some ''stubborn-client.service'') None)
       make_challenger_arbiter);
     let yielding = snd (yield_lease (q_lib E) (l_id lease) st);
     (r, st, recs, _) \<leftarrow> preempt_lease (q_lib E) K h DEFAULT_PREEMPT_TIMEOUT (l_id lease) st hm_new start (map (\<lambda>t. (t, yielding)) polls);
     unwrap r;
     let elapsed = last polls - start;
     check (240 \<le> elapsed);
     rec \<leftarrow> get_record recs (l_id lease);
     check (r_tier rec = Tier2ForcedFreeze);
     check (r_deadline_ms rec = 250);
     check (state_of st lease = Some Frozen);
     let (r, st, _) = thaw_preempted_lease (q_lib E) K h (l_id lease) st;
     unwrap r;
     check (state_of st lease = Some Active)
   }"

text \<open>The client releases its lease 35 ms after the call: later polls see it gone.\<close>

definition test_adversarial_preempt_cooperative_yield_under_50ms :: "qa_env \<Rightarrow> kernel \<Rightarrow> os \<Rightarrow> nat \<Rightarrow> nat list \<Rightarrow> unit option" where
  "test_adversarial_preempt_cooperative_yield_under_50ms E K h start polls = do {
     (lease, st) \<leftarrow> done_ok (acquire (req E 0 Batch (1024 * 1024 * 1024) (Some ''plane-challenger-preempt'') (Some ''cooperative-client.service'') None)
       make_challenger_arbiter);
     let yielding = snd (yield_lease (q_lib E) (l_id lease) st);
     let gone = snd (release_lease (q_lib E) (l_id lease) yielding);
     (r, st, recs, _) \<leftarrow> preempt_lease (q_lib E) K h DEFAULT_PREEMPT_TIMEOUT (l_id lease) st hm_new start
       (map (\<lambda>t. (t, if t < start + 35 then yielding else gone)) polls);
     unwrap r;
     let elapsed = last polls - start;
     check (elapsed < 150);
     rec \<leftarrow> get_record recs (l_id lease);
     check (r_tier rec = Tier1Cooperative);
     check (r_completed rec)
   }"

section \<open>All pass\<close>

lemma streaming_passes: "qa_ok E \<Longrightarrow> test_interaction_sentry_preemption_during_active_streaming E = Some ()"
  by (simp add: test_interaction_sentry_preemption_during_active_streaming_def make_topo_def qa_steps cong: bind_weak)

lemma pressure_passes: "test_interaction_socket_activation_with_high_psi_pressure E = Some ()"
  by (simp add: test_interaction_socket_activation_with_high_psi_pressure_def make_topo_def qa_arbiter qa_tables)

lemma freeze_and_thaw_passes: "qa_ok E \<Longrightarrow> test_interaction_varlink_lease_acquisition_with_cgroup_freeze_and_thaw E = Some ()"
  by (simp add: test_interaction_varlink_lease_acquisition_with_cgroup_freeze_and_thaw_def make_topo_def qa_steps cong: bind_weak)

lemma yield_fallback_passes: "qa_ok E \<Longrightarrow> test_interaction_multitenant_arbitration_with_cooperative_yield_fallback E = Some ()"
  by (simp add: test_interaction_multitenant_arbitration_with_cooperative_yield_fallback_def make_topo_def qa_steps cong: bind_weak)

lemma uma_lifecycle_passes: "qa_ok E \<Longrightarrow> test_interaction_uma_preempt_thaw_and_release_lifecycle E = Some ()"
  by (simp add: test_interaction_uma_preempt_thaw_and_release_lifecycle_def both_available_def qa_steps cong: bind_weak)

lemma interruption_passes: "qa_ok E \<Longrightarrow> test_interaction_cli_exec_stream_filter_with_sentry_triage_interruption E = Some ()"
  by (simp add: test_interaction_cli_exec_stream_filter_with_sentry_triage_interruption_def make_ext_topo_def qa_steps cong: bind_weak)

lemma rediscovery_passes: "qa_ok E \<Longrightarrow> test_interaction_hardware_plane_rediscovery_with_active_leases E = Some ()"
  by (simp add: test_interaction_hardware_plane_rediscovery_with_active_leases_def make_ext_topo_def update_topology_def rebind_lease_def
      qa_steps cong: bind_weak)

lemma eviction_passes: "test_interaction_varlink_stream_inference_under_model_eviction E = Some ()"
  by (simp add: test_interaction_varlink_stream_inference_under_model_eviction_def check_def register_def new_registry_def list_registry_def
      remove_entry_def evict_candidate_def hm_remove_def qa_tables)

lemma panic_triage_passes: "qa_ok E \<Longrightarrow> test_scenario_emergency_driver_panic_triage E released = Some ()"
  by (cases released) (simp_all add: test_scenario_emergency_driver_panic_triage_def qa_steps cong: bind_weak)

lemma cgroup_calls:
  assumes "writable K f" and r: "resolve_freeze_path h p = f"
  shows "fst (freeze_cgroup K h p) = Ok ()" "fst (thaw_cgroup K h p) = Ok ()"
    "content_after c (snd (freeze_cgroup K h p)) = ''1''" "content_after c (snd (thaw_cgroup K h p)) = ''0''"
  using assms(1) by (simp_all add: freeze_cgroup_def thaw_cgroup_def write_cgroup_freeze_def r writable_def Let_def)

lemma cgroup_paths:
  "resolve_freeze_path h ''/tmp/d/cgroup.freeze'' = ''/tmp/d/cgroup.freeze''" "resolve_freeze_path h ''/tmp/d'' = ''/tmp/d/cgroup.freeze''"
proof -
  have "path_is_absolute ''/tmp/d/cgroup.freeze''" "path_ends_with_component ''cgroup.freeze'' ''/tmp/d/cgroup.freeze''"
    "path_is_absolute ''/tmp/d''" "\<not> path_ends_with_component ''cgroup.freeze'' ''/tmp/d''" "path_join ''/tmp/d'' ''cgroup.freeze'' = ''/tmp/d/cgroup.freeze''"
    by code_simp+
  then show "resolve_freeze_path h ''/tmp/d/cgroup.freeze'' = ''/tmp/d/cgroup.freeze''" "resolve_freeze_path h ''/tmp/d'' = ''/tmp/d/cgroup.freeze''"
    by (simp_all add: resolve_freeze_path_def)
qed

lemma cgroup_read: "resolve_freeze_path (cgroup_host f c) p = f \<Longrightarrow> is_cgroup_frozen (cgroup_host f c) err p = Ok (trim c = ''1'')"
  by (simp add: is_cgroup_frozen_def) (simp add: cgroup_host_def)

lemma trim_flags: "trim ''1'' = ''1''" "trim ''0'' = ''0''"
  by code_simp+

lemmas cgroup_steps = case_prod_beta cgroup_paths cgroup_read trim_flags

lemma freezer_tests_pass:
  "writable K ''/tmp/d/cgroup.freeze'' \<Longrightarrow> test_cgroup_freeze_and_thaw_file_operations K err = Some ()"
  "(\<And>f. k_open_write K f = Err e) \<Longrightarrow> (\<And>f. k_create K f = Err e') \<Longrightarrow> test_freezer_nonexistent_path_returns_error K h = Some ()"
  by (simp_all add: test_cgroup_freeze_and_thaw_file_operations_def test_freezer_nonexistent_path_returns_error_def cgroup_steps cgroup_calls
      unwrap_def check_def freeze_cgroup_def [of _ h] write_cgroup_freeze_def [of _ h] Let_def cong: bind_weak)

lemma multitenant_passes:
  assumes "qa_ok E" and "writable K ''/tmp/d/cgroup.freeze''"
  shows "test_scenario_multitenant_arbitration_and_cooperative_yield E K err = Some ()"
  using assms by (simp add: test_scenario_multitenant_arbitration_and_cooperative_yield_def cgroup_steps cgroup_calls qa_steps cong: bind_weak)

lemma wait_stubborn:
  assumes "\<not> gave_up st i" and "polls \<noteq> []" and "\<forall>t \<in> set (butlast polls). t < deadline" and "deadline \<le> last polls"
  shows "wait_yield i deadline (map (\<lambda>t. (t, st)) polls) = Some (False, st)"
  using assms by (induction polls) (auto split: if_splits)

lemma wait_cooperative:
  assumes "\<not> gave_up st i" and "gave_up st' i" and "polls \<noteq> []" and "\<forall>t \<in> set (butlast polls). t < quit" and "quit \<le> last polls" "last polls < deadline"
  shows "wait_yield i deadline (map (\<lambda>t. (t, if t < quit then st else st')) polls) = Some (True, st')"
  using assms by (induction polls) (auto split: if_splits)

text \<open>The last poll is the first one at or after the deadline.\<close>

lemma deadline_passes:
  assumes E: "qa_ok E" and polls: "polls \<noteq> []" "\<forall>t \<in> set (butlast polls). t < start + 250" "start + 250 \<le> last polls"
  shows "test_adversarial_preempt_exact_250ms_deadline_and_tier2_freeze E K h start polls = Some ()"
  using E polls
  by (simp add: test_adversarial_preempt_exact_250ms_deadline_and_tier2_freeze_def make_challenger_arbiter_def preempt_lease_def DEFAULT_PREEMPT_TIMEOUT_def
      wait_stubborn gave_up_def add_record_def get_record_def thaw_preempted_lease_def case_prod_beta qa_steps cong: bind_weak)

text \<open>The last poll is the first one after the client has gone, and comes in time.\<close>

lemma cooperative_passes:
  assumes E: "qa_ok E" and polls: "polls \<noteq> []" "\<forall>t \<in> set (butlast polls). t < start + 35" "start + 35 \<le> last polls" "last polls < start + 150"
  shows "test_adversarial_preempt_cooperative_yield_under_50ms E K h start polls = Some ()"
  using E polls
  by (simp add: test_adversarial_preempt_cooperative_yield_under_50ms_def make_challenger_arbiter_def preempt_lease_def DEFAULT_PREEMPT_TIMEOUT_def
      wait_cooperative gave_up_def add_record_def get_record_def case_prod_beta qa_steps cong: bind_weak)

end
