(* ===== verification/Qa_Crates.thy ===== *)
theory Qa_Crates
  imports Qa_Integration Netlink Peer
begin

text \<open>
  Unit tests kept beside the core library: \<^verbatim>\<open>tests/arbiter_tests.rs\<close>, \<^verbatim>\<open>tests/preempt_tests.rs\<close>,
  \<^verbatim>\<open>tests/topology_tests.rs\<close>, and the test modules of \<^verbatim>\<open>topology/pstore.rs\<close>, \<^verbatim>\<open>netlink.rs\<close>,
  \<^verbatim>\<open>peer.rs\<close> and \<^verbatim>\<open>model.rs\<close>.
\<close>

section \<open>Arbiter\<close>

definition gpu_topology :: "string \<Rightarrow> u64 \<Rightarrow> hardware_topology" where
  "gpu_topology plane_id mem_bytes = default_topology\<lparr>planes :=
     [(test_plane plane_id ''Test GPU Plane'' DiscreteGpu mem_bytes mem_bytes)\<lparr>p_supported_formats := [''FP16''], p_features := [''test'']\<rparr>]\<rparr>"

definition test_priority_leasing_hierarchy :: "unit option" where
  "test_priority_leasing_hierarchy = do {
     check (Interactive < EmergencyTriage);
     check (Batch < Interactive);
     check (priority_value EmergencyTriage = 100);
     check (priority_value Interactive = 10);
     check (priority_value Batch = 0)
   }"

definition requested :: "qa_env \<Rightarrow> nat \<Rightarrow> lease_request \<Rightarrow> arbiter_state \<Rightarrow> (compute_lease \<times> arbiter_state) option" where
  "requested E k r st = (case request_lease (q_psi E) (q_id E k) (q_now E k) r st of (res, st', _) \<Rightarrow> done_ok (res, st'))"

definition test_clean_borrow_splitting_preemption :: "qa_env \<Rightarrow> unit option" where
  "test_clean_borrow_splitting_preemption E = do {
     let total_mem = 4 * 1024 * 1024 * 1024;
     let batch_req = \<lparr>r_priority = Batch, r_required_bytes = 3 * 1024 * 1024 * 1024, r_preferred_plane = Some ''gpu-split-test'',
       r_client_unit = Some ''batch.service'', r_client_pid = Some 1234\<rparr>;
     (batch_lease, st) \<leftarrow> requested E 0 batch_req (new_arbiter (gpu_topology ''gpu-split-test'' total_mem));
     check (l_state batch_lease = Active);
     p \<leftarrow> plane_at st 0;
     check (p_available p = 1024 * 1024 * 1024);
     let interactive_req = \<lparr>r_priority = Interactive, r_required_bytes = 2 * 1024 * 1024 * 1024, r_preferred_plane = Some ''gpu-split-test'',
       r_client_unit = Some ''interactive.service'', r_client_pid = Some 5678\<rparr>;
     (inter_lease, st) \<leftarrow> requested E 1 interactive_req st;
     check (l_state inter_lease = Active);
     check (state_of st batch_lease = Some Preempted);
     p \<leftarrow> plane_at st 0;
     check (p_available p = 2 * 1024 * 1024 * 1024);
     (_, st) \<leftarrow> done_ok (release_lease (q_lib E) (l_id inter_lease) st);
     p \<leftarrow> plane_at st 0;
     check (p_available p = total_mem)
   }"

definition test_lease_revocation_returns_resources :: "qa_env \<Rightarrow> unit option" where
  "test_lease_revocation_returns_resources E = do {
     let total_mem = 2 * 1024 * 1024 * 1024;
     (lease, st) \<leftarrow> done_ok (acquire (req E 0 Interactive (1024 * 1024 * 1024) (Some ''gpu-revoke-test'') None None)
       (new_arbiter (gpu_topology ''gpu-revoke-test'' total_mem)));
     p \<leftarrow> plane_at st 0;
     check (p_available p = 1024 * 1024 * 1024);
     (_, st) \<leftarrow> done_ok (revoke_lease (q_lib E) (l_id lease) st);
     check (state_of st lease = Some Revoked);
     p \<leftarrow> plane_at st 0;
     check (p_available p = total_mem)
   }"

definition test_freeze_and_thaw_lease :: "qa_env \<Rightarrow> unit option" where
  "test_freeze_and_thaw_lease E = do {
     (lease, st) \<leftarrow> done_ok (acquire (req E 0 Interactive (512 * 1024 * 1024) None None None)
       (new_arbiter (gpu_topology ''gpu-freeze-test'' (1024 * 1024 * 1024))));
     (_, st) \<leftarrow> done_ok (freeze_lease (q_lib E) (l_id lease) st);
     check (state_of st lease = Some Frozen);
     (_, st) \<leftarrow> done_ok (thaw_lease (q_lib E) (l_id lease) st);
     check (state_of st lease = Some Active)
   }"

text \<open>\<open>i\<close> is the identifier that \<open>LeaseId::default\<close> draws.\<close>

definition test_release_nonexistent_lease_returns_error :: "qa_env \<Rightarrow> lease_id \<Rightarrow> unit option" where
  "test_release_nonexistent_lease_returns_error E i =
     check (isl (fst (release_lease (q_lib E) i (new_arbiter (gpu_topology ''gpu-err-test'' (1024 * 1024 * 1024))))))"

section \<open>Preemption coordinator\<close>

definition setup_arbiter :: arbiter_state where
  "setup_arbiter = with_planes
     [test_plane ''plane-preempt-test'' ''Test Preempt Plane'' DiscreteGpu (4 * 1024 * 1024 * 1024) (4 * 1024 * 1024 * 1024)]"

text \<open>As in \<open>Qa_Integration\<close>, \<open>polls\<close> are the times at which the coordinator looks.\<close>

definition test_preempt_coordinator_cooperative_yield_success :: "qa_env \<Rightarrow> kernel \<Rightarrow> os \<Rightarrow> nat \<Rightarrow> nat list \<Rightarrow> unit option" where
  "test_preempt_coordinator_cooperative_yield_success E K h start polls = do {
     (lease, st) \<leftarrow> done_ok (acquire (req E 0 Batch (1024 * 1024 * 1024) (Some ''plane-preempt-test'') (Some ''worker.service'') None) setup_arbiter);
     let yielding = snd (yield_lease (q_lib E) (l_id lease) st);
     let gone = snd (release_lease (q_lib E) (l_id lease) yielding);
     (r, st, recs, _) \<leftarrow> preempt_lease (q_lib E) K h 100 (l_id lease) st hm_new start
       (map (\<lambda>t. (t, if t < start + 30 then yielding else gone)) polls);
     unwrap r;
     rec \<leftarrow> get_record recs (l_id lease);
     check (r_tier rec = Tier1Cooperative);
     check (r_completed rec)
   }"

definition test_preempt_coordinator_timeout_fallback_to_freeze :: "qa_env \<Rightarrow> kernel \<Rightarrow> os \<Rightarrow> nat \<Rightarrow> nat list \<Rightarrow> unit option" where
  "test_preempt_coordinator_timeout_fallback_to_freeze E K h start polls = do {
     (lease, st) \<leftarrow> done_ok (acquire (req E 0 Batch (1024 * 1024 * 1024) (Some ''plane-preempt-test'') (Some ''stubborn.service'') None) setup_arbiter);
     let yielding = snd (yield_lease (q_lib E) (l_id lease) st);
     (r, st, recs, _) \<leftarrow> preempt_lease (q_lib E) K h 50 (l_id lease) st hm_new start (map (\<lambda>t. (t, yielding)) polls);
     unwrap r;
     rec \<leftarrow> get_record recs (l_id lease);
     check (r_tier rec = Tier2ForcedFreeze);
     check (state_of st lease = Some Frozen);
     let (r, st, _) = thaw_preempted_lease (q_lib E) K h (l_id lease) st;
     unwrap r;
     check (state_of st lease = Some Active);
     let (r, st, recs) = revoke_preempted_lease (q_lib E) (l_id lease) st recs;
     unwrap r;
     check (state_of st lease = Some Revoked)
   }"

definition test_preempt_coordinator_inactive_lease_noop :: "qa_env \<Rightarrow> kernel \<Rightarrow> os \<Rightarrow> nat \<Rightarrow> unit option" where
  "test_preempt_coordinator_inactive_lease_noop E K h start = do {
     (lease, st) \<leftarrow> done_ok (acquire (req E 0 Batch (512 * 1024 * 1024) None None None) setup_arbiter);
     (_, st) \<leftarrow> done_ok (release_lease (q_lib E) (l_id lease) st);
     (r, _, _, _) \<leftarrow> preempt_lease (q_lib E) K h DEFAULT_PREEMPT_TIMEOUT (l_id lease) st hm_new start [];
     check (\<not> isl r)
   }"

section \<open>Topology\<close>

text \<open>A host with the given files and directories.\<close>

definition files_host :: "(string \<times> string list) list \<Rightarrow> (string \<times> string list) list \<Rightarrow> os" where
  "files_host fs ds = \<lparr>os_exists = (\<lambda>p. p \<in> fst ` set fs \<or> p \<in> fst ` set ds), os_is_dir = (\<lambda>p. p \<in> fst ` set ds),
     os_read_to_string = (\<lambda>p. map_option join_lines (map_of fs p)), os_read_lines = map_of fs, os_read_dir = map_of ds, os_env_var = (\<lambda>_. None)\<rparr>"

definition test_drm_sysfs_parsing_mock :: "unit option" where
  "test_drm_sysfs_parsing_mock = do {
     let h = files_host [(''/tmp/d/device/vendor'', [''0x10de'']), (''/tmp/d/device/mem_info_vram_total'', [''8589934592''])] [];
     let (vendor, integrated, vram) = inspect_drm_sysfs h ''/tmp/d'' (16 * 1024 * 1024 * 1024);
     check (vendor = ''NVIDIA Corporation'');
     check (\<not> integrated);
     check (vram = 8589934592)
   }"

definition test_npu_discovery_mock :: "unit option" where
  "test_npu_discovery_mock = do {
     let h = files_host [(''/tmp/d/hailo0'', [])] [(''/tmp/d/accel'', [''accel0''])];
     let planes = discover_npu_planes h ''/tmp/d/accel'' ''/tmp/d/hailo0'';
     check (length planes = 2);
     check (p_kind (planes ! 0) = NpuAccelerator);
     check (p_kind (planes ! 1) = NpuAccelerator)
   }"

definition test_cpu_discovery_mock :: "unit option" where
  "test_cpu_discovery_mock = do {
     let h = one_file [''processor : 0'', ''flags : fpu amx_tile avx512_vnni avx2'', ''processor : 1'', ''flags : fpu amx_tile''];
     let (has_amx, has_vnni, has_avx2) = detect_cpu_features h ''/tmp/f'';
     check has_amx;
     check has_vnni;
     check has_avx2;
     check (count_cpu_cores h ''/tmp/f'' = 2);
     let plane = build_cpu_plane h ''/tmp/f'' (16 * 1024 * 1024 * 1024);
     check (p_kind plane = CpuMatrixExtension);
     check (''Intel-AMX'' \<in> set (p_features plane));
     check (''AVX512-VNNI'' \<in> set (p_features plane))
   }"

definition test_triage_enclave_assignment_and_quota :: "unit option" where
  "test_triage_enclave_assignment_and_quota = do {
     let (planes, assigned) = assign_triage_enclave
       [test_plane ''cpu-host'' ''Host CPU'' CpuMatrixExtension (8 * 1024 * 1024 * 1024) (8 * 1024 * 1024 * 1024)];
     check (assigned = Some ''cpu-host'');
     check (0 < length planes \<and> \<not> p_triage_reserved (planes ! 0));
     check (p_available (planes ! 0) = 6 * 1024 * 1024 * 1024)
   }"

section \<open>Crash logs\<close>

definition test_pstore_empty_dir :: "unit option" where
  "test_pstore_empty_dir = do {
     let audit = analyze_directories (files_host [] [(''/tmp/d'', [])]) [''/tmp/d''];
     check (panic_count audit = 0);
     check (quarantined_drivers audit = []);
     check (\<not> has_unarchived_pstore audit)
   }"

definition test_pstore_detect_amdgpu_ring_timeout :: "unit option" where
  "test_pstore_detect_amdgpu_ring_timeout = do {
     let h = files_host [(''/tmp/d/dmesg-efi-101'',
       [''[  124.551020] [drm:amdgpu_job_timedout] *ERROR* ring gfx_0.0.0 timeout'', ''[  124.551030] amdgpu 0000:03:00.0: GPU reset begin!''])]
       [(''/tmp/d'', [''dmesg-efi-101''])];
     let audit = analyze_directories h [''/tmp/d''];
     check (panic_count audit = 1);
     check (quarantined_drivers audit = [''amdgpu''])
   }"

definition test_pstore_detect_hailo_timeout :: "unit option" where
  "test_pstore_detect_hailo_timeout = do {
     let h = files_host [(''/tmp/d/dmesg-efi-202'', [''[   45.100] hailo: device reset failed for hailo0''])] [(''/tmp/d'', [''dmesg-efi-202''])];
     let audit = analyze_directories h [''/tmp/d''];
     check (panic_count audit = 1);
     check (quarantined_drivers audit = [''hailo''])
   }"

section \<open>Device events and peers\<close>

definition test_parse_drm_add_uevent :: "unit option" where
  "test_parse_drm_add_uevent = do {
     uevent \<leftarrow> parse_uevent (''add@/devices/pci0000:00/0000:00:01.0/drm/renderD128'' @ [nul] @ ''ACTION=add'' @ [nul]
       @ ''DEVPATH=/devices/pci0000:00/0000:00:01.0/drm/renderD128'' @ [nul] @ ''SUBSYSTEM=drm'' @ [nul]
       @ ''DEVNAME=/dev/dri/renderD128'' @ [nul] @ ''MAJOR=226'' @ [nul] @ ''MINOR=128'' @ [nul]);
     check (action uevent = ''add'');
     check (subsystem uevent = ''drm'');
     check (devname uevent = Some ''/dev/dri/renderD128'');
     check (is_compute_device uevent);
     check (\<not> is_reset_event uevent)
   }"

definition test_parse_reset_event :: "unit option" where
  "test_parse_reset_event = do {
     uevent \<leftarrow> parse_uevent (''change@/devices/pci0000:00/0000:00:01.0/drm/card0'' @ [nul] @ ''ACTION=change'' @ [nul]
       @ ''SUBSYSTEM=drm'' @ [nul] @ ''RESET=1'' @ [nul]);
     check (action uevent = ''change'');
     check (is_reset_event uevent)
   }"

definition test_compute_device_subsystems :: "unit option" where
  "test_compute_device_subsystems = do {
     uevent \<leftarrow> parse_uevent (''add@/devices/pci/accel/accel0'' @ [nul] @ ''SUBSYSTEM=accel'' @ [nul] @ ''DEVNAME=/dev/accel/accel0'' @ [nul]);
     check (is_compute_device uevent);
     uevent \<leftarrow> parse_uevent (''add@/devices/pci/misc/hailo0'' @ [nul] @ ''SUBSYSTEM=misc'' @ [nul] @ ''DEVNAME=/dev/hailo0'' @ [nul]);
     check (is_compute_device uevent);
     uevent \<leftarrow> parse_uevent (''add@/devices/virtual/kfd'' @ [nul] @ ''SUBSYSTEM=kfd'' @ [nul]);
     check (is_compute_device uevent);
     uevent \<leftarrow> parse_uevent (''add@/devices/input/input0'' @ [nul] @ ''SUBSYSTEM=input'' @ [nul] @ ''DEVNAME=/dev/input/event0'' @ [nul]);
     check (\<not> is_compute_device uevent)
   }"

definition test_parse_malformed_uevent :: "unit option" where
  "test_parse_malformed_uevent = do {
     check (parse_uevent [] = None);
     check (parse_uevent ''malformed_without_delimiter'' = None);
     check (parse_uevent [nul, nul] = None)
   }"

definition test_parse_slice_and_flags :: "unit option" where
  "test_parse_slice_and_flags = do {
     check (parse_slice_and_flags ''/user.slice/user-1000.slice/session-1.scope'' = (''user.slice'', False, False));
     check (parse_slice_and_flags ''/machine.slice/machine-fedora.scope'' = (''machine.slice'', True, False));
     check (parse_slice_and_flags ''/ai.slice/ai-batch.slice/job-42.service'' = (''ai.slice'', False, True))
   }"

definition test_mock_peer_info :: "unit option" where
  "test_mock_peer_info = do {
     let info = mock_peer 1234 1000 1000 ''/machine.slice/container.scope'';
     check (peer_pid info = 1234);
     check (peer_uid info = 1000);
     check (is_container info)
   }"

section \<open>Model registry\<close>

definition dummy_model :: "qa_env \<Rightarrow> nat \<Rightarrow> string \<Rightarrow> u64 \<Rightarrow> model_descriptor" where
  "dummy_model E k i accesses = \<lparr>m_id = i, m_format = ''GGUF'', m_path = ''/models/'' @ i @ ''.gguf'', m_estimated = 1024 * 1024,
     m_placement = Dormant, m_resident_plane = None, m_last_accessed = q_now E k, m_access_count = accesses, m_preferred_plane = None\<rparr>"

definition test_model_registry_eviction_and_update :: "qa_env \<Rightarrow> unit option" where
  "test_model_registry_eviction_and_update E = do {
     let reg = fold (\<lambda>i. register (dummy_model E i (''model_'' @ show_nat i) (of_nat i + 1))) [0..<256] new_registry;
     check (length (list_registry reg) = 256);
     let reg = register (dummy_model E 256 ''model_10'' 999) reg;
     check (length (list_registry reg) = 256);
     check (get_model_entry reg ''model_0'' \<noteq> None);
     let reg = register (dummy_model E 257 ''model_256'' 500) reg;
     check (length (list_registry reg) = 256);
     check (get_model_entry reg ''model_0'' = None);
     check (get_model_entry reg ''model_256'' \<noteq> None)
   }"

definition test_model_registry_pinned_immunity :: "qa_env \<Rightarrow> unit option" where
  "test_model_registry_pinned_immunity E = do {
     let pinned = (dummy_model E 0 ''pinned_triage'' 0)\<lparr>m_placement := PinnedTriage\<rparr>;
     let reg = register pinned new_registry;
     let reg = fold (\<lambda>i. register (dummy_model E i (''m_'' @ show_nat i) (of_nat i + 10))) [1..<256] reg;
     check (length (list_registry reg) = 256);
     let reg = register (dummy_model E 256 ''m_256'' 50) reg;
     check (length (list_registry reg) = 256);
     check (get_model_entry reg ''pinned_triage'' \<noteq> None)
   }"

section \<open>All pass\<close>

lemma hierarchy_passes: "test_priority_leasing_hierarchy = Some ()"
  by code_simp

lemma borrow_splitting_passes: "qa_ok E \<Longrightarrow> test_clean_borrow_splitting_preemption E = Some ()"
  by (simp add: test_clean_borrow_splitting_preemption_def gpu_topology_def requested_def request_lease_def qa_steps cong: bind_weak)

lemma revocation_passes: "qa_ok E \<Longrightarrow> test_lease_revocation_returns_resources E = Some ()"
  by (simp add: test_lease_revocation_returns_resources_def gpu_topology_def qa_steps cong: bind_weak)

lemma crate_freeze_passes: "qa_ok E \<Longrightarrow> test_freeze_and_thaw_lease E = Some ()"
  by (simp add: test_freeze_and_thaw_lease_def gpu_topology_def qa_steps cong: bind_weak)

lemma nonexistent_release_passes: "test_release_nonexistent_lease_returns_error E i = Some ()"
  by (simp add: test_release_nonexistent_lease_returns_error_def new_arbiter_def release_lease_def end_lease_def check_def)

lemma yield_success_passes:
  assumes "qa_ok E" and "polls \<noteq> []" "\<forall>t \<in> set (butlast polls). t < start + 30" "start + 30 \<le> last polls" "last polls < start + 100"
  shows "test_preempt_coordinator_cooperative_yield_success E K h start polls = Some ()"
  using assms
  by (simp add: test_preempt_coordinator_cooperative_yield_success_def setup_arbiter_def preempt_lease_def wait_cooperative gave_up_def add_record_def
      get_record_def case_prod_beta qa_steps cong: bind_weak)

lemma timeout_fallback_passes:
  assumes "qa_ok E" and "polls \<noteq> []" "\<forall>t \<in> set (butlast polls). t < start + 50" "start + 50 \<le> last polls"
  shows "test_preempt_coordinator_timeout_fallback_to_freeze E K h start polls = Some ()"
  using assms
  by (simp add: test_preempt_coordinator_timeout_fallback_to_freeze_def setup_arbiter_def preempt_lease_def wait_stubborn gave_up_def add_record_def
      get_record_def thaw_preempted_lease_def revoke_preempted_lease_def case_prod_beta qa_steps cong: bind_weak)

lemma inactive_noop_passes: "qa_ok E \<Longrightarrow> test_preempt_coordinator_inactive_lease_noop E K h start = Some ()"
  by (simp add: test_preempt_coordinator_inactive_lease_noop_def setup_arbiter_def preempt_lease_def qa_steps cong: bind_weak)

lemma npu_mock_passes: "test_npu_discovery_mock = Some ()"
  by (simp add: test_npu_discovery_mock_def files_host_def discover_npu_planes_def accel_plane_def hailo_plane_def starts_with_def check_def)

lemma pstore_tests_pass:
  "test_pstore_empty_dir = Some ()" "test_pstore_detect_amdgpu_ring_timeout = Some ()" "test_pstore_detect_hailo_timeout = Some ()"
  by code_simp+

lemma uevent_tests_pass:
  "test_parse_drm_add_uevent = Some ()" "test_parse_reset_event = Some ()" "test_compute_device_subsystems = Some ()" "test_parse_malformed_uevent = Some ()"
  by code_simp+

lemma peer_tests_pass: "test_parse_slice_and_flags = Some ()" "test_mock_peer_info = Some ()"
  by code_simp+

lemma quota_test_passes: "test_triage_enclave_assignment_and_quota = Some ()"
  by (simp add: test_triage_enclave_assignment_and_quota_def assign_triage_enclave_def triage_npu_def triage_cpu_def test_plane_def
      reserve_cpu_quota_def CPU_TRIAGE_RESERVED_BYTES_def saturating_sub_def min_def Let_def check_def)

lemma cpu_mock_passes: "test_cpu_discovery_mock = Some ()"
proof -
  let ?h = "one_file [''processor : 0'', ''flags : fpu amx_tile avx512_vnni avx2'', ''processor : 1'', ''flags : fpu amx_tile'']"
  have "detect_cpu_features ?h ''/tmp/f'' = (True, True, True)" "count_cpu_cores ?h ''/tmp/f'' = 2" by code_simp+
  then show ?thesis by (simp add: test_cpu_discovery_mock_def build_cpu_plane_def check_def Let_def)
qed

lemma drm_mock_passes: "test_drm_sysfs_parsing_mock = Some ()"
proof -
  have p: "path_join ''/tmp/d'' ''device'' = ''/tmp/d/device''" "path_join ''/tmp/d/device'' ''vendor'' = ''/tmp/d/device/vendor''"
    "path_join ''/tmp/d/device'' ''mem_info_vram_total'' = ''/tmp/d/device/mem_info_vram_total''"
    "trim (join_lines [''0x10de'']) = ''0x10de''" "to_ascii_lowercase ''0x10de'' = ''0x10de''" "trim (join_lines [''8589934592'']) = ''8589934592''" by code_simp+
  have "parse_u64 ''8589934592'' = Some 8589934592" by (simp add: qa_text)
  then show ?thesis by (simp add: test_drm_sysfs_parsing_mock_def inspect_drm_sysfs_def files_host_def p vendor_label_def Let_def check_def)
qed

text \<open>A registry that holds exactly the first \<open>n\<close> of a family of models.\<close>

definition filled :: "(nat \<Rightarrow> model_descriptor) \<Rightarrow> nat \<Rightarrow> model_registry \<Rightarrow> bool" where
  "filled f n r \<longleftrightarrow> hm_wf r \<and> hm_len r = n \<and> (\<forall>k d. hm_get r k = Some d \<longleftrightarrow> (\<exists>i < n. k = m_id (f i) \<and> d = f i))"

lemma filled_none: "filled f n r \<Longrightarrow> (\<And>i. i < n \<Longrightarrow> m_id (f i) \<noteq> k) \<Longrightarrow> hm_get r k = None"
  unfolding filled_def by (metis not_Some_eq)

lemma filled_register:
  assumes "filled f n r" and "n < 256" and "\<And>i. i < n \<Longrightarrow> m_id (f i) \<noteq> m_id (f n)"
  shows "filled f (Suc n) (register (f n) r)"
proof -
  have new: "hm_get r (m_id (f n)) = None" by (rule filled_none [OF assms(1,3)])
  then have "register (f n) r = hm_insert (m_id (f n)) (f n) r"
    using assms(1,2) by (simp add: register_def filled_def)
  moreover have "hm_get (hm_insert (m_id (f n)) (f n) r) k = Some d \<longleftrightarrow> (\<exists>i < Suc n. k = m_id (f i) \<and> d = f i)" for k d
  proof (cases "k = m_id (f n)")
    case True
    then show ?thesis using assms(3) by (auto simp: less_Suc_eq) metis+
  next
    case False
    then show ?thesis using assms(1) by (auto simp: filled_def less_Suc_eq)
  qed
  ultimately show ?thesis using assms(1) new by (auto simp: filled_def hm_len_insert hm_contains_key_def)
qed

lemma filled_fold:
  assumes "filled f m r" and "m \<le> n" "n \<le> 256" and "inj_on (\<lambda>i. m_id (f i)) {..<n}"
  shows "filled f n (fold (\<lambda>i. register (f i)) [m..<n] r)"
  using assms(2-4)
proof (induction n rule: dec_induct)
  case base
  then show ?case using assms(1) by simp
next
  case (step n)
  have "inj_on (\<lambda>i. m_id (f i)) {..<n}" using step.prems(2) by (rule inj_on_subset) auto
  then have "filled f n (fold (\<lambda>i. register (f i)) [m..<n] r)" using step by simp
  moreover have "m_id (f i) \<noteq> m_id (f n)" if "i < n" for i using inj_onD [OF step.prems(2), of i n] that by auto
  ultimately show ?case using filled_register [of f n] step by simp
qed

lemma show_nat_inject [simp]: "show_nat i = show_nat j \<longleftrightarrow> i = j"
  by (metis digits_value_show)

text \<open>The 257th model takes the place of the least used one.\<close>

lemma register_full:
  assumes "hm_wf r" and "hm_len r = 256" and "hm_get r (m_id d) = None" and "hm_get r k = Some m" "m_placement m \<noteq> PinnedTriage"
    and least: "\<And>j n. hm_get r j = Some n \<Longrightarrow> j \<noteq> k \<Longrightarrow> m_placement n \<noteq> PinnedTriage \<Longrightarrow> key_of m < key_of n"
  shows "register d r = hm_insert (m_id d) d (hm_remove k r)" and "hm_len (register d r) = 256"
proof -
  obtain e where e: "evict_candidate r = Some e" using evict_candidate_None [OF assms(1)] assms(4,5) by fastforce
  obtain n where n: "hm_get r e = Some n" "m_placement n \<noteq> PinnedTriage" "key_of n \<le> key_of m"
    using evict_candidate_SomeD [OF assms(1) e] assms(4,5) unfolding key_of_def by metis
  then have "e = k" using least [OF n(1)] by (meson leD)
  then show r: "register d r = hm_insert (m_id d) d (hm_remove k r)"
    using e assms(2,3) by (simp add: register_def hm_contains_key_def)
  show "hm_len (register d r) = 256"
    using hm_len_remove [OF assms(1,4)] assms(2,3) by (auto simp: r hm_len_insert hm_contains_key_def)
qed

lemma filled_get: "filled f n r \<Longrightarrow> i < n \<Longrightarrow> hm_get r (m_id (f i)) = Some (f i)"
  by (auto simp: filled_def)

lemma filled_update:
  assumes "filled f n r" and "i < n" "m_id d = m_id (f i)" and "inj_on (\<lambda>i. m_id (f i)) {..<n}"
  shows "filled (f(i := d)) n (register d r)"
proof -
  have wf: "hm_wf r" "hm_len r = n" using assms(1) by (simp_all add: filled_def)
  have "hm_get r (m_id d) = Some (f i)" using filled_get [OF assms(1,2)] assms(3) by simp
  then have r: "register d r = hm_insert (m_id d) d r" and l: "hm_len (hm_insert (m_id d) d r) = n"
    using wf by (simp_all add: register_def hm_len_insert hm_contains_key_def)
  have "hm_get (hm_insert (m_id d) d r) k = Some e \<longleftrightarrow> (\<exists>j < n. k = m_id ((f(i := d)) j) \<and> e = (f(i := d)) j)" for k e
  proof (cases "k = m_id d")
    case True
    have "j = i" if "j < n" "m_id (f j) = m_id (f i)" for j using inj_onD [OF assms(4), of j i] that assms(2) by auto
    then have "(\<exists>j < n. k = m_id ((f(i := d)) j) \<and> e = (f(i := d)) j) \<longleftrightarrow> e = d"
      unfolding True fun_upd_apply using assms(2,3) by metis
    then show ?thesis using True by auto
  next
    case False
    then have "hm_get (hm_insert (m_id d) d r) k = Some e \<longleftrightarrow> (\<exists>j < n. k = m_id (f j) \<and> e = f j)" using assms(1) by (simp add: filled_def)
    also have "\<dots> \<longleftrightarrow> (\<exists>j < n. k = m_id ((f(i := d)) j) \<and> e = (f(i := d)) j)" using False assms(3) by (auto split: if_splits)
    finally show ?thesis .
  qed
  then show ?thesis using wf l by (simp add: r filled_def)
qed

lemma filled_full:
  assumes f: "filled f 256 r" and k: "k < 256" "m_placement (f k) \<noteq> PinnedTriage" and new: "\<And>i. i < 256 \<Longrightarrow> m_id (f i) \<noteq> m_id d"
    and least: "\<And>j. j < 256 \<Longrightarrow> j \<noteq> k \<Longrightarrow> m_placement (f j) \<noteq> PinnedTriage \<Longrightarrow> key_of (f k) < key_of (f j)"
  shows "register d r = hm_insert (m_id d) d (hm_remove (m_id (f k)) r)" and "hm_len (register d r) = 256"
proof -
  have wf: "hm_wf r" "hm_len r = 256" using f by (simp_all add: filled_def)
  have l: "key_of (f k) < key_of n" if "hm_get r j = Some n" "j \<noteq> m_id (f k)" "m_placement n \<noteq> PinnedTriage" for j n
    using f least that unfolding filled_def by metis
  note full = register_full [OF wf filled_none [OF f new] filled_get [OF f k(1)] k(2) l]
  show "register d r = hm_insert (m_id d) d (hm_remove (m_id (f k)) r)" by (rule full(1))
  show "hm_len (register d r) = 256" by (rule full(2))
qed

lemma u64_of_nat_less: "a < b \<Longrightarrow> b < 1000 \<Longrightarrow> (of_nat a :: u64) < of_nat b"
  by (simp add: word_of_nat_less_iff take_bit_nat_eq_self)

lemma dummy_model_id [simp]: "m_id (dummy_model E i n c) = n"
  by (simp add: dummy_model_def)

lemma filled_list: "filled f n r \<Longrightarrow> length (list_registry r) = n"
  by (simp add: filled_def list_registry_def hm_values_def hm_len_def)

lemma hm_len_list: "hm_len r = n \<Longrightarrow> length (list_registry r) = n"
  by (simp add: list_registry_def hm_values_def hm_len_def)

lemma registry_eviction_passes: "test_model_registry_eviction_and_update E = Some ()"
proof -
  let ?f = "\<lambda>i. dummy_model E i (''model_'' @ show_nat i) (of_nat i + 1)"
  let ?u = "dummy_model E 256 ''model_10'' 999" and ?d = "dummy_model E 257 ''model_256'' 500"
  have n: "show_nat 0 = ''0''" "show_nat 10 = ''10''" "show_nat 256 = ''256''" by code_simp+
  have inj: "inj_on (\<lambda>i. m_id (?f i)) {..<256}" by (auto simp: inj_on_def dummy_model_def)
  define r where "r = fold (\<lambda>i. register (?f i)) [0..<256] new_registry"
  have r: "filled ?f 256 r" unfolding r_def
    by (rule filled_fold [OF _ _ _ inj]) (simp_all add: filled_def new_registry_def hm_len_def hm_new_def hm_wf_def hm_get_def)
  let ?g = "?f(10 := ?u)"
  have g: "filled ?g 256 (register ?u r)" by (rule filled_update [OF r _ _ inj]) (simp_all add: dummy_model_def n)
  have new: "m_id (?g i) \<noteq> m_id ?d" if "i < 256" for i using that n(3) show_nat_inject [of i 256] by (auto simp: dummy_model_def)
  have least: "key_of (?g 0) < key_of (?g j)" if "j < 256" "j \<noteq> 0" for j
    using u64_of_nat_less [of 1 "Suc j"] u64_of_nat_less [of 1 999] that by (simp add: key_of_def dummy_model_def less_prod_def add.commute)
  have "m_placement (?g 0) \<noteq> PinnedTriage" by (simp add: dummy_model_def)
  note full = filled_full [OF g _ this new least, simplified fun_upd_apply, simplified]
  have "hm_get (register ?u r) ''model_0'' \<noteq> None" using filled_get [OF g, of 0] by (simp add: n)
  moreover have "hm_get (register ?d (register ?u r)) ''model_0'' = None" "hm_get (register ?d (register ?u r)) ''model_256'' \<noteq> None"
    unfolding full(1) by (simp_all add: n)
  ultimately show ?thesis
    unfolding test_model_registry_eviction_and_update_def r_def [symmetric] Let_def get_model_entry_def
    using filled_list [OF r] filled_list [OF g] hm_len_list [OF full(2)] by (simp add: check_def del: not_None_eq)
qed

lemma registry_pinning_passes: "test_model_registry_pinned_immunity E = Some ()"
proof -
  let ?p = "(dummy_model E 0 ''pinned_triage'' 0)\<lparr>m_placement := PinnedTriage\<rparr>" and ?d = "dummy_model E 256 ''m_256'' 50"
  let ?f = "(\<lambda>i. dummy_model E i (''m_'' @ show_nat i) (of_nat i + 10))(0 := ?p)"
  have inj: "inj_on (\<lambda>i. m_id (?f i)) {..<256}" by (auto simp: inj_on_def dummy_model_def)
  define r where "r = fold (\<lambda>i. register (?f i)) [1..<256] (register ?p new_registry)"
  have fold: "fold (\<lambda>i. register (dummy_model E i (''m_'' @ show_nat i) (of_nat i + 10))) [1..<256] (register ?p new_registry) = r"
    unfolding r_def by (rule fold_cong) auto
  have "filled ?f 0 new_registry" by (simp add: filled_def new_registry_def hm_len_def hm_new_def hm_wf_def hm_get_def)
  then have "filled ?f 1 (register ?p new_registry)" using filled_register [of ?f 0 new_registry] by simp
  then have r: "filled ?f 256 r" unfolding r_def by (rule filled_fold [OF _ _ _ inj]) simp_all
  have n: "show_nat 256 = ''256''" "show_nat 1 = ''1''" by code_simp+
  have new: "m_id (?f i) \<noteq> m_id ?d" if "i < 256" for i using that n(1) show_nat_inject [of i 256] by (auto simp: dummy_model_def)
  have least: "key_of (?f 1) < key_of (?f j)" if "j < 256" "j \<noteq> 1" "m_placement (?f j) \<noteq> PinnedTriage" for j
  proof -
    have "j \<noteq> 0" using that(3) by (cases "j = 0") simp_all
    then show ?thesis using u64_of_nat_less [of 11 "j + 10"] that by (simp add: key_of_def dummy_model_def less_prod_def add.commute)
  qed
  have "m_placement (?f 1) \<noteq> PinnedTriage" by (simp add: dummy_model_def)
  note full = filled_full [OF r _ this new least, simplified fun_upd_apply, simplified]
  have "hm_get (register ?d r) ''pinned_triage'' \<noteq> None" unfolding full(1) using filled_get [OF r, of 0] by simp
  then show ?thesis
    unfolding test_model_registry_pinned_immunity_def Let_def fold get_model_entry_def
    using filled_list [OF r] hm_len_list [OF full(2)] by (simp add: check_def del: not_None_eq)
qed

end
