(* ===== verification/Spec2Isabelle.thy ===== *)
theory Spec2Isabelle
  imports Preempt Arbiter_Uma Varlink_Types Sockets Tooling Qa_Edge Qa_Stress Qa_Crates
begin

text \<open>
  Verification of \<^verbatim>\<open>systemd-inferenced\<close>, a daemon that arbitrates compute planes (GPUs, NPUs,
  the host CPU) between inference clients by leases, and of the library it is built on. The
  sources are the Rust crates under \<^verbatim>\<open>src/crates\<close> and the acceptance tests under \<^verbatim>\<open>src/qa\<close>.

  \<^bold>\<open>The program.\<close> At its start the daemon adopts or binds four listeners, probes the host for
  compute planes, audits crash logs, reserves a plane for emergencies and builds the arbiter.
  Then a Varlink server, an HTTP gateway, an emergency triage server and a descriptor server
  serve clients, each connection in a task of its own. The first three acquire and release
  leases of the one arbiter, which preempts leases of lower priority when memory is short and
  signals or freezes their clients. Background tasks rediscover the hardware after device
  events, ping the service manager's watchdog, and keep the host awake while leases are active.

  \<^bold>\<open>Shared theories.\<close>
  \<^item> \<open>Prelude\<close>: machine integers with saturating arithmetic, iterator adaptors, hash maps as
    association lists whose order stands for an unspecified iteration order, and the locales
    \<open>transition_invariant\<close> and \<open>simulation\<close> for step relations.
  \<^item> \<open>Rust_Str\<close>, \<open>Utf8\<close>, \<open>Floats\<close>, \<open>Json\<close>, \<open>Os\<close>: the standard library's strings and
    number parsing, UTF-8, binary floating point with rounding, JSON values, and the host as a
    record of files, directories and environment variables.

  \<^bold>\<open>Core library\<close> (\<^verbatim>\<open>inferenced-core/src\<close>).
  \<^item> \<open>Psi\<close> (\<^verbatim>\<open>psi.rs\<close>): pressure stall files; what the kernel prints is read back, and the level
    follows the thresholds.
  \<^item> \<open>Lease\<close> (\<^verbatim>\<open>lease.rs\<close>, \<^verbatim>\<open>error.rs\<close>): leases, priorities, errors, the life cycle of a lease.
  \<^item> \<open>Topology\<close>, \<open>Topology_Props\<close> (\<^verbatim>\<open>topology/\<close>): discovery as a function of the host; every
    host yields a well-formed topology, the choice of the triage enclave, the exactness of
    the crash audit, and the drivers the quarantine never matches.
  \<^item> \<open>Model_Registry\<close> (\<^verbatim>\<open>model.rs\<close>): the table of models and its eviction.
  \<^item> \<open>Arbiter\<close> (\<^verbatim>\<open>arbiter.rs\<close>): the state and every operation. \<open>Arbiter_Memory\<close> has the memory
    of planes under refunds and charges, \<open>Arbiter_Inv\<close> the operations as a step relation, its
    invariant and the case analysis of admission, \<open>Arbiter_Steps\<close> that every step keeps the
    invariant and follows the life cycle, \<open>Arbiter_Accounting\<close> the accounting of memory,
    \<open>Arbiter_Admission\<close>, \<open>Arbiter_Ops\<close> and \<open>Arbiter_Runs\<close> the properties of admission, of the
    single operations and of whole runs, \<open>Arbiter_Uma\<close> the memory that the CPU and a unified
    plane share, \<open>Arbiter_Rank\<close> that admission depends on the leases of the same or a higher
    priority only. \<open>Arbiter_Workers\<close> runs concurrent tasks on the arbiter, as the stress tests
    do: tasks that fit together never disturb each other, and storms of thaws settle.
  \<^item> \<open>Lease_Service\<close>: the contract of the arbiter towards the servers as the locale
    \<open>lease_service\<close>, and its interpretation on the arbiter.
  \<^item> \<open>Freezer\<close>, \<open>Preempt\<close> (\<^verbatim>\<open>freezer.rs\<close>, \<^verbatim>\<open>preempt.rs\<close>): signals, control groups, and the
    two-tier preemption with its deadline.
  \<^item> \<open>Peer\<close>, \<open>Netlink\<close>, \<open>Paging\<close> (\<^verbatim>\<open>peer.rs\<close>, \<^verbatim>\<open>netlink.rs\<close>, \<^verbatim>\<open>paging.rs\<close>, \<^verbatim>\<open>fd_lease.rs\<close>,
    \<^verbatim>\<open>madvise.rs\<close>): attribution of clients, device events, sealed memory files and descriptors.

  \<^bold>\<open>Daemon\<close> (\<^verbatim>\<open>inferenced-daemon/src\<close>).
  \<^item> \<open>Varlink\<close>, \<open>Varlink_Conn\<close> (\<^verbatim>\<open>varlink/\<close>): protocol, handlers, dispatch, framing; a connection
    is a step relation with the other tasks' steps in between, and its leases are reclaimed.
    \<open>Varlink_Types\<close> reads the published interface descriptions and compares the replies with
    the types they declare.
  \<^item> \<open>Fd_Quota\<close>, \<open>Fd_Server\<close> (\<^verbatim>\<open>fd_quota.rs\<close>, \<^verbatim>\<open>fd_server.rs\<close>): the quota as tasks on a relaxed
    atomic, its refinement of an abstract pool, and the descriptor connections.
  \<^item> \<open>Gateway\<close> (\<^verbatim>\<open>gateway/\<close>), \<open>Sentry\<close> (\<^verbatim>\<open>sentry/mod.rs\<close>): the handlers that hold a lease while
    they work.
  \<^item> \<open>Inhibit\<close>, \<open>Activation\<close>, \<open>Notify\<close> (\<^verbatim>\<open>inhibit.rs\<close>, \<^verbatim>\<open>activation.rs\<close>, \<^verbatim>\<open>notify.rs\<close>,
    \<^verbatim>\<open>creds.rs\<close>): keeping the host awake, adopting sockets, notifications and secrets.
  \<^item> \<open>Daemon\<close> (\<^verbatim>\<open>main.rs\<close>): the start, the background tasks, the end, and \<open>daemon_step\<close>, what all
    tasks together do to the arbiter; it simulates the arbiter's steps.
  \<^item> \<open>Sockets\<close> (\<^verbatim>\<open>varlink/mod.rs\<close>, \<^verbatim>\<open>fd_server.rs\<close>, \<^verbatim>\<open>sentry/mod.rs\<close>, \<^verbatim>\<open>gateway/mod.rs\<close>,
    \<^verbatim>\<open>activation.rs\<close>, \<^verbatim>\<open>netlink.rs\<close>): binding listeners in a file system, the accept loops and
    what ends them, opening the socket for device events.

  \<^bold>\<open>Command line tool\<close> (\<^verbatim>\<open>inferenctl/src\<close>).
  \<^item> \<open>Client\<close> (\<^verbatim>\<open>client.rs\<close>): the Varlink client; a call makes the whole way to the server's
    handler and back, and what becomes of streams.
  \<^item> \<open>Ctl\<close> (\<^verbatim>\<open>cli.rs\<close>, \<^verbatim>\<open>main.rs\<close>, \<^verbatim>\<open>format.rs\<close>, \<^verbatim>\<open>cmd/\<close>): every command as a function from what
    it reads to what it prints; the answer of the daemon's stream is printed exactly.
  \<^item> \<open>Tooling\<close> (\<^verbatim>\<open>cmd/tooling.rs\<close>, \<^verbatim>\<open>main.rs\<close>): completions, manual page, benchmark, and the
    dispatch of the commands.

  \<^bold>\<open>Acceptance tests\<close> (\<^verbatim>\<open>src/qa\<close>).
  \<^item> \<open>Qa_Support\<close>: a test as a value of the option type, the host it runs on, its steps.
  \<^item> \<open>Qa_Edge\<close>, \<open>Qa_Stress\<close>, \<open>Qa_Unit\<close>, \<open>Qa_Integration\<close> (\<^verbatim>\<open>edge/\<close>, \<^verbatim>\<open>fuzz/\<close>, \<^verbatim>\<open>unit/\<close>,
    \<^verbatim>\<open>integration/\<close>): the tests of the arbiter, of discovery, of the registry, of the freezer and
    of the preemption coordinator as programs of the model. Each is shown to pass on every host
    that is not under critical pressure, and a concurrent one under every schedule.
  \<^item> \<open>Qa_Crates\<close> (\<^verbatim>\<open>inferenced-core/src/tests\<close> and the test modules beside the code): the core
    library's own tests of the arbiter, preemption, discovery, crash records, device events, peers
    and the registry, in the same form.

  \<^bold>\<open>Conventions.\<close> A struct is a record, an enum a datatype, an unsigned integer a word of its
  width; an operation that fails returns a value of a sum type and the state it left behind.
  Each operation of the arbiter runs under its lock and is one step. Effects on the outside
  (signals, freezes, datagrams, system calls) are returned as lists, in order. Code that is not
  part of the repository is an argument: identifiers, clocks, the kernel's answers, JSON text,
  HTTP. Hypotheses on these are named and state documented behaviour: \<open>fs_sound\<close> (a directory
  lists a name once), \<open>pid_zero_invalid\<close>, freshness of identifiers.

  \<^bold>\<open>Bounds.\<close> There is no fuel: loops are recursive functions with a termination argument, or
  consume the list of what they wait for and have no value while it does not suffice. That
  enough polls decide a preemption is \<open>preemption_terminates\<close>. Ghost state is used in two
  places: the leases ever granted on a connection, and the modification order of the quota.

  \<^bold>\<open>Not modelled.\<close> Logging, argument parsing, HTTP and the async runtime (libraries);
  \<open>health_check\<close>, which only takes the lock; the crate facade \<^verbatim>\<open>lib.rs\<close>; the
  unit tests of the daemon and the command line tool, and those tests that map memory, pass
  descriptors, read the live host, run the binaries or talk over real sockets, which test the
  operating system as much as the code.
\<close>

section \<open>The whole daemon\<close>

text \<open>C9: the daemon as a whole refines the arbiter. On every host, whatever clients send to the
  Varlink server, the gateway and the triage server, however connections break off and whatever
  device events arrive, the states the daemon reaches are states of the arbiter running from
  the discovered topology, and its invariant holds in all of them.\<close>

theorem daemon_refines_arbiter:
  assumes "fs_sound h" and start: "daemon_start S h own_pid c = (Some d, acts)"
    and run: "(daemon_step L J)\<^sup>*\<^sup>* (d_arbiter d) st"
  shows "(arbiter_step L)\<^sup>*\<^sup>* (new_arbiter (discover h)) st \<and> arbiter_inv st"
proof -
  have d: "d_arbiter d = new_arbiter (discover h)" by (rule start_topology [OF start])
  have "arbiter_inv (d_arbiter d)" unfolding d by (rule new_arbiter_inv) (rule discover_well_formed [OF assms(1)])
  then show ?thesis using running.steps_sim [OF run] running.steps_inv [OF run] by (simp add: d)
qed

theorem daemon_refines_arbiter_witness:
  "arbiter_inv (hotplug_event ex_host (Ok ''bad'') (new_arbiter (discover empty_os)))"
proof -
  let ?d = "\<lparr>d_arbiter = new_arbiter (discover empty_os), d_token = gateway_token empty_os\<rparr>"
  have sound: "fs_sound empty_os" by (simp add: fs_sound_def empty_os_def)
  have "\<not> is_socket_activated empty_os 7" by (simp add: is_socket_activated_def empty_os_def)
  then have "fst (daemon_start ex_start empty_os 7 default_cli) = Some ?d"
    by (simp add: daemon_start_def check_and_adopt_sockets_def no_sockets_def adopt_or_bind_def gateway_listen_def ex_start_def default_cli_def)
  then have start: "daemon_start ex_start empty_os 7 default_cli = (Some ?d, snd (daemon_start ex_start empty_os 7 default_cli))"
    by (simp add: prod_eq_iff)
  have "daemon_step ex_lib ex_json (d_arbiter ?d) (hotplug_event ex_host (Ok ''bad'') (d_arbiter ?d))"
    by (rule daemon_step.hotplug) (rule ex_host_sound)
  then have run: "(daemon_step ex_lib ex_json)\<^sup>*\<^sup>* (d_arbiter ?d) (hotplug_event ex_host (Ok ''bad'') (d_arbiter ?d))" by blast
  from daemon_refines_arbiter [OF sound start run] show ?thesis by simp
qed

end
